(* ===== verification/Prelude.thy ===== *)
theory Prelude
  imports Main "HOL-Library.Word" "HOL-Library.Multiset" "HOL-Library.State_Monad"
    "HOL-Library.Monad_Syntax"
begin

text \<open>
  Shared vocabulary of the development: the machine types of the Windows x64 build, the
  state monad every stateful operation is written in, a weakest-precondition calculus for
  it, and the theorem collections the component theories extend.
\<close>

unbundle bit_operations_syntax

section \<open>Machine types\<close>

text \<open>
  \<open>DWORD\<close>/\<open>ULONG\<close>/\<open>LONG\<close> are 32 bits (\<open>LONG\<close> read through \<^const>\<open>sint\<close>),
  \<open>ULONGLONG\<close> and handles 64 bits, \<open>USHORT\<close> and \<open>wchar_t\<close> 16 bits.  A \<open>std::string\<close> is a
  list of bytes (\<^typ>\<open>string\<close>), a \<open>std::wstring\<close> a list of UTF-16 code units.
\<close>

type_synonym DWORD = "32 word"
type_synonym LONG = "32 word"
type_synonym ULONGLONG = "64 word"
type_synonym USHORT = "16 word"
type_synonym HANDLE = "64 word"
type_synonym wchar = "16 word"
type_synonym wstring = "wchar list"

abbreviation NULL_HANDLE :: HANDLE where "NULL_HANDLE \<equiv> 0"
abbreviation INVALID_HANDLE_VALUE :: HANDLE where "INVALID_HANDLE_VALUE \<equiv> - 1"

text \<open>A wide string literal whose characters are ASCII, as \<open>L"..."\<close> in the source.\<close>

definition wide :: "string \<Rightarrow> wstring" where
  "wide s = map of_char s"

text \<open>\<open>s.substr(pos, n)\<close> for \<open>pos \<le> s.size()\<close>.\<close>

definition substr :: "'a list \<Rightarrow> nat \<Rightarrow> nat \<Rightarrow> 'a list" where
  "substr s pos n = take n (drop pos s)"

section \<open>Theorem collections\<close>

named_theorems wp_simps \<open>weakest preconditions of the monad and of the operations\<close>
named_theorems wp_intro \<open>the same as rules, which forget the world after each call\<close>

section \<open>Weakest preconditions for the state monad\<close>

text \<open>
  \<open>wp m Q s\<close>: run from \<open>s\<close>, the operation \<open>m\<close> ends with a value and a state that satisfy
  \<open>Q\<close>.  Operations are total, so this is total correctness.
\<close>

definition wp :: "('s, 'a) state \<Rightarrow> ('a \<Rightarrow> 's \<Rightarrow> bool) \<Rightarrow> 's \<Rightarrow> bool" where
  "wp m Q s = (case run_state m s of (a, s') \<Rightarrow> Q a s')"

definition gets :: "('s \<Rightarrow> 'a) \<Rightarrow> ('s, 'a) state" where
  "gets f = State (\<lambda>s. (f s, s))"

definition modify :: "('s \<Rightarrow> 's) \<Rightarrow> ('s, unit) state" where
  "modify f = State (\<lambda>s. ((), f s))"

definition when_do :: "bool \<Rightarrow> ('s, unit) state \<Rightarrow> ('s, unit) state" where
  "when_do b m = (if b then m else State_Monad.return ())"

lemma run_state_gets [simp]: "run_state (gets f) s = (f s, s)"
  by (simp add: gets_def)

lemma run_state_modify [simp]: "run_state (modify f) s = ((), f s)"
  by (simp add: modify_def)

lemma wp_return [wp_simps]: "wp (State_Monad.return x) Q s = Q x s"
  by (simp add: wp_def)

lemma wp_bind [wp_simps]: "wp (State_Monad.bind m f) Q s = wp m (\<lambda>a. wp (f a) Q) s"
  by (simp add: wp_def split: prod.splits)

lemma wp_gets [wp_simps]: "wp (gets f) Q s = Q (f s) s"
  by (simp add: wp_def)

lemma wp_modify [wp_simps]: "wp (modify f) Q s = Q () (f s)"
  by (simp add: wp_def)

lemma wp_if [wp_simps]: "wp (if b then m else n) Q s = (if b then wp m Q s else wp n Q s)"
  by simp

lemma wp_when [wp_simps]: "wp (when_do b m) Q s = (if b then wp m Q s else Q () s)"
  by (simp add: when_do_def wp_simps)

lemma wp_returnI [wp_intro]: "Q x s \<Longrightarrow> wp (State_Monad.return x) Q s"
  by (simp add: wp_simps)

lemma wp_bindI [wp_intro]: "wp m (\<lambda>a. wp (f a) Q) s \<Longrightarrow> wp (State_Monad.bind m f) Q s"
  by (simp add: wp_simps)

lemma wp_getsI [wp_intro]: "Q (f s) s \<Longrightarrow> wp (gets f) Q s"
  by (simp add: wp_simps)

lemma wp_modifyI [wp_intro]: "Q () (f s) \<Longrightarrow> wp (modify f) Q s"
  by (simp add: wp_simps)

lemma wp_ifI [wp_intro]:
  "(b \<Longrightarrow> wp m Q s) \<Longrightarrow> (\<not> b \<Longrightarrow> wp n Q s) \<Longrightarrow> wp (if b then m else n) Q s"
  by simp

lemma wp_whenI [wp_intro]: "(b \<Longrightarrow> wp m Q s) \<Longrightarrow> (\<not> b \<Longrightarrow> Q () s) \<Longrightarrow> wp (when_do b m) Q s"
  by (simp add: wp_simps)

lemma wp_case_prodI [wp_intro]:
  "wp (m (fst p) (snd p)) Q s \<Longrightarrow> wp (case p of (a, b) \<Rightarrow> m a b) Q s"
  by (simp add: case_prod_unfold)

lemma wp_case_optionI [wp_intro]:
  "(x = None \<Longrightarrow> wp m Q s) \<Longrightarrow> (\<And>a. x = Some a \<Longrightarrow> wp (n a) Q s) \<Longrightarrow>
   wp (case x of None \<Rightarrow> m | Some a \<Rightarrow> n a) Q s"
  by (cases x) simp_all

lemma wp_mono: "wp m Q s \<Longrightarrow> (\<And>a s'. Q a s' \<Longrightarrow> R a s') \<Longrightarrow> wp m R s"
  by (auto simp: wp_def split: prod.splits)

lemma wp_conj: "wp m P s \<Longrightarrow> wp m Q s \<Longrightarrow> wp m (\<lambda>a t. P a t \<and> Q a t) s"
  by (simp add: wp_def split: prod.splits)

lemma wp_run: "run_state m s = (a, s') \<Longrightarrow> wp m Q s \<Longrightarrow> Q a s'"
  by (simp add: wp_def)

section \<open>Lists read by index\<close>

lemma drop_Cons_nth: "i < length s \<Longrightarrow> drop i s = s ! i # drop (Suc i) s"
  by (simp add: Cons_nth_drop_Suc)

lemma drop_eq_ConsD: "drop i s = x # xs \<Longrightarrow> i < length s \<and> s ! i = x \<and> drop (Suc i) s = xs"
  by (metis drop_Suc list.sel(3) drop_all list.distinct(1) nth_via_drop not_less tl_drop)

end
