(* ===== verification/Json_Parser.thy ===== *)
theory Json_Parser
  imports Prelude
begin

text \<open>
  \<open>src/src/broker/ProviderJson.cpp\<close>: the parser for the one-line JSON messages the broker
  sends over the pipe.  Positions are kept as the code keeps them (an index into a
  \<open>std::string\<close>), out-parameters are returned, and every \<open>return false\<close> is a branch.  The
  parsing routines also return, as a ghost result, the contents of the local strings they
  leave behind without \<open>SecureClearString\<close>.
\<close>

section \<open>Messages and secure clearing\<close>

record Msg =
  mtype :: string
  sam :: string
  password :: string
  reason :: string

text \<open>
  A \<open>std::string\<close> as the memory it owns: the bytes of its buffer and its size.  The pure
  code below sees only the contents; this view is what \<open>SecureZeroMemory\<close> acts on.
\<close>

record cstring =
  cbuf :: string
  csize :: nat

definition contents :: "cstring \<Rightarrow> string" where
  "contents s = take (csize s) (cbuf s)"

definition cstring_wf :: "cstring \<Rightarrow> bool" where
  "cstring_wf s \<longleftrightarrow> csize s \<le> length (cbuf s)"

definition SecureZeroMemory :: "string \<Rightarrow> nat \<Rightarrow> string" where
  "SecureZeroMemory buf n = replicate (min n (length buf)) (CHR 0x00) @ drop n buf"

definition SecureClearString :: "cstring \<Rightarrow> cstring" where
  "SecureClearString s =
     (let s = (if csize s \<noteq> 0 then s\<lparr>cbuf := SecureZeroMemory (cbuf s) (csize s)\<rparr> else s)
      in s\<lparr>csize := 0\<rparr>)"

text \<open>On contents alone, clearing a message leaves the four fields empty.\<close>

definition SecureClearMsg :: "Msg \<Rightarrow> Msg" where
  "SecureClearMsg m = m\<lparr>mtype := [], sam := [], password := [], reason := []\<rparr>"

abbreviation empty_msg :: Msg where
  "empty_msg \<equiv> \<lparr>mtype = [], sam = [], password = [], reason = []\<rparr>"

section \<open>Characters\<close>

definition is_ws :: "char \<Rightarrow> bool" where
  "is_ws c \<longleftrightarrow> c = CHR '' '' \<or> c = CHR 0x09 \<or> c = CHR 0x0D \<or> c = CHR 0x0A"

function trim_left :: "string \<Rightarrow> nat \<Rightarrow> nat \<Rightarrow> nat" where
  "trim_left s i j = (if i < j \<and> is_ws (s ! i) then trim_left s (Suc i) j else i)"
  by pat_completeness auto
termination
  by (relation "measure (\<lambda>(s, i, j). j - i)") auto

function trim_right :: "string \<Rightarrow> nat \<Rightarrow> nat \<Rightarrow> nat" where
  "trim_right s i j = (if j > i \<and> is_ws (s ! (j - 1)) then trim_right s i (j - 1) else j)"
  by pat_completeness auto
termination
  by (relation "measure (\<lambda>(s, i, j). j)") auto

declare trim_left.simps [simp del] trim_right.simps [simp del]

definition Trim :: "string \<Rightarrow> string" where
  "Trim s =
     (let i = trim_left s 0 (length s); j = trim_right s i (length s)
      in substr s i (j - i))"

definition HexValue :: "char \<Rightarrow> int" where
  "HexValue ch =
     (let c = of_char ch :: int in
      if 48 \<le> c \<and> c \<le> 57 then c - 48
      else if 97 \<le> c \<and> c \<le> 102 then c - 97 + 10
      else if 65 \<le> c \<and> c \<le> 70 then c - 65 + 10
      else - 1)"

text \<open>The cast \<open>(char)x\<close> of an \<open>unsigned int\<close> keeps its low byte.\<close>

definition to_char :: "32 word \<Rightarrow> char" where
  "to_char x = char_of (unat x)"

definition AppendUtf8 :: "string \<Rightarrow> 32 word \<Rightarrow> string" where
  "AppendUtf8 out cp =
     (if cp \<le> 0x7F then out @ [to_char cp]
      else if cp \<le> 0x7FF then
        out @ [to_char (0xC0 OR drop_bit 6 cp),
               to_char (0x80 OR (cp AND 0x3F))]
      else if cp \<le> 0xFFFF then
        out @ [to_char (0xE0 OR drop_bit 12 cp),
               to_char (0x80 OR (drop_bit 6 cp AND 0x3F)),
               to_char (0x80 OR (cp AND 0x3F))]
      else
        out @ [to_char (0xF0 OR drop_bit 18 cp),
               to_char (0x80 OR (drop_bit 12 cp AND 0x3F)),
               to_char (0x80 OR (drop_bit 6 cp AND 0x3F)),
               to_char (0x80 OR (cp AND 0x3F))])"

section \<open>Escapes\<close>

function hex4_loop :: "string \<Rightarrow> nat \<Rightarrow> nat \<Rightarrow> 32 word \<Rightarrow> 32 word option" where
  "hex4_loop s pos i codepoint =
     (if i < 4 then
        (let v = HexValue (s ! (pos + i)) in
         if v < 0 then None
         else hex4_loop s pos (Suc i) (push_bit 4 codepoint OR of_int v))
      else Some codepoint)"
  by pat_completeness auto
termination
  by (relation "measure (\<lambda>(s, pos, i, cp). 4 - i)") auto

declare hex4_loop.simps [simp del]

definition ParseHex4 :: "string \<Rightarrow> nat \<Rightarrow> 32 word option" where
  "ParseHex4 s pos = (if pos + 4 > length s then None else hex4_loop s pos 0 0)"

text \<open>
  One round of the loop of \<open>UnescapeJsonString\<close> at an index inside the string: the new index
  and output, or \<open>Inl out\<close> for \<open>return false\<close> with the partial output.
\<close>

definition unescape_u :: "string \<Rightarrow> nat \<Rightarrow> string \<Rightarrow> string + (nat \<times> string)" where
  "unescape_u inp i out =
     (case ParseHex4 inp (i + 1) of
        None \<Rightarrow> Inl out
      | Some cp1 \<Rightarrow>
          (let i = i + 4 in
           if 0xD800 \<le> cp1 \<and> cp1 \<le> 0xDBFF then
             (if i + 6 < length inp \<and> inp ! (i + 1) = CHR 0x5C \<and> inp ! (i + 2) = CHR ''u'' then
                (case ParseHex4 inp (i + 3) of
                   None \<Rightarrow> Inl out
                 | Some cp2 \<Rightarrow>
                     if 0xDC00 \<le> cp2 \<and> cp2 \<le> 0xDFFF then
                       (let i = i + 6;
                            cp = 0x10000 + (push_bit 10 (cp1 - 0xD800) OR (cp2 - 0xDC00))
                        in Inr (i, AppendUtf8 out cp))
                     else Inl out)
              else Inl out)
           else if 0xDC00 \<le> cp1 \<and> cp1 \<le> 0xDFFF then Inl out
           else Inr (i, AppendUtf8 out cp1)))"

definition unescape_at :: "string \<Rightarrow> nat \<Rightarrow> string \<Rightarrow> string + (nat \<times> string)" where
  "unescape_at inp i out =
     (let c = inp ! i in
      if c \<noteq> CHR 0x5C then Inr (i, out @ [c])
      else if i + 1 \<ge> length inp then Inl out
      else
        (let i = i + 1; e = inp ! i in
         if e = CHR 0x22 then Inr (i, out @ [CHR 0x22])
         else if e = CHR 0x5C then Inr (i, out @ [CHR 0x5C])
         else if e = CHR ''/'' then Inr (i, out @ [CHR ''/''])
         else if e = CHR ''b'' then Inr (i, out @ [CHR 0x08])
         else if e = CHR ''f'' then Inr (i, out @ [CHR 0x0C])
         else if e = CHR ''n'' then Inr (i, out @ [CHR 0x0A])
         else if e = CHR ''r'' then Inr (i, out @ [CHR 0x0D])
         else if e = CHR ''t'' then Inr (i, out @ [CHR 0x09])
         else if e = CHR ''u'' then unescape_u inp i out
         else Inl out))"

lemma unescape_u_index: "unescape_u inp i out = Inr (i', out') \<Longrightarrow> i \<le> i'"
  by (auto simp: unescape_u_def Let_def split: option.splits if_splits)

lemma unescape_at_index: "unescape_at inp i out = Inr (i', out') \<Longrightarrow> i \<le> i'"
  by (auto simp: unescape_at_def Let_def dest: unescape_u_index split: if_splits)

text \<open>The result is \<open>(true, out)\<close> or \<open>(false, the partial out)\<close>.\<close>

function unescape_loop :: "string \<Rightarrow> nat \<Rightarrow> string \<Rightarrow> bool \<times> string" where
  "unescape_loop inp i out =
     (if i < length inp then
        (case unescape_at inp i out of
           Inl out' \<Rightarrow> (False, out')
         | Inr (i', out') \<Rightarrow> unescape_loop inp (Suc i') out')
      else (True, out))"
  by pat_completeness auto
termination
  by (relation "measure (\<lambda>(inp, i, out). length inp - i)")
     (auto dest!: unescape_at_index)

declare unescape_loop.simps [simp del]

definition UnescapeJsonString :: "string \<Rightarrow> bool \<times> string" where
  "UnescapeJsonString inp = unescape_loop inp 0 []"

section \<open>Tokens\<close>

function SkipWs :: "string \<Rightarrow> nat \<Rightarrow> nat" where
  "SkipWs s i = (if i < length s \<and> is_ws (s ! i) then SkipWs s (Suc i) else i)"
  by pat_completeness auto
termination
  by (relation "measure (\<lambda>(s, i). length s - i)") auto

function quote_scan :: "string \<Rightarrow> nat \<Rightarrow> bool \<Rightarrow> nat" where
  "quote_scan s i escaped =
     (if i < length s then
        (if escaped then quote_scan s (Suc i) False
         else if s ! i = CHR 0x5C then quote_scan s (Suc i) True
         else if s ! i = CHR 0x22 then i
         else quote_scan s (Suc i) False)
      else i)"
  by pat_completeness auto
termination
  by (relation "measure (\<lambda>(s, i, escaped). length s - i)") auto

declare SkipWs.simps [simp del] quote_scan.simps [simp del]

text \<open>\<open>Some (i', rawToken)\<close> for true; on false the token is left cleared.\<close>

definition ParseJsonQuotedToken :: "string \<Rightarrow> nat \<Rightarrow> (nat \<times> string) option" where
  "ParseJsonQuotedToken s i =
     (if i \<ge> length s \<or> s ! i \<noteq> CHR 0x22 then None
      else
        (let start = i + 1; i = quote_scan s start False in
         if i \<ge> length s \<or> s ! i \<noteq> CHR 0x22 then None
         else Some (i + 1, substr s start (i - start))))"

lemma SkipWs_ge: "i \<le> SkipWs s i"
proof (induction s i rule: SkipWs.induct)
  case (1 s i)
  then show ?case by (subst SkipWs.simps) auto
qed

lemma quote_scan_ge: "i \<le> quote_scan s i escaped"
proof (induction s i escaped rule: quote_scan.induct)
  case (1 s i escaped)
  then show ?case by (subst quote_scan.simps) (auto split: if_splits intro: Suc_leD)
qed

lemma ParseJsonQuotedToken_index:
  "ParseJsonQuotedToken s i = Some (i', raw) \<Longrightarrow> i < i' \<and> i' \<le> length s"
  using quote_scan_ge [of "i + 1" s False]
  by (auto simp: ParseJsonQuotedToken_def Let_def split: if_splits)

section \<open>Objects\<close>

text \<open>The four known keys; a value of any other key is dropped.  The flag is \<open>hasType\<close>.\<close>

definition store_field :: "string \<Rightarrow> string \<Rightarrow> bool \<times> Msg \<Rightarrow> bool \<times> Msg" where
  "store_field key val st =
     (case st of (hasType, out) \<Rightarrow>
        if key = ''type'' then (True, out\<lparr>mtype := val\<rparr>)
        else if key = ''sam'' then (hasType, out\<lparr>sam := val\<rparr>)
        else if key = ''password'' then (hasType, out\<lparr>password := val\<rparr>)
        else if key = ''reason'' then (hasType, out\<lparr>reason := val\<rparr>)
        else (hasType, out))"

definition finish_object :: "string \<Rightarrow> nat \<Rightarrow> bool \<times> Msg \<Rightarrow> bool \<times> Msg" where
  "finish_object obj i st =
     (let i = SkipWs obj i in
      if i \<noteq> length obj then (False, snd st) else st)"

text \<open>
  One key/value pair from index \<open>i\<close>: \<open>Inr (i', key, value)\<close>, or \<open>Inl residue\<close> for
  \<open>return false\<close>, with the contents of the local strings destroyed without being cleared:
  the half-decoded key or value, when it is \<open>UnescapeJsonString\<close> that fails.
\<close>

definition parse_pair :: "string \<Rightarrow> nat \<Rightarrow> string list + (nat \<times> string \<times> string)" where
  "parse_pair obj i =
     (case ParseJsonQuotedToken obj i of
        None \<Rightarrow> Inl []
      | Some (i, keyRaw) \<Rightarrow>
          (case UnescapeJsonString keyRaw of (okKey, key) \<Rightarrow>
             if \<not> okKey then Inl [key]
             else
               (let i = SkipWs obj i in
                if i \<ge> length obj \<or> obj ! i \<noteq> CHR '':'' then Inl []
                else
                  (let i = SkipWs obj (i + 1) in
                   case ParseJsonQuotedToken obj i of
                     None \<Rightarrow> Inl []
                   | Some (i, valueRaw) \<Rightarrow>
                       (case UnescapeJsonString valueRaw of (okValue, val) \<Rightarrow>
                          if \<not> okValue then Inl [val] else Inr (i, key, val))))))"

lemma parse_pair_index:
  "parse_pair obj i = Inr (i', key, val) \<Longrightarrow> i < i' \<and> i' \<le> length obj"
proof -
  assume a: "parse_pair obj i = Inr (i', key, val)"
  then obtain i1 k i2 v where
      k: "ParseJsonQuotedToken obj i = Some (i1, k)"
    and v: "ParseJsonQuotedToken obj (SkipWs obj (SkipWs obj i1 + 1)) = Some (i2, v)"
    and i': "i' = i2"
    by (auto simp: parse_pair_def Let_def split: option.splits prod.splits if_splits)
  have "i1 \<le> SkipWs obj i1" and "SkipWs obj i1 + 1 \<le> SkipWs obj (SkipWs obj i1 + 1)"
    by (rule SkipWs_ge)+
  with ParseJsonQuotedToken_index [OF k] ParseJsonQuotedToken_index [OF v] i'
  show ?thesis by linarith
qed

lemma members_measure:
  assumes "parse_pair obj (SkipWs obj i0) = Inr (i', key, val)"
    and "\<not> length obj \<le> SkipWs obj i0"
  shows "length obj - Suc (SkipWs obj i') < length obj - i0"
  using parse_pair_index [OF assms(1)] SkipWs_ge [of i0 obj] SkipWs_ge [of i' obj] assms(2)
  by linarith

text \<open>The \<open>while (true)\<close> loop of \<open>ParseFlatBrokerMessage\<close>.\<close>

function members_loop ::
    "string \<Rightarrow> nat \<Rightarrow> bool \<times> Msg \<Rightarrow> (bool \<times> Msg) \<times> string list" where
  "members_loop obj i0 st =
     (let i = SkipWs obj i0 in
      if i \<ge> length obj then ((False, snd st), [])
      else if obj ! i = CHR 0x7D then (finish_object obj (i + 1) st, [])
      else
        (case parse_pair obj i of
           Inl residue \<Rightarrow> ((False, snd st), residue)
         | Inr (i, key, val) \<Rightarrow>
             (let st = store_field key val st; i = SkipWs obj i in
              if i \<ge> length obj then ((False, snd st), [])
              else if obj ! i = CHR '','' then members_loop obj (i + 1) st
              else if obj ! i = CHR 0x7D then (finish_object obj (i + 1) st, [])
              else ((False, snd st), []))))"
  by pat_completeness auto
termination
  by (relation "measure (\<lambda>(obj, i, st). length obj - i)") (auto dest!: members_measure)

declare members_loop.simps [simp del]

definition ParseFlatBrokerMessage :: "string \<Rightarrow> Msg \<Rightarrow> (bool \<times> Msg) \<times> string list" where
  "ParseFlatBrokerMessage obj out =
     (let i = SkipWs obj 0 in
      if i \<ge> length obj \<or> obj ! i \<noteq> CHR 0x7B then ((False, out), [])
      else members_loop obj (i + 1) (False, out))"

text \<open>
  \<open>(ok, out)\<close> and the residue.  The trimmed copy \<open>s\<close> is cleared on every path, and \<open>out\<close>
  is cleared whenever the result is false.
\<close>

definition ParseJsonLine :: "string \<Rightarrow> Msg \<Rightarrow> (bool \<times> Msg) \<times> string list" where
  "ParseJsonLine line out =
     (let out = SecureClearMsg out; s = Trim line in
      if s = [] then ((False, out), [])
      else
        (case ParseFlatBrokerMessage s out of ((ok, out), residue) \<Rightarrow>
           if \<not> ok \<or> mtype out = [] then ((False, SecureClearMsg out), residue)
           else ((True, out), residue)))"

end
