(* ===== verification/Utf8.thy ===== *)
theory Utf8
  imports Json_Parser
begin

text \<open>
  The reference encoding of Unicode scalar values (RFC 3629) with its strict decoder, and
  the proof that the shifts and masks of \<open>AppendUtf8\<close>
  (\<open>src/src/broker/ProviderJson.cpp\<close>) compute it.
\<close>

section \<open>Words read as numbers\<close>

lemma unat_low_bits: "unat (x AND 0x3F :: 32 word) = unat x mod 64"
proof -
  have "unat (x AND 0x3F) = unat x AND mask 6"
    by (simp add: unsigned_and_eq mask_eq_exp_minus_1)
  then show ?thesis by (simp only: take_bit_eq_mask [symmetric] take_bit_eq_mod) simp
qed

lemma unat_shift: "unat (drop_bit n x :: 32 word) = unat x div 2 ^ n"
proof -
  have "take_bit LENGTH(32) (unat x) = unat x" by (rule take_bit_nat_eq_self) (rule unsigned_less)
  then show ?thesis by (simp only: unsigned_drop_bit_eq) (simp only: drop_bit_eq_div)
qed

lemma or_prefix:
  fixes x a :: "32 word"
  assumes "unat x < 2 ^ n" and "take_bit n a = 0" and "unat a + unat x < 2 ^ 32"
  shows "unat (a OR x) = unat a + unat x"
proof -
  have x: "take_bit n x = x" using assms(1)
    by (simp add: word_eq_iff_unsigned [where 'a = nat] unsigned_take_bit_eq take_bit_nat_eq_self)
  have "a AND x = a AND take_bit n x" by (simp only: x)
  also have "\<dots> = take_bit n a AND x"  by (simp only: take_bit_eq_mask ac_simps)
  also have "\<dots> = 0" using assms(2) by simp
  finally have "a OR x = a + x" by (simp add: disjunctive_add_eq_or)
  then show ?thesis using assms(3) by (simp add: unat_word_ariths)
qed

section \<open>Reference encoding\<close>

definition utf8 :: "nat \<Rightarrow> string" where
  "utf8 cp =
     (if cp < 0x80 then [char_of cp]
      else if cp < 0x800 then [char_of (0xC0 + cp div 64), char_of (0x80 + cp mod 64)]
      else if cp < 0x10000 then
        [char_of (0xE0 + cp div 4096), char_of (0x80 + cp div 64 mod 64),
         char_of (0x80 + cp mod 64)]
      else
        [char_of (0xF0 + cp div 262144), char_of (0x80 + cp div 4096 mod 64),
         char_of (0x80 + cp div 64 mod 64), char_of (0x80 + cp mod 64)])"

definition is_scalar :: "nat \<Rightarrow> bool" where
  "is_scalar cp \<longleftrightarrow> cp < 0xD800 \<or> 0xDFFF < cp \<and> cp < 0x110000"

lemma to_char_trail: "to_char (0x80 OR (x AND 0x3F)) = char_of (0x80 + unat x mod 64)"
proof -
  have "unat (0x80 OR (x AND 0x3F)) = unat (0x80 :: 32 word) + unat (x AND 0x3F)"
    by (rule or_prefix [where n = 6]) (simp_all add: unat_low_bits)
  then show ?thesis by (simp add: to_char_def unat_low_bits)
qed

lemma to_char_lead:
  assumes "unat x < 2 ^ n" and "take_bit n a = 0" and "unat a \<le> 0xFF" and "n \<le> 8"
  shows "to_char (a OR x) = char_of (unat a + unat x)"
proof -
  have "unat x < 2 ^ 8" using assms(1,4)
    by (meson less_le_trans one_le_numeral power_increasing)
  then have "unat (a OR x) = unat a + unat x"
    using assms by (intro or_prefix) auto
  then show ?thesis by (simp add: to_char_def)
qed

lemma AppendUtf8_utf8:
  assumes "unat cp < 0x110000"
  shows "AppendUtf8 out cp = out @ utf8 (unat cp)"
proof -
  have le: "cp \<le> 0x7F \<longleftrightarrow> unat cp < 0x80" "cp \<le> 0x7FF \<longleftrightarrow> unat cp < 0x800"
    "cp \<le> 0xFFFF \<longleftrightarrow> unat cp < 0x10000"
    by (simp_all add: word_le_nat_alt less_Suc_eq_le [symmetric])
  have l2: "unat cp < 0x800 \<Longrightarrow>
      to_char (0xC0 OR drop_bit 6 cp) = char_of (0xC0 + unat cp div 64)"
    using to_char_lead [of "drop_bit 6 cp" 5 "0xC0"] unat_shift [of 6 cp] by simp
  have l3: "unat cp < 0x10000 \<Longrightarrow>
      to_char (0xE0 OR drop_bit 12 cp) = char_of (0xE0 + unat cp div 4096)"
    using to_char_lead [of "drop_bit 12 cp" 4 "0xE0"] unat_shift [of 12 cp] by simp
  have l4: "to_char (0xF0 OR drop_bit 18 cp) = char_of (0xF0 + unat cp div 262144)"
    using to_char_lead [of "drop_bit 18 cp" 3 "0xF0"] unat_shift [of 18 cp] assms by simp
  have t12: "to_char (0x80 OR (drop_bit 12 cp AND 0x3F)) = char_of (0x80 + unat cp div 4096 mod 64)"
    by (simp only: to_char_trail unat_shift) simp
  have t6: "to_char (0x80 OR (drop_bit 6 cp AND 0x3F)) = char_of (0x80 + unat cp div 64 mod 64)"
    by (simp only: to_char_trail unat_shift) simp
  have t0: "to_char cp = char_of (unat cp)" by (simp add: to_char_def)
  show ?thesis
    unfolding AppendUtf8_def utf8_def le
    by (simp only: l2 l3 l4 t12 t6 t0 to_char_trail [of cp] append.simps if_distrib [of "(@) out"]
        cong: if_cong)
qed

lemma length_utf8: "length (utf8 cp) \<le> 4" "cp < 0x10000 \<Longrightarrow> length (utf8 cp) \<le> 3"
  by (simp_all add: utf8_def)

section \<open>Strict decoding\<close>

text \<open>
  One scalar value from the front: the well-formed sequences of RFC 3629 only, so no overlong
  form, no surrogate and nothing above U+10FFFF.
\<close>

definition is_trail :: "nat \<Rightarrow> bool" where
  "is_trail b \<longleftrightarrow> 0x80 \<le> b \<and> b < 0xC0"

fun utf8_decode1 :: "nat list \<Rightarrow> (nat \<times> nat list) option" where
  "utf8_decode1 [] = None"
| "utf8_decode1 (a # bs) =
     (if a < 0x80 then Some (a, bs)
      else if a < 0xC2 then None
      else if a < 0xE0 then
        (case bs of b # bs' \<Rightarrow>
             if is_trail b then Some ((a - 0xC0) * 64 + (b - 0x80), bs') else None
         | _ \<Rightarrow> None)
      else if a < 0xF0 then
        (case bs of b # c # bs' \<Rightarrow>
             (let cp = (a - 0xE0) * 4096 + (b - 0x80) * 64 + (c - 0x80) in
              if is_trail b \<and> is_trail c \<and> 0x800 \<le> cp \<and> is_scalar cp
              then Some (cp, bs') else None)
         | _ \<Rightarrow> None)
      else if a < 0xF5 then
        (case bs of b # c # d # bs' \<Rightarrow>
             (let cp = (a - 0xF0) * 262144 + (b - 0x80) * 4096 + (c - 0x80) * 64 + (d - 0x80) in
              if is_trail b \<and> is_trail c \<and> is_trail d \<and> 0x10000 \<le> cp \<and> is_scalar cp
              then Some (cp, bs') else None)
         | _ \<Rightarrow> None)
      else None)"

function utf8_decode :: "nat list \<Rightarrow> nat list option" where
  "utf8_decode bs =
     (if bs = [] then Some []
      else (case utf8_decode1 bs of
              None \<Rightarrow> None
            | Some (cp, bs') \<Rightarrow>
                if length bs' < length bs then map_option ((#) cp) (utf8_decode bs') else None))"
  by pat_completeness auto
termination
  by (relation "measure length") auto

declare utf8_decode.simps [simp del]

definition bytes :: "string \<Rightarrow> nat list" where
  "bytes s = map of_char s"

lemma bytes_append [simp]: "bytes (s @ t) = bytes s @ bytes t"
  by (simp add: bytes_def)

lemma bytes_Nil [simp]: "bytes [] = []"
  by (simp add: bytes_def)

lemma bytes_char: "n < 256 \<Longrightarrow> bytes (char_of n # s) = n # bytes s"
  by (simp add: bytes_def)

lemma split64: "(cp::nat) = cp div 64 * 64 + cp mod 64"
  by simp

lemma split4096: "(cp::nat) = cp div 4096 * 4096 + cp div 64 mod 64 * 64 + cp mod 64"
proof -
  have "cp div 4096 = cp div 64 div 64" by (simp flip: div_mult2_eq)
  then show ?thesis using split64 [of "cp div 64"] split64 [of cp] by linarith
qed

lemma split262144:
  "(cp::nat) = cp div 262144 * 262144 + cp div 4096 mod 64 * 4096 + cp div 64 mod 64 * 64 + cp mod 64"
proof -
  have "cp div 262144 = cp div 4096 div 64" by (simp flip: div_mult2_eq)
  then show ?thesis using split64 [of "cp div 4096"] split4096 [of cp] by linarith
qed

lemma utf8_decode1_utf8:
  assumes "is_scalar cp"
  shows "utf8_decode1 (bytes (utf8 cp) @ rest) = Some (cp, rest)"
proof -
  consider "cp < 0x80" | "0x80 \<le> cp" "cp < 0x800" | "0x800 \<le> cp" "cp < 0x10000"
    | "0x10000 \<le> cp" "cp < 0x110000"
    using assms by (force simp: is_scalar_def)
  then show ?thesis
  proof cases
    case 1
    then show ?thesis by (simp add: utf8_def bytes_char)
  next
    case 2
    then have "cp div 64 < 32" "2 \<le> cp div 64" by auto
    with 2 split64 [of cp] show ?thesis
      by (simp add: utf8_def bytes_char is_trail_def)
  next
    case 3
    then have "cp div 4096 < 16" by auto
    with 3 assms split4096 [of cp] show ?thesis
      by (simp add: utf8_def bytes_char is_trail_def Let_def)
  next
    case 4
    then have "cp div 262144 < 5" by auto
    with 4 assms split262144 [of cp] show ?thesis
      by (simp add: utf8_def bytes_char is_trail_def Let_def)
  qed
qed

end
