(* ===== verification/Json_String.thy ===== *)
theory Json_String
  imports Utf8
begin

text \<open>
  What \<open>UnescapeJsonString\<close> (\<open>src/src/broker/ProviderJson.cpp\<close>) decodes: a grammar of JSON
  string bodies, the proof that the index loop of the code accepts exactly its sentences,
  that RFC 8259 strings are among them with their meaning, and that decoding never lengthens
  a string, so \<open>out.reserve(in.size())\<close> is the only allocation.
\<close>

section \<open>Hexadecimal digits\<close>

definition hex_digit :: "char \<Rightarrow> nat option" where
  "hex_digit c =
     (let n = of_char c :: nat in
      if 48 \<le> n \<and> n \<le> 57 then Some (n - 48)
      else if 97 \<le> n \<and> n \<le> 102 then Some (n - 87)
      else if 65 \<le> n \<and> n \<le> 70 then Some (n - 55)
      else None)"

fun hex_value :: "nat \<Rightarrow> string \<Rightarrow> nat option" where
  "hex_value acc [] = Some acc"
| "hex_value acc (c # cs) =
     (case hex_digit c of None \<Rightarrow> None | Some d \<Rightarrow> hex_value (16 * acc + d) cs)"

lemma HexValue_digit:
  "HexValue c = (case hex_digit c of None \<Rightarrow> - 1 | Some d \<Rightarrow> int d)"
proof -
  have "of_char c = int (of_char c)" by (simp add: of_char_def horner_sum_simps o_def)
  then show ?thesis by (auto simp: HexValue_def hex_digit_def Let_def)
qed

lemma hex_digit_less: "hex_digit c = Some d \<Longrightarrow> d < 16"
  by (auto simp: hex_digit_def Let_def split: if_splits)

lemma unat_hex_step:
  assumes "unat x < 2 ^ 28" and "d < 16"
  shows "unat (push_bit 4 x OR of_int (int d) :: 32 word) = 16 * unat x + d"
proof -
  have d: "unat (word_of_nat d :: 32 word) = d" using assms(2) by (simp add: unat_of_nat)
  have "unat (push_bit 4 x) = 16 * unat x"
    using assms(1) by (simp add: push_bit_eq_mult unat_word_ariths)
  moreover have "take_bit 4 (push_bit 4 x) = 0"
    by (simp add: take_bit_push_bit)
  ultimately show ?thesis
    using or_prefix [of "word_of_nat d" 4 "push_bit 4 x"] assms by (simp add: d)
qed

lemma hex4_loop_value:
  assumes "i \<le> 4" and "pos + 4 \<le> length s" and "unat w < 16 ^ i"
  shows "map_option unat (hex4_loop s pos i w) = hex_value (unat w) (take (4 - i) (drop (pos + i) s))"
  using assms
proof (induction s pos i w rule: hex4_loop.induct)
  case (1 s pos i w)
  show ?case
  proof (cases "i < 4")
    case False
    with 1 show ?thesis by (simp add: hex4_loop.simps)
  next
    case True
    then have sfx: "take (4 - i) (drop (pos + i) s)
        = s ! (pos + i) # take (4 - Suc i) (drop (pos + Suc i) s)"
      using 1(3) by (simp add: drop_Cons_nth take_Suc_conv_app_nth Suc_diff_Suc [symmetric])
    show ?thesis
    proof (cases "hex_digit (s ! (pos + i))")
      case None
      with True sfx show ?thesis by (simp add: hex4_loop.simps HexValue_digit)
    next
      case (Some d)
      have "16 ^ i \<le> (16::nat) ^ 3" using True by (intro power_increasing) auto
      with 1(4) have "unat w < 2 ^ 28" by simp
      with Some have u: "unat (push_bit 4 w OR of_int (int d)) = 16 * unat w + d"
        by (intro unat_hex_step) (auto dest: hex_digit_less)
      with Some 1(4) have "unat (push_bit 4 w OR of_int (int d)) < 16 ^ Suc i"
        by (auto dest: hex_digit_less)
      with 1(1) True Some u 1(3) sfx show ?thesis
        by (subst hex4_loop.simps) (simp add: HexValue_digit)
    qed
  qed
qed

lemma ParseHex4_value:
  "map_option unat (ParseHex4 s pos) =
     (if pos + 4 \<le> length s then hex_value 0 (take 4 (drop pos s)) else None)"
  using hex4_loop_value [of 0 pos s 0] by (auto simp: ParseHex4_def)

lemma hex_value_less:
  "hex_value acc cs = Some n \<Longrightarrow> n < (acc + 1) * 16 ^ length cs"
proof (induction cs arbitrary: acc)
  case (Cons c cs)
  then obtain d where d: "hex_digit c = Some d" and "hex_value (16 * acc + d) cs = Some n"
    by (auto split: option.splits)
  then have "n < (16 * acc + d + 1) * 16 ^ length cs" using Cons.IH by simp
  also have "\<dots> \<le> (16 * acc + 16) * 16 ^ length cs"
    using hex_digit_less [OF d] by (intro mult_right_mono) auto
  finally show ?case by (simp add: algebra_simps)
qed simp

lemma ParseHex4_Some:
  assumes "ParseHex4 s pos = Some w"
  shows "pos + 4 \<le> length s \<and> hex_value 0 (take 4 (drop pos s)) = Some (unat w) \<and> unat w < 0x10000"
proof -
  have "pos + 4 \<le> length s" and h: "hex_value 0 (take 4 (drop pos s)) = Some (unat w)"
    using ParseHex4_value [of s pos] assms by (auto split: if_splits)
  with hex_value_less [OF h] show ?thesis by simp
qed

section \<open>The grammar of string bodies the decoder accepts\<close>

definition simple_escape :: "char \<Rightarrow> char option" where
  "simple_escape e =
     (if e = CHR 0x22 then Some (CHR 0x22)
      else if e = CHR 0x5C then Some (CHR 0x5C)
      else if e = CHR ''/'' then Some (CHR ''/'')
      else if e = CHR ''b'' then Some (CHR 0x08)
      else if e = CHR ''f'' then Some (CHR 0x0C)
      else if e = CHR ''n'' then Some (CHR 0x0A)
      else if e = CHR ''r'' then Some (CHR 0x0D)
      else if e = CHR ''t'' then Some (CHR 0x09)
      else None)"

definition is_high :: "nat \<Rightarrow> bool" where
  "is_high n \<longleftrightarrow> 0xD800 \<le> n \<and> n \<le> 0xDBFF"

definition is_low :: "nat \<Rightarrow> bool" where
  "is_low n \<longleftrightarrow> 0xDC00 \<le> n \<and> n \<le> 0xDFFF"

definition hex4 :: "string \<Rightarrow> nat \<Rightarrow> bool" where
  "hex4 h n \<longleftrightarrow> length h = 4 \<and> hex_value 0 h = Some n"

text \<open>
  \<open>body raw out\<close>: the bytes between the quotes, \<open>raw\<close>, stand for the bytes \<open>out\<close>.  Every
  byte but the backslash stands for itself.
\<close>

inductive body :: "string \<Rightarrow> string \<Rightarrow> bool" where
  body_nil: "body [] []"
| body_plain: "c \<noteq> CHR 0x5C \<Longrightarrow> body raw out \<Longrightarrow> body (c # raw) (c # out)"
| body_escape: "simple_escape e = Some c \<Longrightarrow> body raw out \<Longrightarrow>
     body (CHR 0x5C # e # raw) (c # out)"
| body_unit: "hex4 h n \<Longrightarrow> \<not> is_high n \<Longrightarrow> \<not> is_low n \<Longrightarrow> body raw out \<Longrightarrow>
     body (CHR 0x5C # CHR ''u'' # h @ raw) (utf8 n @ out)"
| body_pair: "hex4 h n \<Longrightarrow> is_high n \<Longrightarrow> hex4 k m \<Longrightarrow> is_low m \<Longrightarrow> body raw out \<Longrightarrow>
     body (CHR 0x5C # CHR ''u'' # h @ CHR 0x5C # CHR ''u'' # k @ raw)
       (utf8 (0x10000 + (n - 0xD800) * 0x400 + (m - 0xDC00)) @ out)"

subsection \<open>One round of the loop on the rest of the string\<close>

definition decode_u :: "string \<Rightarrow> (string \<times> string) option" where
  "decode_u r =
     (if length r < 4 then None
      else (case hex_value 0 (take 4 r) of
        None \<Rightarrow> None
      | Some n \<Rightarrow>
          if is_high n then
            (if length r \<ge> 10 \<and> r ! 4 = CHR 0x5C \<and> r ! 5 = CHR ''u'' then
               (case hex_value 0 (take 4 (drop 6 r)) of
                  None \<Rightarrow> None
                | Some m \<Rightarrow>
                    if is_low m
                    then Some (utf8 (0x10000 + (n - 0xD800) * 0x400 + (m - 0xDC00)), drop 10 r)
                    else None)
             else None)
          else if is_low n then None
          else Some (utf8 n, drop 4 r)))"

fun decode1 :: "string \<Rightarrow> (string \<times> string) option" where
  "decode1 [] = None"
| "decode1 (c # r) =
     (if c \<noteq> CHR 0x5C then Some ([c], r)
      else (case r of [] \<Rightarrow> None
        | e # r' \<Rightarrow>
            (case simple_escape e of
               Some d \<Rightarrow> Some ([d], r')
             | None \<Rightarrow> if e = CHR ''u'' then decode_u r' else None)))"

definition round_result :: "string \<Rightarrow> string \<Rightarrow> string + nat \<times> string \<Rightarrow> (string \<times> string) option" where
  "round_result inp out r =
     (case r of Inl _ \<Rightarrow> None | Inr (i', out') \<Rightarrow> Some (drop (length out) out', drop (Suc i') inp))"

lemma surrogate_offset:
  "is_high n \<Longrightarrow> n - 0xD800 < 0x400" "is_low n \<Longrightarrow> n - 0xDC00 < 0x400"
  by (auto simp: is_high_def is_low_def)

lemma unat_push_bit10: "unat y < 2 ^ 10 \<Longrightarrow> unat (push_bit 10 y :: 32 word) = unat y * 0x400"
  by (simp add: push_bit_eq_mult unat_word_ariths)

lemma surrogate_value:
  assumes "is_high (unat w1)" and "is_low (unat w2)"
  shows "unat (0x10000 + (push_bit 10 (w1 - 0xD800) OR (w2 - 0xDC00)) :: 32 word)
    = 0x10000 + (unat w1 - 0xD800) * 0x400 + (unat w2 - 0xDC00)"
proof -
  have b: "unat w1 - 0xD800 < 2 ^ 10" "unat w2 - 0xDC00 < 2 ^ 10"
    using surrogate_offset assms by simp_all
  have s1: "unat (w1 - 0xD800) = unat w1 - 0xD800"
    using assms(1) by (subst unat_sub) (simp_all add: is_high_def word_le_nat_alt)
  have s2: "unat (w2 - 0xDC00) = unat w2 - 0xDC00"
    using assms(2) by (subst unat_sub) (simp_all add: is_low_def word_le_nat_alt)
  have p: "unat (push_bit 10 (w1 - 0xD800)) = (unat w1 - 0xD800) * 0x400"
    using s1 unat_push_bit10 [of "w1 - 0xD800"] b by simp
  define x y where "x = unat w1 - 0xD800" and "y = unat w2 - 0xDC00"
  note xy = x_def [symmetric] y_def [symmetric]
  have "unat (push_bit 10 (w1 - 0xD800) OR (w2 - 0xDC00)) = x * 0x400 + y"
    using b p s2 unfolding xy
    by (subst or_prefix [where n = 10]) (simp_all add: take_bit_push_bit)
  then show ?thesis
    using b unfolding xy by (simp add: unat_word_ariths)
qed

lemma ranges:
  fixes w :: "32 word"
  shows "0xD800 \<le> w \<and> w \<le> 0xDBFF \<longleftrightarrow> is_high (unat w)"
    and "0xDC00 \<le> w \<and> w \<le> 0xDFFF \<longleftrightarrow> is_low (unat w)"
  by (simp_all add: is_high_def is_low_def word_le_nat_alt)

lemma unescape_u_high:
  assumes "ParseHex4 inp (i + 1) = Some w1" and "is_high (unat w1)"
  shows "unescape_u inp i out =
    (if i + 10 < length inp \<and> inp ! (i + 5) = CHR 0x5C \<and> inp ! (i + 6) = CHR ''u'' then
       (case ParseHex4 inp (i + 7) of
          None \<Rightarrow> Inl out
        | Some w2 \<Rightarrow>
            if is_low (unat w2)
            then Inr (i + 10, out @ utf8 (0x10000 + (unat w1 - 0xD800) * 0x400 + (unat w2 - 0xDC00)))
            else Inl out)
     else Inl out)"
proof -
  have u: "AppendUtf8 out (0x10000 + (push_bit 10 (w1 - 0xD800) OR (w2 - 0xDC00)))
      = out @ utf8 (0x10000 + (unat w1 - 0xD800) * 0x400 + (unat w2 - 0xDC00))"
    if "is_low (unat w2)" for w2
  proof -
    have "unat w1 - 0xD800 < 0x400" "unat w2 - 0xDC00 < 0x400"
      using surrogate_offset that assms(2) by simp_all
    then show ?thesis
      by (simp add: AppendUtf8_utf8 surrogate_value [OF assms(2) that])
  qed
  have i: "i + 4 + 6 = i + 10" "i + 4 + 1 = i + 5" "i + 4 + 2 = i + 6" "i + 4 + 3 = i + 7"
    by simp_all
  show ?thesis
    unfolding unescape_u_def Let_def assms(1) option.case i ranges
    by (simp only: u assms(2) if_True cong: option.case_cong if_cong)
qed

lemma unescape_u_round:
  "i < length inp \<Longrightarrow>
   round_result inp out (unescape_u inp i out) = decode_u (drop (Suc i) inp)"
proof (cases "ParseHex4 inp (i + 1)")
  case None
  assume "i < length inp"
  with None show ?thesis
    using ParseHex4_value [of inp "i + 1"]
    by (auto simp: unescape_u_def round_result_def decode_u_def split: if_splits)
next
  case (Some w1)
  then have l: "i + 5 \<le> length inp" and h: "hex_value 0 (take 4 (drop (Suc i) inp)) = Some (unat w1)"
    and w1: "unat w1 < 0x10000"
    by (auto dest: ParseHex4_Some)
  show ?thesis
  proof (cases "is_high (unat w1)")
    case False
    with Some l h w1 show ?thesis
      by (auto simp: unescape_u_def round_result_def decode_u_def Let_def ranges
          AppendUtf8_utf8 add.commute)
  next
    case True
    have a: "length (drop (Suc i) inp) \<ge> 10 \<longleftrightarrow> i + 10 < length inp"
      "\<not> length (drop (Suc i) inp) < 4" "drop (Suc i) inp ! 4 = inp ! (i + 5)"
      "drop (Suc i) inp ! 5 = inp ! (i + 6)" "drop 10 (drop (Suc i) inp) = drop (Suc (i + 10)) inp"
      "take 4 (drop 6 (drop (Suc i) inp)) = take 4 (drop (i + 7) inp)"
      using l by (auto simp: add.commute)
    have "map_option unat (ParseHex4 inp (i + 7)) = hex_value 0 (take 4 (drop (i + 7) inp))"
      if "i + 10 < length inp"
      using ParseHex4_value [of inp "i + 7"] that by simp
    then show ?thesis
      unfolding decode_u_def a if_False h option.case if_P [OF True] unescape_u_high [OF Some True]
      by (cases "ParseHex4 inp (i + 7)") (auto simp: round_result_def split: option.splits if_splits)
  qed
qed

lemma unescape_at_escape:
  "unescape_at inp i out =
     (if inp ! i \<noteq> CHR 0x5C then Inr (i, out @ [inp ! i])
      else if i + 1 \<ge> length inp then Inl out
      else (case simple_escape (inp ! (i + 1)) of
          Some d \<Rightarrow> Inr (i + 1, out @ [d])
        | None \<Rightarrow> if inp ! (i + 1) = CHR ''u'' then unescape_u inp (i + 1) out else Inl out))"
  by (simp add: unescape_at_def simple_escape_def Let_def)

lemma unescape_at_round:
  assumes "i < length inp"
  shows "round_result inp out (unescape_at inp i out) = decode1 (drop i inp)"
proof (cases "i + 1 < length inp")
  case False
  with assms show ?thesis
    by (simp add: drop_Cons_nth unescape_at_escape round_result_def)
next
  case True
  then have "drop i inp = inp ! i # inp ! Suc i # drop (Suc (Suc i)) inp"
    by (simp add: drop_Cons_nth)
  with True unescape_u_round [of "Suc i" inp out] show ?thesis
    by (cases "simple_escape (inp ! Suc i)")
      (simp_all add: unescape_at_escape round_result_def drop_Cons_nth)
qed

subsection \<open>The loop accepts exactly the sentences of the grammar\<close>

inductive_simps body_Nil_iff: "body [] out"
inductive_simps body_plain_iff: "body (c # raw) out"

text \<open>One decoded unit consumes a non-empty front part of the string.\<close>

lemma hex_value_take: "hex_value 0 (take 4 r) = Some n \<Longrightarrow> 4 \<le> length r \<Longrightarrow> hex4 (take 4 r) n"
  by (simp add: hex4_def)

lemma decode1_body:
  assumes "decode1 r = Some (d, r')" and "body r' out"
  shows "body r (d @ out)"
proof (cases r)
  case (Cons c r1)
  show ?thesis
  proof (cases "c = CHR 0x5C")
    case False
    with assms Cons show ?thesis by (auto intro: body.intros)
  next
    case esc: True
    then obtain e r2 where r1: "r1 = e # r2" using assms(1) Cons by (cases r1) auto
    show ?thesis
    proof (cases "simple_escape e")
      case (Some c')
      with assms Cons esc r1 show ?thesis by (auto intro: body.intros)
    next
      case None
      with assms(1) Cons esc r1 have e: "e = CHR ''u''" and u: "decode_u r2 = Some (d, r')"
        by (auto split: if_splits)
      from u have l: "4 \<le> length r2" by (simp add: decode_u_def split: if_splits)
      from u obtain n where "hex_value 0 (take 4 r2) = Some n"
        by (cases "hex_value 0 (take 4 r2)") (simp_all add: decode_u_def split: if_splits)
      with l have n: "hex4 (take 4 r2) n" by (simp add: hex_value_take)
      show ?thesis
      proof (cases "is_high n")
        case False
        with u n l have "d = utf8 n" "r' = drop 4 r2" "\<not> is_low n"
          by (auto simp: decode_u_def hex4_def split: if_splits)
        with body_unit [OF n False, of r' out] assms(2) Cons esc r1 e show ?thesis by simp
      next
        case True
        with u n l obtain m where ten: "10 \<le> length r2" and bs: "r2 ! 4 = CHR 0x5C" "r2 ! 5 = CHR ''u''"
          and m: "hex_value 0 (take 4 (drop 6 r2)) = Some m" "is_low m"
          and d: "d = utf8 (0x10000 + (n - 0xD800) * 0x400 + (m - 0xDC00))" "r' = drop 10 r2"
          by (auto simp: decode_u_def hex4_def split: if_splits option.splits)
        then have k: "hex4 (take 4 (drop 6 r2)) m" by (simp add: hex4_def)
        have "r2 = take 4 r2 @ drop 4 r2" by simp
        also have "drop 4 r2 = CHR 0x5C # CHR ''u'' # drop 6 r2"
          using ten bs by (simp add: drop_Cons_nth)
        also have "drop 6 r2 = take 4 (drop 6 r2) @ r'"
          using d(2) append_take_drop_id [of 4 "drop 6 r2"] by simp
        finally show ?thesis
          using body_pair [OF n True k m(2) assms(2)] Cons esc r1 e d(1) by simp
      qed
    qed
  qed
qed (use assms in simp)

lemma body_decode1:
  assumes "body r out" and "r \<noteq> []"
  obtains d r' out' where "decode1 r = Some (d, r')" "body r' out'" "out = d @ out'"
    "length r' < length r"
  using assms
proof (cases rule: body.cases)
  case (body_escape e c raw out')
  then show ?thesis by (intro that [of "[c]" raw out']) auto
next
  case (body_unit h n raw out')
  then show ?thesis
    by (intro that [of "utf8 n" raw out'])
      (simp_all add: hex4_def decode_u_def simple_escape_def)
next
  case (body_pair h n k m raw out')
  then show ?thesis
    by (intro that [of "utf8 (0x10000 + (n - 0xD800) * 0x400 + (m - 0xDC00))" raw out'])
      (simp_all add: hex4_def decode_u_def simple_escape_def nth_append)
qed (auto intro: that)

lemma unescape_u_extends:
  "unescape_u inp i out = Inr (i', out') \<Longrightarrow> take (length out) out' = out"
  by (auto simp: unescape_u_def AppendUtf8_def Let_def split: option.splits if_splits)

lemma unescape_at_extends:
  "unescape_at inp i out = Inr (i', out') \<Longrightarrow> take (length out) out' = out"
  by (auto simp: unescape_at_escape dest: unescape_u_extends split: option.splits if_splits)

lemma unescape_loop_sound:
  "unescape_loop inp i out = (True, res) \<Longrightarrow> \<exists>u. res = out @ u \<and> body (drop i inp) u"
proof (induction inp i out rule: unescape_loop.induct)
  case (1 inp i out)
  show ?case
  proof (cases "i < length inp")
    case False
    with 1(2) show ?thesis by (simp add: unescape_loop.simps body_Nil_iff)
  next
    case True
    with 1(2) obtain i' out' where r: "unescape_at inp i out = Inr (i', out')"
      and loop: "unescape_loop inp (Suc i') out' = (True, res)"
      by (subst (asm) unescape_loop.simps) (auto split: sum.splits)
    then obtain d where d: "decode1 (drop i inp) = Some (d, drop (Suc i') inp)" and out': "out' = out @ d"
      using unescape_at_round [OF True, of out] unescape_at_extends [OF r]
      by (simp add: round_result_def) (metis append_take_drop_id)
    from 1(1) [OF True r refl loop] obtain u where "res = out' @ u" "body (drop (Suc i') inp) u"
      by blast
    with decode1_body [OF d] out' show ?thesis by auto
  qed
qed

lemma unescape_loop_complete:
  "body (drop i inp) u \<Longrightarrow> unescape_loop inp i out = (True, out @ u)"
proof (induction inp i out arbitrary: u rule: unescape_loop.induct)
  case (1 inp i out)
  show ?case
  proof (cases "i < length inp")
    case False
    with 1(2) show ?thesis by (simp add: unescape_loop.simps body_Nil_iff)
  next
    case True
    from True have "drop i inp \<noteq> []" by simp
    with 1(2) obtain d r u' where d: "decode1 (drop i inp) = Some (d, r)"
      and b: "body r u'" and u: "u = d @ u'" by (rule body_decode1)
    then obtain i' out' where r: "unescape_at inp i out = Inr (i', out')"
      using unescape_at_round [OF True, of out]
      by (cases "unescape_at inp i out") (auto simp: round_result_def)
    then have "r = drop (Suc i') inp" and "out' = out @ d"
      using unescape_at_round [OF True, of out] unescape_at_extends [OF r] d
      by (simp_all add: round_result_def) (metis append_take_drop_id)
    with 1(1) [OF True r refl, of u'] b u True r show ?thesis
      by (simp add: unescape_loop.simps [of inp i out])
  qed
qed

lemma UnescapeJsonString_iff: "UnescapeJsonString raw = (True, out) \<longleftrightarrow> body raw out"
  using unescape_loop_sound [of raw 0 "[]" out] unescape_loop_complete [of 0 raw out "[]"]
  by (auto simp: UnescapeJsonString_def)

section \<open>Strings of RFC 8259\<close>

text \<open>
  \<open>rfc_string raw cps\<close>: the string body \<open>raw\<close> (section 7 of RFC 8259, in UTF-8) denotes the
  code points \<open>cps\<close>.  A plain character is any scalar value but the quotation mark, the
  backslash and the control characters.
\<close>

inductive rfc_string :: "string \<Rightarrow> nat list \<Rightarrow> bool" where
  rfc_nil: "rfc_string [] []"
| rfc_plain: "is_scalar cp \<Longrightarrow> 0x20 \<le> cp \<Longrightarrow> cp \<noteq> 0x22 \<Longrightarrow> cp \<noteq> 0x5C \<Longrightarrow> rfc_string raw cps \<Longrightarrow>
     rfc_string (utf8 cp @ raw) (cp # cps)"
| rfc_escape: "simple_escape e = Some c \<Longrightarrow> rfc_string raw cps \<Longrightarrow>
     rfc_string (CHR 0x5C # e # raw) (of_char c # cps)"
| rfc_unit: "hex4 h n \<Longrightarrow> \<not> is_high n \<Longrightarrow> \<not> is_low n \<Longrightarrow> rfc_string raw cps \<Longrightarrow>
     rfc_string (CHR 0x5C # CHR ''u'' # h @ raw) (n # cps)"
| rfc_pair: "hex4 h n \<Longrightarrow> is_high n \<Longrightarrow> hex4 k m \<Longrightarrow> is_low m \<Longrightarrow> rfc_string raw cps \<Longrightarrow>
     rfc_string (CHR 0x5C # CHR ''u'' # h @ CHR 0x5C # CHR ''u'' # k @ raw)
       ((0x10000 + (n - 0xD800) * 0x400 + (m - 0xDC00)) # cps)"

lemma body_plain_bytes:
  "CHR 0x5C \<notin> set s \<Longrightarrow> body raw out \<Longrightarrow> body (s @ raw) (s @ out)"
  by (induction s) (auto intro: body.intros)

lemma backslash_byte: "CHR 0x5C \<in> set s \<Longrightarrow> 0x5C \<in> set (bytes s)"
  by (induction s) (auto simp: bytes_def)

lemma utf8_no_backslash:
  assumes "cp \<noteq> 0x5C" and "cp < 0x110000"
  shows "CHR 0x5C \<notin> set (utf8 cp)"
proof -
  have "cp div 64 < 32" if "cp < 0x800" using that by auto
  moreover have "cp div 4096 < 16" if "cp < 0x10000" using that by auto
  moreover have "cp div 262144 < 5" using assms(2) by auto
  ultimately have "0x5C \<notin> set (bytes (utf8 cp))"
    using assms(1) by (simp add: utf8_def bytes_char)
  then show ?thesis using backslash_byte by blast
qed

lemma utf8_of_simple_escape: "simple_escape e = Some c \<Longrightarrow> utf8 (of_char c) = [c]"
  by (auto simp: simple_escape_def utf8_def split: if_splits)

lemma rfc_string_body: "rfc_string raw cps \<Longrightarrow> body raw (concat (map utf8 cps))"
proof (induction rule: rfc_string.induct)
  case (rfc_plain cp raw cps)
  then have "cp < 0x110000" by (auto simp: is_scalar_def)
  with rfc_plain show ?case by (simp add: body_plain_bytes utf8_no_backslash)
qed (auto intro: body.intros simp: utf8_of_simple_escape)

section \<open>Decoding never lengthens\<close>

lemma decode_u_length:
  assumes "decode_u r = Some (d, r')"
  shows "length d + length r' \<le> length r"
proof -
  from assms obtain n where "4 \<le> length r" and n: "hex_value 0 (take 4 r) = Some n"
    by (cases "hex_value 0 (take 4 r)") (auto simp: decode_u_def split: if_splits)
  then have "n < 0x10000" using hex_value_less [OF n] by simp
  with length_utf8(2) [of n] show ?thesis
    using assms n length_utf8(1)
    by (cases "is_high n")
      (auto simp: decode_u_def split: if_splits option.splits
        intro: order_trans [OF add_right_mono [OF length_utf8(1)]])
qed

lemma decode1_length: "decode1 r = Some (d, r') \<Longrightarrow> length d + length r' \<le> length r"
  by (induction r rule: decode1.induct)
    (auto split: if_splits list.splits option.splits dest: decode_u_length)

lemma unescape_Inl: "unescape_at inp i out = Inl x \<Longrightarrow> x = out"
  by (auto simp: unescape_at_escape unescape_u_def Let_def split: if_splits option.splits)

lemma unescape_loop_length:
  "length (snd (unescape_loop inp i out)) \<le> length out + (length inp - i)"
proof (induction inp i out rule: unescape_loop.induct)
  case (1 inp i out)
  show ?case
  proof (cases "i < length inp")
    case True
    show ?thesis
    proof (cases "unescape_at inp i out")
      case (Inl x)
      with True show ?thesis
        using unescape_Inl [OF Inl] by (simp add: unescape_loop.simps)
    next
      case (Inr p)
      obtain i' out' where p: "p = (i', out')" by force
      with Inr unescape_at_round [OF True, of out]
      have "length (drop (length out) out') + length (drop (Suc i') inp) \<le> length (drop i inp)"
        by (intro decode1_length) (simp add: round_result_def)
      with 1 [OF True Inr p [symmetric]] show ?thesis
        using True Inr p by (simp add: unescape_loop.simps [of inp i out])
    qed
  qed (simp add: unescape_loop.simps)
qed

lemma UnescapeJsonString_length: "length (snd (UnescapeJsonString raw)) \<le> length raw"
  using unescape_loop_length [of raw 0 "[]"] by (simp add: UnescapeJsonString_def)

section \<open>Properties\<close>

lemma utf8_nonempty: "utf8 cp \<noteq> []"
  by (simp add: utf8_def)

lemma utf8_decode_utf8:
  "list_all is_scalar cps \<Longrightarrow> utf8_decode (bytes (concat (map utf8 cps))) = Some cps"
proof (induction cps)
  case (Cons cp cps)
  then have "utf8_decode1 (bytes (utf8 cp) @ bytes (concat (map utf8 cps)))
      = Some (cp, bytes (concat (map utf8 cps)))"
    by (intro utf8_decode1_utf8) simp
  with Cons utf8_nonempty [of cp] show ?case
    by (subst utf8_decode.simps) (simp add: bytes_def)
qed (simp add: utf8_decode.simps)

lemma rfc_string_scalars: "rfc_string raw cps \<Longrightarrow> list_all is_scalar cps"
proof (induction rule: rfc_string.induct)
  case (rfc_escape e c raw cps)
  then show ?case
    by (auto simp: is_scalar_def simple_escape_def split: if_splits)
next
  case (rfc_unit h n raw cps)
  with hex_value_less [of 0 h n] show ?case
    by (auto simp: is_scalar_def hex4_def is_high_def is_low_def)
next
  case (rfc_pair h n k m raw cps)
  with surrogate_offset [of n] surrogate_offset [of m] show ?case
    by (auto simp: is_scalar_def)
qed auto

text \<open>
  \<open>AppendUtf8\<close> appends the UTF-8 encoding of a scalar value: a strict decoder reads the
  code point back, whatever follows.
\<close>

theorem AppendUtf8_roundtrip:
  assumes "is_scalar (unat cp)"
  shows "\<exists>enc. AppendUtf8 out cp = out @ enc \<and> utf8_decode1 (bytes enc @ rest) = Some (unat cp, rest)"
proof -
  have "unat cp < 0x110000" using assms by (auto simp: is_scalar_def)
  with assms show ?thesis by (auto simp: AppendUtf8_utf8 utf8_decode1_utf8)
qed

theorem AppendUtf8_roundtrip_witness:
  "\<exists>enc. AppendUtf8 [] 0x1F600 = [] @ enc \<and> utf8_decode1 (bytes enc @ []) = Some (unat (0x1F600 :: 32 word), [])"
  by (rule AppendUtf8_roundtrip) (simp add: is_scalar_def)

text \<open>
  C26: \<open>UnescapeJsonString\<close> succeeds exactly on the sentences of the grammar, with the bytes
  the grammar gives them: all eight short escapes, \<open>\\uXXXX\<close> outside the surrogates, and
  surrogate pairs; a lone surrogate or any other escape is refused.
\<close>

theorem unescape_iff: "UnescapeJsonString raw = (True, out) \<longleftrightarrow> body raw out"
  by (rule UnescapeJsonString_iff)

text \<open>
  C27: Every string of RFC 8259 is decoded to the UTF-8 form of the code points it denotes.
\<close>

theorem unescape_rfc:
  assumes "rfc_string raw cps"
  shows "fst (UnescapeJsonString raw) \<and>
    utf8_decode (bytes (snd (UnescapeJsonString raw))) = Some cps"
proof -
  from rfc_string_body [OF assms] have "UnescapeJsonString raw = (True, concat (map utf8 cps))"
    by (simp add: UnescapeJsonString_iff)
  with utf8_decode_utf8 [OF rfc_string_scalars [OF assms]] show ?thesis by simp
qed

theorem unescape_rfc_witness:
  "fst (UnescapeJsonString (CHR 0x5C # ''ud83d'' @ CHR 0x5C # ''ude00'')) \<and>
    utf8_decode (bytes (snd (UnescapeJsonString (CHR 0x5C # ''ud83d'' @ CHR 0x5C # ''ude00'')))) = Some [0x1F600]"
proof (rule unescape_rfc)
  have "hex4 ''d83d'' 0xD83D" "hex4 ''de00'' 0xDE00"
    by (simp_all add: hex4_def hex_digit_def)
  from rfc_pair [OF this(1) _ this(2) _ rfc_nil]
  show "rfc_string (CHR 0x5C # ''ud83d'' @ CHR 0x5C # ''ude00'') [0x1F600]"
    by (simp add: is_high_def is_low_def)
qed

text \<open>
  C28: The decoded string, and the partial one when decoding fails, is never longer than the
  escaped one, so after \<open>out.reserve(in.size())\<close> no byte of a secret is left in a buffer that
  \<open>push_back\<close> outgrew.
\<close>

theorem unescape_never_reallocates: "length (snd (UnescapeJsonString raw)) \<le> length raw"
  by (rule UnescapeJsonString_length)

text \<open>
  \<open>SecureClearString\<close> overwrites every byte the string held and leaves it empty, and it
  touches no byte behind them.
\<close>

theorem clear_wipes:
  assumes "cstring_wf s"
  shows "contents (SecureClearString s) = [] \<and>
    cbuf (SecureClearString s) = replicate (csize s) (CHR 0x00) @ drop (csize s) (cbuf s)"
  using assms
  by (auto simp: contents_def SecureClearString_def SecureZeroMemory_def cstring_wf_def Let_def min_def)

theorem clear_wipes_witness:
  "contents (SecureClearString \<lparr>cbuf = ''secret..'', csize = 6\<rparr>) = [] \<and>
    cbuf (SecureClearString \<lparr>cbuf = ''secret..'', csize = 6\<rparr>)
      = replicate (csize \<lparr>cbuf = ''secret..'', csize = 6\<rparr>) (CHR 0x00)
        @ drop (csize \<lparr>cbuf = ''secret..'', csize = 6\<rparr>) (cbuf \<lparr>cbuf = ''secret..'', csize = 6\<rparr>)"
  by (rule clear_wipes) (simp add: cstring_wf_def)

end
