(* ===== verification/Os.thy ===== *)
theory Os
  imports Prelude
begin

text \<open>
  Windows as the parameter of the model.  Every call whose answer the code inspects is a
  function of a record \<^verbatim>\<open>'w os_api\<close> over an abstract world \<^typ>\<open>'w\<close>; nothing is assumed of
  it unless a theorem says so.  Every call that only has an effect (closing a handle,
  cancelling I/O, a line of the log, a COM call on the event sink) is an event: it is shown
  to the world through \<open>os_note\<close> and recorded in the trace, newest first.
\<close>

section \<open>Events\<close>

datatype lock = SessionLock | EventsLock

datatype ev =
    Log string "int list"
  | LogText string "wstring list" "int list"
  | Acquire lock
  | Release lock
  | Opened HANDLE
  | Closed HANDLE
  | EventSet HANDLE
  | CancelledIo HANDLE HANDLE
  | IoPending HANDLE
  | IoReaped HANDLE
  | SinkAddRef HANDLE
  | SinkRelease HANDLE
  | SinkChanged HANDLE "64 word"
  | TimerArmed HANDLE "64 word"
  | TimerClosed HANDLE
  | MemAlloc HANDLE nat
  | MemFree HANDLE
  | LsaOpened HANDLE
  | LsaClosed HANDLE
  | WipedWide nat
  | WipedMessage
  | RegSet HANDLE string wstring
  | RegDeleted string
  | ThreadCallsOff HANDLE

section \<open>Answers and constants of the API\<close>

text \<open>
  What a transfer reports: success or not, the byte count, and the bytes that are in the
  caller's buffer afterwards.
\<close>

record io_reply =
  io_ok :: bool
  io_count :: DWORD
  io_data :: string

record PROCESS_INFORMATION =
  hProcess :: HANDLE
  hThread :: HANDLE
  dwProcessId :: DWORD

abbreviation zero_pi :: PROCESS_INFORMATION where
  "zero_pi \<equiv> \<lparr>hProcess = 0, hThread = 0, dwProcessId = 0\<rparr>"

abbreviation "WAIT_OBJECT_0 \<equiv> 0 :: DWORD"
abbreviation "WAIT_TIMEOUT \<equiv> 258 :: DWORD"
abbreviation "WAIT_FAILED \<equiv> 0xFFFFFFFF :: DWORD"
abbreviation "INFINITE \<equiv> 0xFFFFFFFF :: DWORD"
abbreviation "ERROR_SUCCESS \<equiv> 0 :: DWORD"
abbreviation "ERROR_ACCESS_DENIED \<equiv> 5 :: DWORD"
abbreviation "ERROR_NOT_SUPPORTED \<equiv> 50 :: DWORD"
abbreviation "ERROR_INVALID_PARAMETER \<equiv> 87 :: DWORD"
abbreviation "ERROR_BROKEN_PIPE \<equiv> 109 :: DWORD"
abbreviation "ERROR_MORE_DATA \<equiv> 234 :: DWORD"
abbreviation "ERROR_MR_MID_NOT_FOUND \<equiv> 317 :: DWORD"
abbreviation "ERROR_PIPE_CONNECTED \<equiv> 535 :: DWORD"
abbreviation "ERROR_IO_PENDING \<equiv> 997 :: DWORD"
abbreviation "INVALID_FILE_ATTRIBUTES \<equiv> 0xFFFFFFFF :: DWORD"

type_synonym HRESULT = "32 word"

abbreviation "S_OK \<equiv> 0 :: HRESULT"
abbreviation "S_FALSE \<equiv> 1 :: HRESULT"
abbreviation "E_NOTIMPL \<equiv> 0x80004001 :: HRESULT"
abbreviation "E_NOINTERFACE \<equiv> 0x80004002 :: HRESULT"
abbreviation "E_POINTER \<equiv> 0x80004003 :: HRESULT"
abbreviation "E_OUTOFMEMORY \<equiv> 0x8007000E :: HRESULT"
abbreviation "E_INVALIDARG \<equiv> 0x80070057 :: HRESULT"
abbreviation "CLASS_E_NOAGGREGATION \<equiv> 0x80040110 :: HRESULT"
abbreviation "CLASS_E_CLASSNOTAVAILABLE \<equiv> 0x80040111 :: HRESULT"
abbreviation "SELFREG_E_CLASS \<equiv> 0x80040201 :: HRESULT"

record 'w sync_api =
  os_note :: "ev \<Rightarrow> 'w \<Rightarrow> 'w"
  os_GetLastError :: "'w \<Rightarrow> DWORD \<times> 'w"
  os_GetTickCount :: "'w \<Rightarrow> DWORD \<times> 'w"
  os_GetTickCount64 :: "'w \<Rightarrow> ULONGLONG \<times> 'w"
  os_CreateEvent :: "'w \<Rightarrow> HANDLE \<times> 'w"
  os_WaitForSingleObject :: "HANDLE \<Rightarrow> DWORD \<Rightarrow> 'w \<Rightarrow> DWORD \<times> 'w"
  os_WaitForMultipleObjects :: "HANDLE list \<Rightarrow> DWORD \<Rightarrow> 'w \<Rightarrow> DWORD \<times> 'w"
  os_CreateThreadpoolTimer :: "'w \<Rightarrow> HANDLE \<times> 'w"
  os_CoTaskMemAlloc :: "nat \<Rightarrow> 'w \<Rightarrow> HANDLE \<times> 'w"
  os_new :: "'w \<Rightarrow> bool \<times> 'w"

record 'w pipe_api = "'w sync_api" +
  os_CoCreateGuid :: "'w \<Rightarrow> (128 word) option \<times> 'w"
  os_StringFromGUID2 :: "128 word \<Rightarrow> 'w \<Rightarrow> wstring option \<times> 'w"
  os_ConvertSddl :: "string \<Rightarrow> 'w \<Rightarrow> bool \<times> 'w"
  os_CreateNamedPipe :: "wstring \<Rightarrow> string option \<Rightarrow> 'w \<Rightarrow> HANDLE \<times> 'w"
  os_ConnectNamedPipe :: "HANDLE \<Rightarrow> HANDLE \<Rightarrow> 'w \<Rightarrow> bool \<times> 'w"
  os_ReadFile :: "HANDLE \<Rightarrow> HANDLE \<Rightarrow> nat \<Rightarrow> 'w \<Rightarrow> io_reply \<times> 'w"
  os_GetOverlappedResult :: "HANDLE \<Rightarrow> HANDLE \<Rightarrow> 'w \<Rightarrow> io_reply \<times> 'w"

record 'w process_api = "'w pipe_api" +
  os_TerminateProcess :: "HANDLE \<Rightarrow> 'w \<Rightarrow> bool \<times> 'w"
  os_GetExitCodeProcess :: "HANDLE \<Rightarrow> 'w \<Rightarrow> DWORD option \<times> 'w"
  os_GetFileAttributes :: "wstring \<Rightarrow> 'w \<Rightarrow> DWORD \<times> 'w"
  os_GetEnvironmentStrings :: "'w \<Rightarrow> wstring option \<times> 'w"
  os_CreateProcess ::
    "wstring \<Rightarrow> DWORD \<Rightarrow> wstring option \<Rightarrow> 'w \<Rightarrow> PROCESS_INFORMATION option \<times> 'w"

text \<open>A \<open>LUID\<close>: low part and high part.\<close>

type_synonym LUID = "32 word \<times> 32 word"

record 'w os_api = "'w process_api" +
  os_LsaConnectUntrusted :: "'w \<Rightarrow> (32 word \<times> HANDLE) \<times> 'w"
  os_LsaLookupAuthenticationPackage :: "HANDLE \<Rightarrow> string \<Rightarrow> 'w \<Rightarrow> (32 word \<times> 32 word) \<times> 'w"
  os_LsaDeregisterLogonProcess :: "HANDLE \<Rightarrow> 'w \<Rightarrow> 32 word \<times> 'w"
  os_WTSGetActiveConsoleSessionId :: "'w \<Rightarrow> DWORD \<times> 'w"
  os_WTSQueryUserToken :: "DWORD \<Rightarrow> 'w \<Rightarrow> HANDLE option \<times> 'w"
  os_GetTokenAuthenticationId :: "HANDLE \<Rightarrow> 'w \<Rightarrow> LUID option \<times> 'w"
  os_GetComputerName :: "'w \<Rightarrow> wstring option \<times> 'w"
  os_MultiByteToWideChar :: "string \<Rightarrow> 'w \<Rightarrow> wstring \<times> 'w"
  os_WTSQueryUserName :: "DWORD \<Rightarrow> 'w \<Rightarrow> wstring option option \<times> 'w"
  os_LsaNtStatusToWinError :: "32 word \<Rightarrow> 'w \<Rightarrow> DWORD \<times> 'w"
  os_FormatMessage :: "DWORD \<Rightarrow> nat \<Rightarrow> 'w \<Rightarrow> wstring \<times> 'w"
  os_PathRemoveBlanks :: "wstring \<Rightarrow> 'w \<Rightarrow> wstring \<times> 'w"
  os_new_object :: "'w \<Rightarrow> HANDLE \<times> 'w"
  os_GetModuleFileName :: "HANDLE \<Rightarrow> 'w \<Rightarrow> wstring option \<times> 'w"
  os_RegCreateKeyEx :: "string \<Rightarrow> 'w \<Rightarrow> HANDLE option \<times> 'w"
  sizeof_KERB_INTERACTIVE_LOGON :: nat
  sizeof_MSV1_0_INTERACTIVE_LOGON :: nat

section \<open>The state below every component\<close>

record 'w sys =
  world :: 'w
  trace :: "ev list"

text \<open>A call whose answer matters, and an effect.\<close>

definition ask :: "('w \<Rightarrow> 'r \<times> 'w) \<Rightarrow> (('w, 'x) sys_scheme, 'r) state" where
  "ask f = State (\<lambda>s. case f (world s) of (r, w) \<Rightarrow> (r, s\<lparr>world := w\<rparr>))"

definition emit :: "'w os_api \<Rightarrow> ev \<Rightarrow> (('w, 'x) sys_scheme, unit) state" where
  "emit A e = modify (\<lambda>s. s\<lparr>world := os_note A e (world s), trace := e # trace s\<rparr>)"

definition CpLog :: "'w os_api \<Rightarrow> string \<Rightarrow> int list \<Rightarrow> (('w, 'x) sys_scheme, unit) state" where
  "CpLog A msg args = emit A (Log msg args)"

text \<open>A line that also shows texts: the format, the texts and the numbers, in their order.\<close>

definition CpLogText ::
    "'w os_api \<Rightarrow> string \<Rightarrow> wstring list \<Rightarrow> int list \<Rightarrow> (('w, 'x) sys_scheme, unit) state" where
  "CpLogText A msg texts args = emit A (LogText msg texts args)"

definition CloseHandle :: "'w os_api \<Rightarrow> HANDLE \<Rightarrow> (('w, 'x) sys_scheme, unit) state" where
  "CloseHandle A h = emit A (Closed h)"

text \<open>A new handle that the caller owns, unless the call failed.\<close>

definition own :: "'w os_api \<Rightarrow> HANDLE \<Rightarrow> HANDLE \<Rightarrow> (('w, 'x) sys_scheme, unit) state" where
  "own A bad h = when_do (h \<noteq> bad) (emit A (Opened h))"

definition CreateEventW :: "'w os_api \<Rightarrow> (('w, 'x) sys_scheme, HANDLE) state" where
  "CreateEventW A = do {
     h \<leftarrow> ask (os_CreateEvent A);
     own A NULL_HANDLE h;
     State_Monad.return h
   }"

section \<open>Weakest preconditions of the calls\<close>

lemma run_ask: "run_state (ask f) s = (fst (f (world s)), s\<lparr>world := snd (f (world s))\<rparr>)"
  by (simp add: ask_def split: prod.splits)

lemma wp_ask [wp_simps]:
  "wp (ask f) Q s = Q (fst (f (world s))) (s\<lparr>world := snd (f (world s))\<rparr>)"
  by (simp add: wp_def run_ask)

lemma wp_emit [wp_simps]:
  "wp (emit A e) Q s = Q () (s\<lparr>world := os_note A e (world s), trace := e # trace s\<rparr>)"
  by (simp add: emit_def wp_simps)

lemma wp_CpLog [wp_simps]:
  "wp (CpLog A msg args) Q s
   = Q () (s\<lparr>world := os_note A (Log msg args) (world s), trace := Log msg args # trace s\<rparr>)"
  by (simp add: CpLog_def wp_simps)

lemma wp_CpLogText [wp_simps]:
  "wp (CpLogText A msg texts args) Q s
   = Q () (s\<lparr>world := os_note A (LogText msg texts args) (world s), trace := LogText msg texts args # trace s\<rparr>)"
  by (simp add: CpLogText_def wp_simps)

lemma wp_CloseHandle [wp_simps]:
  "wp (CloseHandle A h) Q s
   = Q () (s\<lparr>world := os_note A (Closed h) (world s), trace := Closed h # trace s\<rparr>)"
  by (simp add: CloseHandle_def wp_simps)

lemma wp_askI [wp_intro]: "(\<And>r w. Q r (s\<lparr>world := w\<rparr>)) \<Longrightarrow> wp (ask f) Q s"
  by (simp add: wp_simps)

lemma wp_emitI [wp_intro]:
  "(\<And>w. Q () (s\<lparr>world := w, trace := e # trace s\<rparr>)) \<Longrightarrow> wp (emit A e) Q s"
  by (simp add: wp_simps)

lemma wp_CpLogI [wp_intro]:
  "(\<And>w m. Q () (s\<lparr>world := w, trace := Log m args # trace s\<rparr>)) \<Longrightarrow> wp (CpLog A msg args) Q s"
  by (simp add: wp_simps)

lemma wp_CpLogTextI [wp_intro]:
  "(\<And>w m ts. Q () (s\<lparr>world := w, trace := LogText m ts args # trace s\<rparr>)) \<Longrightarrow> wp (CpLogText A msg texts args) Q s"
  by (simp add: wp_simps)

lemma wp_CloseHandleI [wp_intro]:
  "(\<And>w. Q () (s\<lparr>world := w, trace := Closed h # trace s\<rparr>)) \<Longrightarrow> wp (CloseHandle A h) Q s"
  by (simp add: wp_simps)

lemma wp_ownI [wp_intro]:
  "(\<And>w. h \<noteq> bad \<Longrightarrow> Q () (s\<lparr>world := w, trace := Opened h # trace s\<rparr>)) \<Longrightarrow>
   (h = bad \<Longrightarrow> Q () s) \<Longrightarrow> wp (own A bad h) Q s"
  by (simp add: own_def wp_simps)

lemma wp_CreateEventW [wp_intro]:
  "(\<And>h w. h \<noteq> NULL_HANDLE \<Longrightarrow> Q h (s\<lparr>world := w, trace := Opened h # trace s\<rparr>)) \<Longrightarrow>
   (\<And>w. Q NULL_HANDLE (s\<lparr>world := w\<rparr>)) \<Longrightarrow> wp (CreateEventW A) Q s"
  unfolding CreateEventW_def by (intro wp_intro) auto

section \<open>Handles and locks in a trace\<close>

text \<open>
  \<open>net h es\<close>: how often \<open>h\<close> was handed out less how often it was closed.  An operation owns
  what it opens, so \<open>net\<close> is what the handle fields of the state must account for.
\<close>

fun net :: "HANDLE \<Rightarrow> ev list \<Rightarrow> int" where
  "net h [] = 0"
| "net h (e # es) =
     (case e of
        Opened k \<Rightarrow> of_bool (k = h) + net h es
      | Closed k \<Rightarrow> net h es - of_bool (k = h)
      | _ \<Rightarrow> net h es)"

text \<open>The same for logon processes of the LSA and for blocks of the task allocator.\<close>

fun lsa_net :: "HANDLE \<Rightarrow> ev list \<Rightarrow> int" where
  "lsa_net h [] = 0"
| "lsa_net h (e # es) =
     (case e of
        LsaOpened k \<Rightarrow> of_bool (k = h) + lsa_net h es
      | LsaClosed k \<Rightarrow> lsa_net h es - of_bool (k = h)
      | _ \<Rightarrow> lsa_net h es)"

fun mem_net :: "ev list \<Rightarrow> int" where
  "mem_net [] = 0"
| "mem_net (e # es) =
     (case e of MemAlloc _ _ \<Rightarrow> mem_net es + 1 | MemFree _ \<Rightarrow> mem_net es - 1 | _ \<Rightarrow> mem_net es)"

text \<open>References held on an event sink of LogonUI.\<close>

fun sink_net :: "HANDLE \<Rightarrow> ev list \<Rightarrow> int" where
  "sink_net h [] = 0"
| "sink_net h (e # es) =
     (case e of
        SinkAddRef k \<Rightarrow> of_bool (k = h) + sink_net h es
      | SinkRelease k \<Rightarrow> sink_net h es - of_bool (k = h)
      | _ \<Rightarrow> sink_net h es)"

text \<open>
  \<open>holds l es\<close>: whether lock \<open>l\<close> is held after the events; \<open>None\<close> when it was acquired while
  held (a slim reader/writer lock is not recursive: the thread would wait for itself) or
  released while free.
\<close>

fun holds :: "lock \<Rightarrow> ev list \<Rightarrow> bool option" where
  "holds l [] = Some False"
| "holds l (e # es) =
     (case e of
        Acquire k \<Rightarrow> if k = l then (if holds l es = Some False then Some True else None) else holds l es
      | Release k \<Rightarrow> if k = l then (if holds l es = Some True then Some False else None) else holds l es
      | _ \<Rightarrow> holds l es)"

text \<open>The handles, the locks and the LSA connections are the same after the events \<open>es'\<close> as after \<open>es\<close>.\<close>

abbreviation quiet :: "ev list \<Rightarrow> ev list \<Rightarrow> bool" where
  "quiet es es' \<equiv> (\<forall>h. net h es' = net h es) \<and> (\<forall>l. holds l es' = holds l es)
     \<and> (\<forall>h. lsa_net h es' = lsa_net h es)"

text \<open>And so are the references on event sinks.\<close>

abbreviation silent :: "ev list \<Rightarrow> ev list \<Rightarrow> bool" where
  "silent es es' \<equiv> quiet es es' \<and> (\<forall>h. sink_net h es' = sink_net h es)"

text \<open>
  \<open>os_frame s s'\<close>: on the way from \<open>s\<close> to \<open>s'\<close> no static variable changed, every handle
  that was opened was closed again, no memory was allocated, and the locks are as before.
\<close>

definition os_frame :: "('w, 'x) sys_scheme \<Rightarrow> ('w, 'x) sys_scheme \<Rightarrow> bool" where
  "os_frame s s' \<longleftrightarrow> sys.more s' = sys.more s
     \<and> silent (trace s) (trace s') \<and> mem_net (trace s') = mem_net (trace s)"

lemma os_frame_refl [simp]: "os_frame s s"
  by (simp add: os_frame_def)

lemma os_frame_trans: "os_frame s t \<Longrightarrow> os_frame t u \<Longrightarrow> os_frame s u"
  by (simp add: os_frame_def)

lemma os_frame_world: "os_frame s t \<Longrightarrow> os_frame s (t\<lparr>world := w\<rparr>)"
  by (simp add: os_frame_def)

end
