(* ===== verification/Demo_World.thy ===== *)
theory Demo_World
  imports Os
begin

text \<open>
  Concrete worlds, on which the witnesses of the development run the model.  The world is a
  millisecond clock that only a wait moves; every read of the pipe gives the same answer.
\<close>

definition demo_wait :: "DWORD \<Rightarrow> ULONGLONG \<Rightarrow> DWORD \<times> ULONGLONG" where
  "demo_wait t w = (if w + ucast t \<le> w then (WAIT_FAILED, w) else (WAIT_TIMEOUT, w + ucast t))"

definition demo_sync :: "DWORD \<Rightarrow> ULONGLONG sync_api" where
  "demo_sync err = \<lparr>
     os_note = (\<lambda>_ w. w),
     os_GetLastError = (\<lambda>w. (err, w)),
     os_GetTickCount = (\<lambda>w. (ucast w, w)),
     os_GetTickCount64 = (\<lambda>w. (w, w)),
     os_CreateEvent = (\<lambda>w. (0x10, w)),
     os_WaitForSingleObject = (\<lambda>_ t w. (if t = 0 then WAIT_TIMEOUT else WAIT_OBJECT_0, w)),
     os_WaitForMultipleObjects = (\<lambda>_ t w. demo_wait t w),
     os_CreateThreadpoolTimer = (\<lambda>w. (0x50, w)),
     os_CoTaskMemAlloc = (\<lambda>_ w. (0x1000, w)),
     os_new = (\<lambda>w. (True, w))\<rparr>"

definition demo_pipe :: "io_reply \<Rightarrow> DWORD \<Rightarrow> ULONGLONG pipe_api" where
  "demo_pipe reply err = sync_api.extend (demo_sync err) \<lparr>
     os_CoCreateGuid = (\<lambda>w. (Some 7, w)),
     os_StringFromGUID2 = (\<lambda>_ w. (Some (wide ''{7-7}''), w)),
     os_ConvertSddl = (\<lambda>_ w. (True, w)),
     os_CreateNamedPipe = (\<lambda>_ _ w. (0x20, w)),
     os_ConnectNamedPipe = (\<lambda>_ _ w. (True, w)),
     os_ReadFile = (\<lambda>_ _ _ w. (reply, w)),
     os_GetOverlappedResult = (\<lambda>_ _ w. (\<lparr>io_ok = True, io_count = 0, io_data = []\<rparr>, w))\<rparr>"

definition demo_process :: "io_reply \<Rightarrow> DWORD \<Rightarrow> ULONGLONG process_api" where
  "demo_process reply err = pipe_api.extend (demo_pipe reply err) \<lparr>
     os_TerminateProcess = (\<lambda>_ w. (True, w)),
     os_GetExitCodeProcess = (\<lambda>_ w. (Some 0, w)),
     os_GetFileAttributes = (\<lambda>_ w. (0x20, w)),
     os_GetEnvironmentStrings = (\<lambda>w. (Some (wide ''PATH=x'' @ [0, 0]), w)),
     os_CreateProcess = (\<lambda>_ _ _ w. (Some \<lparr>hProcess = 0x30, hThread = 0x40, dwProcessId = 9\<rparr>, w))\<rparr>"

definition demo_api :: "io_reply \<Rightarrow> DWORD \<Rightarrow> ULONGLONG os_api" where
  "demo_api reply err = process_api.extend (demo_process reply err) \<lparr>
     os_LsaConnectUntrusted = (\<lambda>w. ((0, 0x60), w)),
     os_LsaLookupAuthenticationPackage = (\<lambda>_ _ w. ((0, 2), w)),
     os_LsaDeregisterLogonProcess = (\<lambda>_ w. (0, w)),
     os_WTSGetActiveConsoleSessionId = (\<lambda>w. (1, w)),
     os_WTSQueryUserToken = (\<lambda>_ w. (Some 0x70, w)),
     os_GetTokenAuthenticationId = (\<lambda>_ w. (Some (5, 0), w)),
     os_GetComputerName = (\<lambda>w. (Some (wide ''PC''), w)),
     os_MultiByteToWideChar = (\<lambda>s w. (map of_char s, w)),
     os_WTSQueryUserName = (\<lambda>_ w. (Some (Some (wide ''kim'')), w)),
     os_LsaNtStatusToWinError = (\<lambda>_ w. (1326, w)),
     os_FormatMessage = (\<lambda>_ _ w. (wide ''Logon failure.'', w)),
     os_PathRemoveBlanks = (\<lambda>m w. (m, w)),
     os_new_object = (\<lambda>w. (0x2000, w)),
     os_GetModuleFileName = (\<lambda>_ w. (Some (wide ''Dot1xCP.dll''), w)),
     os_RegCreateKeyEx = (\<lambda>_ w. (Some 0x90, w)),
     sizeof_KERB_INTERACTIVE_LOGON = 56,
     sizeof_MSV1_0_INTERACTIVE_LOGON = 56\<rparr>"

lemmas demo_defs = demo_api_def demo_process_def demo_pipe_def demo_sync_def demo_wait_def
  sync_api.defs pipe_api.defs process_api.defs os_api.defs

text \<open>A broker that says nothing, and one that has written a message.\<close>

definition silent_api :: "ULONGLONG os_api" where
  "silent_api = demo_api \<lparr>io_ok = False, io_count = 0, io_data = []\<rparr> ERROR_IO_PENDING"

definition says :: "string \<Rightarrow> io_reply" where
  "says msg = \<lparr>io_ok = True, io_count = of_nat (length msg), io_data = msg\<rparr>"

definition talking_api :: "string \<Rightarrow> ULONGLONG os_api" where
  "talking_api msg = demo_api (says msg) 0"

lemma silent_simps [simp]:
  "os_note silent_api x w = w"
  "os_GetLastError silent_api w = (ERROR_IO_PENDING, w)"
  "os_GetTickCount silent_api w = (ucast w, w)"
  "os_GetTickCount64 silent_api w = (w, w)"
  "os_CreateEvent silent_api w = (0x10, w)"
  "os_WaitForSingleObject silent_api h t w = (if t = 0 then WAIT_TIMEOUT else WAIT_OBJECT_0, w)"
  "os_WaitForMultipleObjects silent_api hs t w = demo_wait t w"
  "os_ReadFile silent_api p e n w = (\<lparr>io_ok = False, io_count = 0, io_data = []\<rparr>, w)"
  "os_GetOverlappedResult silent_api p e w = (\<lparr>io_ok = True, io_count = 0, io_data = []\<rparr>, w)"
  by (simp_all add: silent_api_def demo_api_def demo_process_def demo_pipe_def demo_sync_def
      sync_api.defs pipe_api.defs process_api.defs)

definition start_sys :: "ULONGLONG sys" where
  "start_sys = \<lparr>world = 1000, trace = []\<rparr>"

end
