(* ===== verification/Auth_Package.thy ===== *)
theory Auth_Package
  imports Demo_World
begin

text \<open>
  \<open>src/src/auth/SerializationAuth.cpp\<close>: the id of an authentication package, asked from the
  LSA once and then kept in a static variable.
\<close>

section \<open>State\<close>

record 'w auth = "'w sys" +
  g_cachedKerberosPkg :: LONG
  g_cachedMsvPkg :: LONG

text \<open>The \<open>cacheSlot\<close> reference parameter of \<open>ResolvePkgCached\<close>.\<close>

datatype slot = KerberosSlot | MsvSlot

fun slot_get :: "slot \<Rightarrow> ('w, 'x) auth_scheme \<Rightarrow> LONG" where
  "slot_get KerberosSlot s = g_cachedKerberosPkg s"
| "slot_get MsvSlot s = g_cachedMsvPkg s"

fun slot_set :: "slot \<Rightarrow> LONG \<Rightarrow> ('w, 'x) auth_scheme \<Rightarrow> ('w, 'x) auth_scheme" where
  "slot_set KerberosSlot v s = s\<lparr>g_cachedKerberosPkg := v\<rparr>"
| "slot_set MsvSlot v s = s\<lparr>g_cachedMsvPkg := v\<rparr>"

section \<open>Operations\<close>

definition closeLsa :: "'w os_api \<Rightarrow> HANDLE \<Rightarrow> (('w, 'x) sys_scheme, unit) state" where
  "closeLsa A h =
     when_do (h \<noteq> NULL_HANDLE) (do {
       stClose \<leftarrow> ask (os_LsaDeregisterLogonProcess A h);
       emit A (LsaClosed h);
       when_do (sint stClose < 0)
         (CpLog A ''ResolvePkgA: LsaDeregisterLogonProcess failed, NTSTATUS=0x%08X'' [uint stClose])
     })"

text \<open>The result is the id, or \<open>None\<close> when the function returns false.\<close>

definition ResolvePkgA :: "'w os_api \<Rightarrow> string \<Rightarrow> (('w, 'x) sys_scheme, 32 word option) state" where
  "ResolvePkgA A name = do {
     CpLog A ''ResolvePkgA: Attempting LsaConnectUntrusted...'' [];
     (st, h) \<leftarrow> ask (os_LsaConnectUntrusted A);
     if sint st < 0 then do {
       CpLog A ''ResolvePkgA: LsaConnectUntrusted failed, NTSTATUS=0x%08X'' [uint st];
       State_Monad.return None
     } else do {
       when_do (h \<noteq> NULL_HANDLE) (emit A (LsaOpened h));
       CpLog A ''ResolvePkgA: LsaConnectUntrusted OK.'' [];
       CpLogText A ''ResolvePkgA: Looking up package '%S'...'' [wide name] [];
       (st, t) \<leftarrow> ask (os_LsaLookupAuthenticationPackage A h name);
       if sint st < 0 then do {
         closeLsa A h;
         CpLogText A ''ResolvePkgA: LsaLookupAuthenticationPackage failed for '%S', NTSTATUS=0x%08X'' [wide name] [uint st];
         State_Monad.return None
       } else if t = 0 then do {
         closeLsa A h;
         CpLogText A ''ResolvePkgA: LsaLookup succeeded for '%S' but returned ID 0. Failing.'' [wide name] [];
         State_Monad.return None
       } else do {
         CpLogText A ''ResolvePkgA: Found package '%S', ID=%lu. Success.'' [wide name] [uint t];
         closeLsa A h;
         State_Monad.return (Some t)
       }
     }
   }"

text \<open>The slot is read and compared as a signed number, and written only while it is zero.\<close>

definition ResolvePkgCached ::
    "'w os_api \<Rightarrow> string \<Rightarrow> slot \<Rightarrow> (('w, 'x) auth_scheme, 32 word option) state" where
  "ResolvePkgCached A name cacheSlot = do {
     cached \<leftarrow> gets (slot_get cacheSlot);
     if 0 < sint cached then State_Monad.return (Some cached)
     else do {
       r \<leftarrow> ResolvePkgA A name;
       (case r of
          None \<Rightarrow> State_Monad.return None
        | Some resolved \<Rightarrow> do {
            prior \<leftarrow> gets (slot_get cacheSlot);
            when_do (prior = 0) (modify (slot_set cacheSlot resolved));
            State_Monad.return (Some (if 0 < sint prior then prior else resolved))
          })
     }
   }"

definition ResolveNegotiate :: "'w os_api \<Rightarrow> (('w, 'x) auth_scheme, 32 word option) state" where
  "ResolveNegotiate A = do {
     CpLog A ''ResolveNegotiate: Looking up 'Kerberos' package...'' [];
     ResolvePkgCached A ''Kerberos'' KerberosSlot
   }"

definition ResolveMsv :: "'w os_api \<Rightarrow> (('w, 'x) auth_scheme, 32 word option) state" where
  "ResolveMsv A = ResolvePkgCached A ''MICROSOFT_AUTHENTICATION_PACKAGE_V1_0'' MsvSlot"

section \<open>Looking a package up\<close>

text \<open>
  Whatever the LSA answers, the connection opened is closed once, and an id handed out is not
  zero.
\<close>

lemma ResolvePkgA_frame:
  "wp (ResolvePkgA A name) (\<lambda>r s'. os_frame s s' \<and> r \<noteq> Some 0) s"
  unfolding ResolvePkgA_def closeLsa_def by (intro wp_intro) (auto simp: os_frame_def)

lemma slot_get_frame:
  "os_frame s s' \<Longrightarrow> slot_get sl s' = slot_get sl s"
  by (cases sl; cases s; cases s') (auto simp: os_frame_def)

section \<open>The cache\<close>

text \<open>
  \<open>resolved_in sl s r s'\<close>: what \<open>ResolvePkgCached\<close> promises for slot \<open>sl\<close>: a result is not
  zero, a positive slot is the answer and stays, an empty slot takes the answer, the other
  slot and everything else is as before.
\<close>

definition resolved_in ::
    "slot \<Rightarrow> ('w, 'x) auth_scheme \<Rightarrow> 32 word option \<Rightarrow> ('w, 'x) auth_scheme \<Rightarrow> bool" where
  "resolved_in sl s r s' \<longleftrightarrow>
     r \<noteq> Some 0
     \<and> (0 < sint (slot_get sl s) \<longrightarrow> r = Some (slot_get sl s))
     \<and> slot_get sl s' = (if slot_get sl s = 0 then (case r of Some i \<Rightarrow> i | None \<Rightarrow> 0) else slot_get sl s)
     \<and> (\<forall>other. other \<noteq> sl \<longrightarrow> slot_get other s' = slot_get other s)
     \<and> auth.more s' = auth.more s
     \<and> silent (trace s) (trace s') \<and> mem_net (trace s') = mem_net (trace s)"

lemma slot_get_set [simp]:
  "slot_get sl (slot_set sl v s) = v"
  "other \<noteq> sl \<Longrightarrow> slot_get other (slot_set sl v s) = slot_get other s"
  "auth.more (slot_set sl v s) = auth.more s" "trace (slot_set sl v s) = trace s"
  by (cases sl; cases other; simp)+

lemma slot_get_sys [simp]:
  "slot_get sl (s\<lparr>world := w\<rparr>) = slot_get sl s" "slot_get sl (s\<lparr>trace := es\<rparr>) = slot_get sl s"
  by (cases sl; simp)+

lemma auth_more_frame: "os_frame s s' \<Longrightarrow> auth.more s' = auth.more s"
  by (cases s; cases s') (auto simp: os_frame_def)

text \<open>The frame of an operation that may write the caches.\<close>

definition auth_frame :: "('w, 'x) auth_scheme \<Rightarrow> ('w, 'x) auth_scheme \<Rightarrow> bool" where
  "auth_frame s s' \<longleftrightarrow> auth.more s' = auth.more s \<and> silent (trace s) (trace s')
     \<and> mem_net (trace s') = mem_net (trace s)"

lemma auth_frame_os: "os_frame s s' \<Longrightarrow> auth_frame s s'"
  using auth_more_frame [of s s'] by (simp add: auth_frame_def) (simp add: os_frame_def)

lemma ResolvePkgCached_spec:
  "wp (ResolvePkgCached A name sl) (resolved_in sl s) s"
  unfolding ResolvePkgCached_def
proof (intro wp_intro, goal_cases)
  case 1
  then show ?case by (auto simp: resolved_in_def)
next
  case 2
  show ?case
    by (rule wp_mono [OF ResolvePkgA_frame], intro wp_intro)
       (use 2 in \<open>auto simp: resolved_in_def slot_get_frame auth_more_frame\<close>,
        auto simp: os_frame_def)
qed

lemma resolved_in_log:
  "resolved_in sl (s\<lparr>world := w, trace := Log m args # trace s\<rparr>) r s' \<longleftrightarrow> resolved_in sl s r s'"
  by (simp add: resolved_in_def)

lemma ResolveNegotiate_spec: "wp (ResolveNegotiate A) (resolved_in KerberosSlot s) s"
  unfolding ResolveNegotiate_def
  by (intro wp_intro) (rule wp_mono [OF ResolvePkgCached_spec], simp add: resolved_in_log)

lemma ResolveMsv_spec: "wp (ResolveMsv A) (resolved_in MsvSlot s) s"
  unfolding ResolveMsv_def by (rule ResolvePkgCached_spec)

section \<open>The interface the serializer uses\<close>

locale package_resolver =
  fixes resolve :: "(('w, 'x) auth_scheme, 32 word option) state" and slot :: slot
  assumes resolve_spec: "wp resolve (resolved_in slot s) s"
begin

lemma resolve_frame:
  "wp resolve (\<lambda>r s'. r \<noteq> Some 0 \<and> auth_frame s s') s"
  by (rule wp_mono [OF resolve_spec]) (simp add: resolved_in_def auth_frame_def)

text \<open>Once an id below 2 to the 31 is known, every later call gives the same id.\<close>

lemma resolve_stable:
  assumes "run_state resolve s = (Some i, t)" and "0 < sint i" and "slot_get slot s = 0"
    and "slot_get slot t' = slot_get slot t"
  shows "fst (run_state resolve t') = Some i"
proof -
  have "slot_get slot t' = i"
    using wp_run [OF assms(1) resolve_spec] assms by (simp add: resolved_in_def)
  moreover obtain r u where "run_state resolve t' = (r, u)" by fastforce
  ultimately show ?thesis
    using wp_run [of resolve t' r u, OF _ resolve_spec] assms(2) by (simp add: resolved_in_def)
qed

end

interpretation kerberos: package_resolver "ResolveNegotiate A" KerberosSlot for A
  by unfold_locales (rule ResolveNegotiate_spec)

interpretation msv: package_resolver "ResolveMsv A" MsvSlot for A
  by unfold_locales (rule ResolveMsv_spec)

section \<open>Properties\<close>

text \<open>
  When a package is known, looking it up asks the LSA nothing: no call is made and the
  state does not change at all.
\<close>

theorem cached_lookup_is_silent:
  assumes "0 < sint (g_cachedMsvPkg s)"
  shows "run_state (ResolveMsv A) s = (Some (g_cachedMsvPkg s), s)"
  using assms by (simp add: ResolveMsv_def ResolvePkgCached_def)

text \<open>
  C34: a successful lookup never yields package 0, and two lookups in a row agree, as long as
  the id is positive when read as the signed number the cache holds.
\<close>

theorem lookup_agrees:
  assumes "run_state (ResolveMsv A) s = (Some i, t)" and "g_cachedMsvPkg s = 0" and "0 < sint i"
  shows "i \<noteq> 0 \<and> run_state (ResolveMsv A) t = (Some i, t)"
proof -
  have "resolved_in MsvSlot s (Some i) t"
    by (rule wp_run [OF assms(1) ResolveMsv_spec])
  with assms have "g_cachedMsvPkg t = i" "i \<noteq> 0" by (auto simp: resolved_in_def)
  with assms(3) show ?thesis by (simp add: ResolveMsv_def ResolvePkgCached_def)
qed

definition start_auth :: "ULONGLONG auth" where
  "start_auth = sys.extend start_sys \<lparr>g_cachedKerberosPkg = 0, g_cachedMsvPkg = 0\<rparr>"

lemma cached_lookup_is_silent_witness:
  "run_state (ResolveMsv (talking_api [])) (start_auth\<lparr>g_cachedMsvPkg := 2\<rparr>)
   = (Some 2, start_auth\<lparr>g_cachedMsvPkg := 2\<rparr>)"
  by (rule trans [OF cached_lookup_is_silent]) simp_all

lemma first_lookup:
  "\<exists>t. run_state (ResolveMsv (talking_api [])) start_auth = (Some 2, t)"
  by (simp add: ResolveMsv_def ResolvePkgCached_def ResolvePkgA_def closeLsa_def start_auth_def
      start_sys_def sys.defs auth.defs run_ask emit_def CpLog_def CpLogText_def when_do_def talking_api_def demo_defs)

lemma lookup_agrees_witness:
  "\<exists>t. run_state (ResolveMsv (talking_api [])) start_auth = (Some 2, t)
     \<and> run_state (ResolveMsv (talking_api [])) t = (Some 2, t)"
proof -
  obtain t where t: "run_state (ResolveMsv (talking_api [])) start_auth = (Some 2, t)"
    using first_lookup by blast
  have "g_cachedMsvPkg start_auth = 0" by (simp add: start_auth_def sys.defs start_sys_def)
  from lookup_agrees [OF t this] t show ?thesis by auto
qed

end
