(* ===== verification/Logon_Packing.thy ===== *)
theory Logon_Packing
  imports Auth_Package
begin

text \<open>
  \<open>src/src/auth/Serialization.cpp\<close> and \<open>Serialization.h\<close>: the logon buffer handed to the
  LSA.  A buffer is its address, the fields of its header and the bytes behind the header.
  The SDK structures' sizes are fields of the API; a \<open>LUID\<close> has 8 bytes.
\<close>

section \<open>Data\<close>

datatype Scenario = ScenLogon | ScenUnlock

datatype logon_type =
    KerbInteractiveLogon | KerbWorkstationUnlockLogon
  | MsV1_0InteractiveLogon | MsV1_0WorkstationUnlockLogon

record UNICODE_STRING =
  us_Length :: USHORT
  us_MaximumLength :: USHORT
  us_Buffer :: HANDLE

record logon_blob =
  address :: HANDLE
  MessageType :: logon_type
  LogonDomainName :: UNICODE_STRING
  UserName :: UNICODE_STRING
  Password :: UNICODE_STRING
  LogonId :: "LUID option"
  header_size :: nat
  payload :: string

record Packed =
  packed_blob :: logon_blob
  packed_size :: DWORD
  packed_authPkg :: "32 word"

section \<open>Operations\<close>

definition CoTaskMemAlloc :: "'w os_api \<Rightarrow> nat \<Rightarrow> (('w, 'x) sys_scheme, HANDLE) state" where
  "CoTaskMemAlloc A cb = do {
     p \<leftarrow> ask (os_CoTaskMemAlloc A cb);
     when_do (p \<noteq> NULL_HANDLE) (emit A (MemAlloc p cb));
     State_Monad.return p
   }"

definition CoAllocZero :: "'w os_api \<Rightarrow> nat \<Rightarrow> (('w, 'x) sys_scheme, HANDLE) state" where
  "CoAllocZero A cb = CoTaskMemAlloc A cb"

definition FillUS :: "HANDLE \<Rightarrow> USHORT \<Rightarrow> USHORT \<Rightarrow> UNICODE_STRING" where
  "FillUS buf bytesNoNull bytesWithNull =
     \<lparr>us_Length = bytesNoNull, us_MaximumLength = bytesWithNull, us_Buffer = buf\<rparr>"

definition GetConsoleLogonId :: "'w os_api \<Rightarrow> (('w, 'x) sys_scheme, LUID option) state" where
  "GetConsoleLogonId A = do {
     sid \<leftarrow> ask (os_WTSGetActiveConsoleSessionId A);
     if sid = 0xFFFFFFFF then State_Monad.return None
     else do {
       tok \<leftarrow> ask (os_WTSQueryUserToken A sid);
       (case tok of
          None \<Rightarrow> State_Monad.return None
        | Some hTok \<Rightarrow> do {
            emit A (Opened hTok);
            luid \<leftarrow> ask (os_GetTokenAuthenticationId A hTok);
            CloseHandle A hTok;
            State_Monad.return luid
          })
     }
   }"

definition LocalMachineName :: "'w os_api \<Rightarrow> (('w, 'x) sys_scheme, wstring) state" where
  "LocalMachineName A = do {
     n \<leftarrow> ask (os_GetComputerName A);
     State_Monad.return (case n of Some name \<Rightarrow> name | None \<Rightarrow> wide ''.'')
   }"

text \<open>The bytes that \<open>memcpy\<close> copies from a string: its code units, low byte first, and the null.\<close>

definition wide_bytes :: "wstring \<Rightarrow> string" where
  "wide_bytes s = concat (map (\<lambda>c. [char_of (unat (c AND 0xFF)), char_of (unat (drop_bit 8 c))]) s)"

definition c_str_bytes :: "wstring \<Rightarrow> string" where
  "c_str_bytes s = wide_bytes (s @ [0])"

definition cb_null :: "wstring \<Rightarrow> nat" where
  "cb_null s = (length s + 1) * 2"

text \<open>
  Where the three strings are put: \<open>at domn user h base\<close> are the pointers \<open>d\<close>, \<open>u\<close>, \<open>w\<close> of the
  code when the buffer starts at \<open>base\<close> and its header has \<open>h\<close> bytes.
\<close>

definition at_d :: "HANDLE \<Rightarrow> nat \<Rightarrow> HANDLE" where
  "at_d base h = base + of_nat h"

definition at_u :: "HANDLE \<Rightarrow> nat \<Rightarrow> wstring \<Rightarrow> HANDLE" where
  "at_u base h domn = base + of_nat (h + cb_null domn)"

definition at_w :: "HANDLE \<Rightarrow> nat \<Rightarrow> wstring \<Rightarrow> wstring \<Rightarrow> HANDLE" where
  "at_w base h domn user = base + of_nat (h + cb_null domn + cb_null user)"

text \<open>
  One of the four buffers of the file: \<open>rel\<close> is what is put before the offsets in the string
  headers, the address of the buffer (Kerberos) or zero (MSV1_0).
\<close>

definition make_blob ::
    "HANDLE \<Rightarrow> HANDLE \<Rightarrow> logon_type \<Rightarrow> nat \<Rightarrow> LUID option \<Rightarrow> wstring \<Rightarrow> wstring \<Rightarrow> wstring \<Rightarrow> logon_blob"
where
  "make_blob base rel t h lid domn user pass = \<lparr>
     address = base,
     MessageType = t,
     LogonDomainName = FillUS (at_d rel h) (of_nat (length domn * 2)) (of_nat (cb_null domn)),
     UserName = FillUS (at_u rel h domn) (of_nat (length user * 2)) (of_nat (cb_null user)),
     Password = FillUS (at_w rel h domn user) (of_nat (length pass * 2)) (of_nat (cb_null pass)),
     LogonId = lid,
     header_size = h,
     payload = c_str_bytes domn @ c_str_bytes user @ c_str_bytes pass\<rparr>"

definition packed_of :: "logon_blob \<Rightarrow> nat \<Rightarrow> 32 word \<Rightarrow> Packed" where
  "packed_of b cbT pkg = \<lparr>packed_blob = b, packed_size = of_nat cbT, packed_authPkg = pkg\<rparr>"

text \<open>The result is \<open>out\<close>, or \<open>None\<close> when the function returns false (and \<open>out\<close> is empty).\<close>

definition PackKerb ::
    "'w os_api \<Rightarrow> wstring \<Rightarrow> wstring \<Rightarrow> wstring \<Rightarrow> Scenario \<Rightarrow> (('w, 'x) auth_scheme, Packed option) state"
where
  "PackKerb A domainIn user pass scen =
     (if user = [] then State_Monad.return None
      else do {
        r \<leftarrow> ResolveNegotiate A;
        (case r of
           None \<Rightarrow> State_Monad.return None
         | Some pkg \<Rightarrow> do {
             domn \<leftarrow> (if domainIn = [] \<or> domainIn = wide ''.'' then LocalMachineName A
                    else State_Monad.return domainIn);
             let cbS = cb_null domn + cb_null user + cb_null pass;
             if scen = ScenLogon then do {
               let cbH = sizeof_KERB_INTERACTIVE_LOGON A;
               blob \<leftarrow> CoAllocZero A (cbH + cbS);
               State_Monad.return
                 (if blob = NULL_HANDLE then None
                  else Some (packed_of
                    (make_blob blob blob KerbInteractiveLogon cbH None domn user pass) (cbH + cbS) pkg))
             } else do {
               l \<leftarrow> GetConsoleLogonId A;
               (case l of
                  None \<Rightarrow> State_Monad.return None
                | Some lid \<Rightarrow> do {
                    let cbH = sizeof_KERB_INTERACTIVE_LOGON A + 8;
                    blob \<leftarrow> CoAllocZero A (cbH + cbS);
                    State_Monad.return
                      (if blob = NULL_HANDLE then None
                       else Some (packed_of
                         (make_blob blob blob KerbWorkstationUnlockLogon cbH (Some lid) domn user pass)
                         (cbH + cbS) pkg))
                  })
             }
           })
      })"

definition PackMsv ::
    "'w os_api \<Rightarrow> wstring \<Rightarrow> wstring \<Rightarrow> wstring \<Rightarrow> Scenario \<Rightarrow> (('w, 'x) auth_scheme, Packed option) state"
where
  "PackMsv A domainIn user pass scen =
     (if user = [] then State_Monad.return None
      else do {
        r \<leftarrow> ResolveMsv A;
        (case r of
           None \<Rightarrow> State_Monad.return None
         | Some pkg \<Rightarrow> do {
             let domn = (if domainIn = [] then wide ''.'' else domainIn);
             let cbS = cb_null domn + cb_null user + cb_null pass;
             if scen = ScenLogon then do {
               let cbH = sizeof_MSV1_0_INTERACTIVE_LOGON A;
               blob \<leftarrow> CoAllocZero A (cbH + cbS);
               State_Monad.return
                 (if blob = NULL_HANDLE then None
                  else Some (packed_of
                    (make_blob blob 0 MsV1_0InteractiveLogon cbH None domn user pass) (cbH + cbS) pkg))
             } else do {
               l \<leftarrow> GetConsoleLogonId A;
               (case l of
                  None \<Rightarrow> State_Monad.return None
                | Some lid \<Rightarrow> do {
                    let cbH = sizeof_MSV1_0_INTERACTIVE_LOGON A + 8;
                    blob \<leftarrow> CoAllocZero A (cbH + cbS);
                    State_Monad.return
                      (if blob = NULL_HANDLE then None
                       else Some (packed_of
                         (make_blob blob 0 MsV1_0WorkstationUnlockLogon cbH (Some lid) domn user pass)
                         (cbH + cbS) pkg))
                  })
             }
           })
      })"

definition PackAutoEx ::
    "'w os_api \<Rightarrow> wstring \<Rightarrow> wstring \<Rightarrow> wstring \<Rightarrow> Scenario \<Rightarrow> (('w, 'x) auth_scheme, Packed option) state"
where
  "PackAutoEx A domain user password scen =
     (if domain = [] \<or> domain = wide ''.'' then do {
        CpLog A ''PackAutoEx: Local account (domain='.') detected. Using PackMsv (NTLM).'' [];
        PackMsv A domain user password scen
      } else do {
        CpLog A ''PackAutoEx: Domain account detected. Using PackKerb (Kerberos).'' [];
        PackKerb A domain user password scen
      })"

section \<open>Reading a buffer back\<close>

fun bytes_wide :: "string \<Rightarrow> wstring" where
  "bytes_wide (l # h # r) = of_nat (of_char l + 256 * of_char h) # bytes_wide r"
| "bytes_wide _ = []"

text \<open>
  What the LSA reads through a string header: \<open>Length\<close> bytes from where \<open>Buffer\<close> points, as
  an offset from the start of the buffer (\<open>origin = 0\<close>) or as an address (\<open>origin\<close> the
  address of the buffer).
\<close>

definition read_us :: "HANDLE \<Rightarrow> logon_blob \<Rightarrow> UNICODE_STRING \<Rightarrow> wstring" where
  "read_us origin b u =
     bytes_wide (take (unat (us_Length u)) (drop (unat (us_Buffer u - origin) - header_size b) (payload b)))"

lemma length_wide_bytes [simp]: "length (wide_bytes s) = 2 * length s"
  by (induction s) (simp_all add: wide_bytes_def)

lemma wide_bytes_append: "wide_bytes (s @ t) = wide_bytes s @ wide_bytes t"
  by (simp add: wide_bytes_def)

lemma length_c_str_bytes [simp]: "length (c_str_bytes s) = cb_null s"
  by (simp add: c_str_bytes_def cb_null_def)

lemma of_char_small: "n < 256 \<Longrightarrow> of_char (char_of n :: char) = (n :: nat)"
  by simp

lemma wchar_bytes:
  fixes c :: wchar
  shows "of_nat (of_char (char_of (unat (c AND 0xFF)) :: char)
    + 256 * of_char (char_of (unat (drop_bit 8 c)) :: char)) = c"
proof -
  have lo: "unat (c AND 0xFF) = unat c mod 256"
  proof -
    have "unat (c AND 0xFF) = unat c AND mask 8"
      by (simp add: unsigned_and_eq mask_eq_exp_minus_1)
    then show ?thesis by (simp only: take_bit_eq_mask [symmetric] take_bit_eq_mod) simp
  qed
  have hi: "unat (drop_bit 8 c) = unat c div 256"
  proof -
    have "take_bit LENGTH(16) (unat c) = unat c" by (rule take_bit_nat_eq_self) (rule unsigned_less)
    then show ?thesis by (simp only: unsigned_drop_bit_eq) (simp only: drop_bit_eq_div, simp)
  qed
  have "unat c < 2 ^ 16" using unsigned_less [of c] by simp
  then have "unat c div 256 < 256" by auto
  then have "of_char (char_of (unat c mod 256) :: char) + 256 * of_char (char_of (unat c div 256) :: char)
    = unat c"
    by (simp only: of_char_small mod_less_divisor) simp
  then show ?thesis by (simp add: lo hi)
qed

lemma bytes_wide_inverse [simp]: "bytes_wide (wide_bytes s) = s"
  using wchar_bytes by (induction s) (simp_all add: wide_bytes_def)

lemma read_us_at:
  assumes "payload b = front @ c_str_bytes str @ rest"
    and "unat (us_Buffer u - origin) = header_size b + length front"
    and "unat (us_Length u) = length str * 2"
  shows "read_us origin b u = str"
  using assms by (simp add: read_us_def c_str_bytes_def wide_bytes_append)

lemma unat_of_nat_len: "n < 2 ^ LENGTH('a) \<Longrightarrow> unat (of_nat n :: 'a::len word) = n"
  by (simp add: unsigned_of_nat take_bit_nat_eq_self)

lemma unat_of_nat_64: "n < 2 ^ 64 \<Longrightarrow> unat (of_nat n :: 64 word) = n"
  by (rule unat_of_nat_len) simp

text \<open>The three strings come back, whichever way the pointers are read, if they fit.\<close>

definition fits :: "nat \<Rightarrow> wstring \<Rightarrow> wstring \<Rightarrow> wstring \<Rightarrow> bool" where
  "fits h domn user pass \<longleftrightarrow> h < 2 ^ 32 \<and> length domn < 32767 \<and> length user < 32767 \<and> length pass < 32767"

lemma make_blob_reads:
  assumes "fits h domn user pass"
  shows "read_us rel (make_blob base rel t h lid domn user pass)
      (LogonDomainName (make_blob base rel t h lid domn user pass)) = domn"
    and "read_us rel (make_blob base rel t h lid domn user pass)
      (UserName (make_blob base rel t h lid domn user pass)) = user"
    and "read_us rel (make_blob base rel t h lid domn user pass)
      (Password (make_blob base rel t h lid domn user pass)) = pass"
proof -
  have "h < 2 ^ 64" "h + cb_null domn < 2 ^ 64" "h + cb_null domn + cb_null user < 2 ^ 64"
    using assms by (simp_all add: fits_def cb_null_def)
  then have off: "unat (of_nat h :: HANDLE) = h"
    "unat (of_nat (h + cb_null domn) :: HANDLE) = h + cb_null domn"
    "unat (of_nat (h + cb_null domn + cb_null user) :: HANDLE) = h + cb_null domn + cb_null user"
    by (simp_all only: unat_of_nat_64)
  have len: "unat (of_nat (length domn * 2) :: USHORT) = length domn * 2"
    "unat (of_nat (length user * 2) :: USHORT) = length user * 2"
    "unat (of_nat (length pass * 2) :: USHORT) = length pass * 2"
    using assms by (auto simp: fits_def intro!: unat_of_nat_len simp del: of_nat_mult)
  show "read_us rel (make_blob base rel t h lid domn user pass)
      (LogonDomainName (make_blob base rel t h lid domn user pass)) = domn"
    by (rule read_us_at [where front = "[]"])
       (use off len in \<open>simp_all del: of_nat_add of_nat_mult add: make_blob_def FillUS_def at_d_def\<close>)
  show "read_us rel (make_blob base rel t h lid domn user pass)
      (UserName (make_blob base rel t h lid domn user pass)) = user"
    by (rule read_us_at [where front = "c_str_bytes domn"])
       (use off len in \<open>simp_all del: of_nat_add of_nat_mult add: make_blob_def FillUS_def at_u_def\<close>)
  show "read_us rel (make_blob base rel t h lid domn user pass)
      (Password (make_blob base rel t h lid domn user pass)) = pass"
    by (rule read_us_at [where front = "c_str_bytes domn @ c_str_bytes user" and rest = "[]"])
       (use off len in \<open>simp_all del: of_nat_add of_nat_mult add: make_blob_def FillUS_def at_w_def\<close>)
qed

section \<open>What the packers promise\<close>

lemma wp_CoTaskMemAlloc [wp_intro]:
  "(\<And>p w. p \<noteq> NULL_HANDLE \<Longrightarrow> Q p (s\<lparr>world := w, trace := MemAlloc p cb # trace s\<rparr>)) \<Longrightarrow>
   (\<And>w. Q NULL_HANDLE (s\<lparr>world := w\<rparr>)) \<Longrightarrow> wp (CoTaskMemAlloc A cb) Q s"
  unfolding CoTaskMemAlloc_def by (intro wp_intro) auto

lemma GetConsoleLogonId_frame: "wp (GetConsoleLogonId A) (\<lambda>_ s'. auth_frame s s') s"
  unfolding GetConsoleLogonId_def by (intro wp_intro) (auto simp: os_frame_def intro!: auth_frame_os)

lemma LocalMachineName_frame: "wp (LocalMachineName A) (\<lambda>_ s'. auth_frame s s') s"
  unfolding LocalMachineName_def by (intro wp_intro) (auto simp: os_frame_def intro!: auth_frame_os)

lemmas pack_calls = wp_mono [OF kerberos.resolve_frame] wp_mono [OF msv.resolve_frame]
  wp_mono [OF GetConsoleLogonId_frame] wp_mono [OF LocalMachineName_frame]

text \<open>
  \<open>packed_by rel t h lid domn user pass p\<close>: the result \<open>p\<close> is a buffer at a new address with
  these strings and a nonzero package id, and its size is that of the bytes.
\<close>

definition packed_by ::
    "bool \<Rightarrow> logon_type \<Rightarrow> nat \<Rightarrow> LUID option \<Rightarrow> wstring \<Rightarrow> wstring \<Rightarrow> wstring \<Rightarrow> Packed \<Rightarrow> bool" where
  "packed_by absolute t h lid domn user pass p \<longleftrightarrow>
     (\<exists>base. base \<noteq> NULL_HANDLE
        \<and> packed_blob p = make_blob base (if absolute then base else 0) t h lid domn user pass)
     \<and> packed_size p = of_nat (h + cb_null domn + cb_null user + cb_null pass)
     \<and> packed_authPkg p \<noteq> 0"

text \<open>
  \<open>pack_keeps s r s'\<close>: the frame of a packer.  Handles, locks and LSA connections are as
  before, one block of memory is allocated when it succeeds and none when it fails.
\<close>

definition pack_keeps :: "('w, 'x) auth_scheme \<Rightarrow> Packed option \<Rightarrow> ('w, 'x) auth_scheme \<Rightarrow> bool" where
  "pack_keeps s r s' \<longleftrightarrow> auth.more s' = auth.more s \<and> silent (trace s) (trace s')
     \<and> mem_net (trace s') = mem_net (trace s) + (if r = None then 0 else 1)"

lemma PackMsv_spec:
  "wp (PackMsv A domainIn user pass scen) (\<lambda>r s'. pack_keeps s r s' \<and> (\<forall>p. r = Some p \<longrightarrow>
     user \<noteq> [] \<and> (\<exists>lid. packed_by False
       (if scen = ScenLogon then MsV1_0InteractiveLogon else MsV1_0WorkstationUnlockLogon)
       (sizeof_MSV1_0_INTERACTIVE_LOGON A + (if scen = ScenLogon then 0 else 8)) lid
       (if domainIn = [] then wide ''.'' else domainIn) user pass p
       \<and> (lid = None \<longleftrightarrow> scen = ScenLogon)))) s"
  unfolding PackMsv_def CoAllocZero_def Let_def
  by (intro wp_intro pack_calls)
     (auto simp: pack_keeps_def packed_by_def packed_of_def make_blob_def add.assoc
        auth_frame_def)

lemma PackKerb_spec:
  "wp (PackKerb A domainIn user pass scen) (\<lambda>r s'. pack_keeps s r s' \<and> (\<forall>p. r = Some p \<longrightarrow>
     user \<noteq> [] \<and> (\<exists>lid domn. packed_by True
       (if scen = ScenLogon then KerbInteractiveLogon else KerbWorkstationUnlockLogon)
       (sizeof_KERB_INTERACTIVE_LOGON A + (if scen = ScenLogon then 0 else 8)) lid
       domn user pass p
       \<and> (lid = None \<longleftrightarrow> scen = ScenLogon)
       \<and> (domainIn \<noteq> [] \<and> domainIn \<noteq> wide ''.'' \<longrightarrow> domn = domainIn)))) s"
  unfolding PackKerb_def CoAllocZero_def Let_def
  by (intro wp_intro pack_calls)
     (auto simp: pack_keeps_def packed_by_def packed_of_def make_blob_def add.assoc
        auth_frame_def)

section \<open>The serializer as an interface\<close>

text \<open>
  What \<open>GetSerialization\<close> needs of a packer: it keeps the frame, and a buffer it returns has a
  package id and is owned by the caller.
\<close>

locale packer =
  fixes pack :: "(('w, 'x) auth_scheme, Packed option) state"
  assumes pack_frame: "wp pack (\<lambda>r s'. pack_keeps s r s') s"
    and pack_valid: "wp pack (\<lambda>r s'. \<forall>p. r = Some p \<longrightarrow> packed_authPkg p \<noteq> 0
      \<and> address (packed_blob p) \<noteq> NULL_HANDLE) s"
begin

lemma pack_contract:
  "wp pack (\<lambda>r s'. pack_keeps s r s' \<and> (\<forall>p. r = Some p \<longrightarrow> packed_authPkg p \<noteq> 0
      \<and> address (packed_blob p) \<noteq> NULL_HANDLE)) s"
  by (rule wp_conj [OF pack_frame pack_valid])

lemma pack_no_leak:
  "run_state pack s = (None, s') \<Longrightarrow> mem_net (trace s') = mem_net (trace s)"
  using wp_run [OF _ pack_frame] by (simp add: pack_keeps_def)

end

lemma packed_by_valid:
  "packed_by absolute t h lid domn user pass p \<Longrightarrow>
   packed_authPkg p \<noteq> 0 \<and> address (packed_blob p) \<noteq> NULL_HANDLE"
  by (auto simp: packed_by_def make_blob_def)

interpretation msv_packer: packer "PackMsv A domn user pass scen" for A domn user pass scen
  by unfold_locales (rule wp_mono [OF PackMsv_spec], auto dest: packed_by_valid)+

interpretation kerb_packer: packer "PackKerb A domn user pass scen" for A domn user pass scen
  by unfold_locales (rule wp_mono [OF PackKerb_spec], auto dest: packed_by_valid)+

lemma pack_keeps_log:
  "pack_keeps (s\<lparr>world := w, trace := Log m args # trace s\<rparr>) r s' \<longleftrightarrow> pack_keeps s r s'"
  by (simp add: pack_keeps_def)

interpretation auto_packer: packer "PackAutoEx A domn user pass scen" for A domn user pass scen
proof (unfold_locales, unfold PackAutoEx_def, goal_cases)
  case (1 s)
  show ?case
    by (intro wp_intro; rule wp_mono [OF msv_packer.pack_frame] wp_mono [OF kerb_packer.pack_frame])
       (simp_all add: pack_keeps_log)
next
  case (2 s)
  show ?case
    by (intro wp_intro; rule msv_packer.pack_valid kerb_packer.pack_valid)
qed

section \<open>Properties\<close>

lemma PackAutoEx_local:
  assumes "domn = [] \<or> domn = wide ''.''"
  shows "run_state (PackAutoEx A domn user pass scen) s = (r, s') \<Longrightarrow>
    \<exists>t. run_state (PackMsv A domn user pass scen) t = (r, s')"
  using assms by (auto simp: PackAutoEx_def split: prod.splits)

lemma PackAutoEx_domain:
  assumes "domn \<noteq> []" "domn \<noteq> wide ''.''"
  shows "run_state (PackAutoEx A domn user pass scen) s = (r, s') \<Longrightarrow>
    \<exists>t. run_state (PackKerb A domn user pass scen) t = (r, s')"
  using assms by (auto simp: PackAutoEx_def split: prod.splits)


text \<open>
  C32: for a domain account the string headers hold addresses, not offsets: the strings are
  read back only with the address of the buffer as origin, and no header is the offset of its
  string (the buffer does not survive being copied to another address).
\<close>

theorem kerb_buffer_holds_addresses:
  assumes "run_state (PackAutoEx A domn user pass ScenLogon) s = (Some p, s')"
    and "domn \<noteq> []" and "domn \<noteq> wide ''.''"
    and "fits (sizeof_KERB_INTERACTIVE_LOGON A) domn user pass"
  shows "let b = packed_blob p in
    read_us (address b) b (LogonDomainName b) = domn
    \<and> read_us (address b) b (UserName b) = user
    \<and> read_us (address b) b (Password b) = pass
    \<and> us_Buffer (UserName b) \<noteq> of_nat (header_size b + cb_null domn)"
proof -
  obtain t where "run_state (PackKerb A domn user pass ScenLogon) t = (Some p, s')"
    using PackAutoEx_domain [OF assms(2,3,1)] by blast
  from wp_run [OF this PackKerb_spec] assms(2,3)
  obtain base lid where base: "base \<noteq> NULL_HANDLE" and b: "packed_blob p = make_blob base base KerbInteractiveLogon
      (sizeof_KERB_INTERACTIVE_LOGON A) lid domn user pass"
    by (auto simp: packed_by_def)
  have a: "address (packed_blob p) = base" by (simp add: b make_blob_def)
  show ?thesis
    unfolding Let_def a using make_blob_reads [OF assms(4)] base
    by (simp add: b) (simp add: make_blob_def FillUS_def at_u_def)
qed

text \<open>
  C33: the byte lengths are stored in 16 bits.  A password of 32768 code units or more (the pipe
  carries messages of up to 256 KB) is packed as a shorter one, and the packer reports success.
\<close>

theorem long_password_is_cut:
  assumes "run_state (PackMsv A domn user pass scen) s = (Some p, s')"
    and "32768 \<le> length pass"
  shows "unat (us_Length (Password (packed_blob p))) = length pass * 2 mod 65536
    \<and> unat (us_Length (Password (packed_blob p))) < length pass * 2"
proof -
  from wp_run [OF assms(1) PackMsv_spec]
  obtain base t h lid d where "packed_blob p = make_blob base 0 t h lid d user pass"
    by (auto simp: packed_by_def)
  then have "unat (us_Length (Password (packed_blob p))) = length pass * 2 mod 65536"
    by (simp add: make_blob_def FillUS_def unsigned_of_nat take_bit_eq_mod del: of_nat_mult)
  moreover have "length pass * 2 mod 65536 < length pass * 2"
    using assms(2) mod_less_divisor [of 65536 "length pass * 2"] by linarith
  ultimately show ?thesis by simp
qed

text \<open>
  On each way out of \<open>PackAutoEx\<close> every handle and LSA connection it opened is closed; it
  leaves exactly one allocated block when it succeeds and none when it fails.
\<close>

theorem pack_keeps_resources:
  "case run_state (PackAutoEx A domn user pass scen) s of (r, s') \<Rightarrow>
     (\<forall>h. net h (trace s') = net h (trace s)) \<and> (\<forall>h. lsa_net h (trace s') = lsa_net h (trace s))
     \<and> mem_net (trace s') = mem_net (trace s) + of_bool (r \<noteq> None)"
  using auto_packer.pack_frame [of A domn user pass scen s]
  by (simp add: wp_def pack_keeps_def split: prod.splits)

section \<open>Witnesses\<close>

lemma demo_pack:
  "\<exists>p s'. run_state (PackAutoEx (talking_api []) (wide ''.'') (wide ''kim'') (wide ''pw'') ScenLogon)
      start_auth = (Some p, s')"
  by (simp add: PackAutoEx_def PackMsv_def ResolveMsv_def ResolvePkgCached_def ResolvePkgA_def
      closeLsa_def CoAllocZero_def CoTaskMemAlloc_def start_auth_def
      start_sys_def sys.defs auth.defs run_ask emit_def CpLog_def CpLogText_def when_do_def talking_api_def demo_defs
      wide_def Let_def)

lemma demo_sizes [simp]:
  "sizeof_MSV1_0_INTERACTIVE_LOGON (talking_api m) = 56" "sizeof_KERB_INTERACTIVE_LOGON (talking_api m) = 56"
  by (simp_all add: talking_api_def demo_defs)


lemma demo_pack_kerb:
  "\<exists>p s'. run_state (PackAutoEx (talking_api []) (wide ''CORP'') (wide ''kim'') (wide ''pw'') ScenLogon)
      start_auth = (Some p, s')"
  by (simp add: PackAutoEx_def PackKerb_def ResolveNegotiate_def ResolvePkgCached_def ResolvePkgA_def
      closeLsa_def CoAllocZero_def CoTaskMemAlloc_def start_auth_def
      start_sys_def sys.defs auth.defs run_ask emit_def CpLog_def CpLogText_def when_do_def talking_api_def demo_defs
      wide_def Let_def)

lemma kerb_buffer_holds_addresses_witness:
  "\<exists>p::Packed. us_Buffer (UserName (packed_blob p)) \<noteq> of_nat (header_size (packed_blob p) + cb_null (wide ''CORP''))"
proof -
  obtain p s' where p: "run_state (PackAutoEx (talking_api []) (wide ''CORP'') (wide ''kim'') (wide ''pw'') ScenLogon)
      start_auth = (Some p, s')"
    using demo_pack_kerb by blast
  have "fits (sizeof_KERB_INTERACTIVE_LOGON (talking_api [])) (wide ''CORP'') (wide ''kim'') (wide ''pw'')"
    and "wide ''CORP'' \<noteq> []" and "wide ''CORP'' \<noteq> wide ''.''"
    by (simp_all add: fits_def wide_def)
  from kerb_buffer_holds_addresses [OF p this(2,3,1)] show ?thesis
    unfolding Let_def by blast
qed

lemma demo_pack_long:
  "\<exists>p s'. run_state (PackMsv (talking_api []) (wide ''.'') (wide ''kim'') (replicate 32768 0x41) ScenLogon)
      start_auth = (Some p, s')"
  by (simp add: PackMsv_def ResolveMsv_def ResolvePkgCached_def ResolvePkgA_def
      closeLsa_def CoAllocZero_def CoTaskMemAlloc_def start_auth_def
      start_sys_def sys.defs auth.defs run_ask emit_def CpLog_def CpLogText_def when_do_def talking_api_def demo_defs
      wide_def Let_def)

lemma long_password_is_cut_witness:
  "\<exists>p::Packed. unat (us_Length (Password (packed_blob p))) = 0
     \<and> (\<exists>s'. run_state (PackMsv (talking_api []) (wide ''.'') (wide ''kim'') (replicate 32768 0x41) ScenLogon)
          start_auth = (Some p, s'))"
proof -
  obtain p s' where p: "run_state (PackMsv (talking_api []) (wide ''.'') (wide ''kim'')
      (replicate 32768 0x41) ScenLogon) start_auth = (Some p, s')"
    using demo_pack_long by blast
  from long_password_is_cut [OF p] p show ?thesis by auto
qed

end
