(* ===== verification/Provider_State.thy ===== *)
theory Provider_State
  imports Logon_Packing
begin

text \<open>
  \<open>src/src/core/Provider.cpp\<close>: the flags that all threads of the provider share, the rate
  limit of automatic submits, the session generation, the event sink of LogonUI and the
  thread-pool timer that asks LogonUI to enumerate again.
\<close>

section \<open>State\<close>

record CredRefreshAsyncCtx =
  ctx_events :: HANDLE
  ctx_context :: "64 word"
  ctx_sessionGeneration :: LONG
  ctx_timer :: HANDLE

text \<open>
  \<open>timers\<close> are the contexts whose timer is armed and has not fired, \<open>callbacks\<close> those whose
  callback is running: together they are the contexts allocated and not yet deleted.
\<close>

record 'w prov = "'w auth" +
  g_brokerSessionActive :: LONG
  g_brokerAwaitingFinal :: LONG
  g_refreshPending :: LONG
  g_brokerSessionAutoSubmitTick :: LONG
  g_forceNextAutoSubmit :: LONG
  g_brokerSessionGeneration :: LONG
  g_cpEvents :: HANDLE
  g_cpEventsContext :: "64 word"
  timers :: "CredRefreshAsyncCtx list"
  callbacks :: "CredRefreshAsyncCtx list"

section \<open>Flags, generation and the rate limit\<close>

definition GetBrokerSessionGeneration :: "(('w, 'x) prov_scheme, LONG) state" where
  "GetBrokerSessionGeneration = gets g_brokerSessionGeneration"

definition IsCurrentSessionGeneration :: "LONG \<Rightarrow> (('w, 'x) prov_scheme, bool) state" where
  "IsCurrentSessionGeneration generation = do {
     g \<leftarrow> GetBrokerSessionGeneration;
     State_Monad.return (generation = g)
   }"

definition TryAcquireAutoSubmitWindow :: "'w os_api \<Rightarrow> DWORD \<Rightarrow> (('w, 'x) prov_scheme, bool) state" where
  "TryAcquireAutoSubmitWindow A minIntervalMs = do {
     nowTick \<leftarrow> ask (os_GetTickCount A);
     lastTick \<leftarrow> gets g_brokerSessionAutoSubmitTick;
     let elapsed = nowTick - lastTick;
     if lastTick = 0 \<or> minIntervalMs \<le> elapsed then do {
       modify (\<lambda>s. s\<lparr>g_brokerSessionAutoSubmitTick := nowTick\<rparr>);
       State_Monad.return True
     } else State_Monad.return False
   }"

definition MarkAutoSubmitTickNow :: "'w os_api \<Rightarrow> (('w, 'x) prov_scheme, unit) state" where
  "MarkAutoSubmitTickNow A = do {
     t \<leftarrow> ask (os_GetTickCount A);
     modify (\<lambda>s. s\<lparr>g_brokerSessionAutoSubmitTick := t\<rparr>)
   }"

definition IsBrokerSessionActive :: "(('w, 'x) prov_scheme, bool) state" where
  "IsBrokerSessionActive = gets (\<lambda>s. g_brokerSessionActive s \<noteq> 0)"

definition SetBrokerSessionActive :: "bool \<Rightarrow> (('w, 'x) prov_scheme, unit) state" where
  "SetBrokerSessionActive active = do {
     modify (\<lambda>s. s\<lparr>g_brokerSessionActive := (if active then 1 else 0)\<rparr>);
     when_do (\<not> active) (do {
       modify (\<lambda>s. s\<lparr>g_brokerAwaitingFinal := 0\<rparr>);
       modify (\<lambda>s. s\<lparr>g_brokerSessionAutoSubmitTick := 0\<rparr>);
       modify (\<lambda>s. s\<lparr>g_brokerSessionGeneration := g_brokerSessionGeneration s + 1\<rparr>)
     })
   }"

definition IsBrokerAwaitingFinal :: "(('w, 'x) prov_scheme, bool) state" where
  "IsBrokerAwaitingFinal = gets (\<lambda>s. g_brokerAwaitingFinal s \<noteq> 0)"

definition SetBrokerAwaitingFinal :: "bool \<Rightarrow> (('w, 'x) prov_scheme, unit) state" where
  "SetBrokerAwaitingFinal awaiting = do {
     modify (\<lambda>s. s\<lparr>g_brokerAwaitingFinal := (if awaiting then 1 else 0)\<rparr>);
     when_do awaiting (modify (\<lambda>s. s\<lparr>g_brokerSessionAutoSubmitTick := 0\<rparr>))
   }"

definition ArmForceNextAutoSubmit :: "(('w, 'x) prov_scheme, unit) state" where
  "ArmForceNextAutoSubmit = modify (\<lambda>s. s\<lparr>g_forceNextAutoSubmit := 1\<rparr>)"

definition ResetForceNextAutoSubmit :: "(('w, 'x) prov_scheme, unit) state" where
  "ResetForceNextAutoSubmit = modify (\<lambda>s. s\<lparr>g_forceNextAutoSubmit := 0\<rparr>)"

definition ConsumeForceNextAutoSubmit :: "(('w, 'x) prov_scheme, bool) state" where
  "ConsumeForceNextAutoSubmit = do {
     prior \<leftarrow> gets g_forceNextAutoSubmit;
     when_do (prior = 1) (modify (\<lambda>s. s\<lparr>g_forceNextAutoSubmit := 0\<rparr>));
     State_Monad.return (prior = 1)
   }"

lemmas flag_defs = GetBrokerSessionGeneration_def IsCurrentSessionGeneration_def
  IsBrokerSessionActive_def SetBrokerSessionActive_def IsBrokerAwaitingFinal_def
  SetBrokerAwaitingFinal_def ArmForceNextAutoSubmit_def ResetForceNextAutoSubmit_def
  ConsumeForceNextAutoSubmit_def TryAcquireAutoSubmitWindow_def MarkAutoSubmitTickNow_def

section \<open>The refresh timer\<close>

text \<open>\<open>due.QuadPart\<close>: minus the delay in units of 100 nanoseconds.\<close>

definition due_time :: "DWORD \<Rightarrow> 64 word" where
  "due_time delayMs = - (ucast delayMs * 10000)"

definition clear_pending :: "(('w, 'x) prov_scheme, unit) state" where
  "clear_pending = modify (\<lambda>s. s\<lparr>g_refreshPending := 0\<rparr>)"

definition RequestCredentialsChangedAsync ::
    "'w os_api \<Rightarrow> DWORD \<Rightarrow> LONG \<Rightarrow> (('w, 'x) prov_scheme, unit) state" where
  "RequestCredentialsChangedAsync A delayMs sessionGeneration = do {
     gen \<leftarrow> (if sint sessionGeneration \<le> 0 then GetBrokerSessionGeneration
            else State_Monad.return sessionGeneration);
     pending \<leftarrow> gets g_refreshPending;
     if pending \<noteq> 0 then State_Monad.return ()
     else do {
       modify (\<lambda>s. s\<lparr>g_refreshPending := 1\<rparr>);
       emit A (Acquire EventsLock);
       events \<leftarrow> gets g_cpEvents;
       context \<leftarrow> gets g_cpEventsContext;
       when_do (events \<noteq> NULL_HANDLE) (emit A (SinkAddRef events));
       emit A (Release EventsLock);
       if events = NULL_HANDLE then clear_pending
       else do {
         ok \<leftarrow> ask (os_new A);
         if \<not> ok then do {
           emit A (SinkRelease events);
           clear_pending
         } else do {
           timer \<leftarrow> ask (os_CreateThreadpoolTimer A);
           if timer = NULL_HANDLE then do {
             emit A (SinkRelease events);
             clear_pending
           } else do {
             modify (\<lambda>s. s\<lparr>timers := \<lparr>ctx_events = events, ctx_context = context,
               ctx_sessionGeneration = gen, ctx_timer = timer\<rparr> # timers s\<rparr>);
             emit A (TimerArmed timer (due_time delayMs))
           }
         }
       }
     }
   }"

text \<open>
  The timer's callback.  It calls out to LogonUI, which may call back in from its own thread,
  so its two halves are also steps of their own: the notification, and what follows it.
\<close>

definition callback_notify :: "'w os_api \<Rightarrow> CredRefreshAsyncCtx \<Rightarrow> (('w, 'x) prov_scheme, unit) state" where
  "callback_notify A ctx = do {
     current \<leftarrow> IsCurrentSessionGeneration (ctx_sessionGeneration ctx);
     when_do current (emit A (SinkChanged (ctx_events ctx) (ctx_context ctx)))
   }"

definition callback_finish :: "'w os_api \<Rightarrow> CredRefreshAsyncCtx \<Rightarrow> (('w, 'x) prov_scheme, unit) state" where
  "callback_finish A ctx = do {
     emit A (SinkRelease (ctx_events ctx));
     when_do (ctx_timer ctx \<noteq> NULL_HANDLE) (emit A (TimerClosed (ctx_timer ctx)));
     modify (\<lambda>s. s\<lparr>callbacks := remove1 ctx (callbacks s)\<rparr>);
     clear_pending
   }"

definition CredRefreshTimerCallback ::
    "'w os_api \<Rightarrow> CredRefreshAsyncCtx option \<Rightarrow> (('w, 'x) prov_scheme, unit) state" where
  "CredRefreshTimerCallback A context =
     (case context of
        None \<Rightarrow> clear_pending
      | Some ctx \<Rightarrow>
          if ctx_events ctx = NULL_HANDLE then clear_pending
          else do { callback_notify A ctx; callback_finish A ctx })"

text \<open>The thread pool takes an armed timer and starts its callback.\<close>

definition fire :: "CredRefreshAsyncCtx \<Rightarrow> ('w, 'x) prov_scheme \<Rightarrow> ('w, 'x) prov_scheme" where
  "fire ctx s = s\<lparr>timers := remove1 ctx (timers s), callbacks := ctx # callbacks s\<rparr>"

section \<open>The event sink\<close>

definition SetProviderEvents :: "'w os_api \<Rightarrow> HANDLE \<Rightarrow> 64 word \<Rightarrow> (('w, 'x) prov_scheme, unit) state" where
  "SetProviderEvents A events context = do {
     emit A (Acquire EventsLock);
     old \<leftarrow> gets g_cpEvents;
     when_do (old \<noteq> NULL_HANDLE) (do {
       emit A (SinkRelease old);
       modify (\<lambda>s. s\<lparr>g_cpEvents := NULL_HANDLE\<rparr>)
     });
     modify (\<lambda>s. s\<lparr>g_cpEventsContext := context\<rparr>);
     modify (\<lambda>s. s\<lparr>g_cpEvents := events\<rparr>);
     when_do (events \<noteq> NULL_HANDLE) (emit A (SinkAddRef events));
     emit A (Release EventsLock)
   }"

definition ClearProviderEvents :: "'w os_api \<Rightarrow> (('w, 'x) prov_scheme, unit) state" where
  "ClearProviderEvents A = do {
     emit A (Acquire EventsLock);
     old \<leftarrow> gets g_cpEvents;
     when_do (old \<noteq> NULL_HANDLE) (do {
       emit A (SinkRelease old);
       modify (\<lambda>s. s\<lparr>g_cpEvents := NULL_HANDLE\<rparr>)
     });
     modify (\<lambda>s. s\<lparr>g_cpEventsContext := 0\<rparr>);
     emit A (Release EventsLock)
   }"

section \<open>Invariants\<close>

text \<open>At most one refresh exists, and exactly when \<open>g_refreshPending\<close> is set.\<close>

definition refresh_wf :: "('w, 'x) prov_scheme \<Rightarrow> bool" where
  "refresh_wf s \<longleftrightarrow> length (timers s) + length (callbacks s) = (if g_refreshPending s = 0 then 0 else 1)
     \<and> (\<forall>c \<in> set (timers s @ callbacks s). ctx_events c \<noteq> NULL_HANDLE \<and> ctx_timer c \<noteq> NULL_HANDLE)"

text \<open>Every reference the provider took on a sink is accounted for by a variable.\<close>

definition sink_wf :: "('w, 'x) prov_scheme \<Rightarrow> bool" where
  "sink_wf s \<longleftrightarrow> (\<forall>e. e \<noteq> NULL_HANDLE \<longrightarrow>
     sink_net e (trace s) = of_bool (g_cpEvents s = e)
       + int (count_list (map ctx_events (timers s @ callbacks s)) e))"

definition events_free :: "('w, 'x) sys_scheme \<Rightarrow> bool" where
  "events_free s \<longleftrightarrow> holds EventsLock (trace s) = Some False"

definition prov_wf :: "('w, 'x) prov_scheme \<Rightarrow> bool" where
  "prov_wf s \<longleftrightarrow> refresh_wf s \<and> sink_wf s \<and> events_free s"

text \<open>What the layers above may rely on.\<close>

definition prov_frame :: "('w, 'x) prov_scheme \<Rightarrow> ('w, 'x) prov_scheme \<Rightarrow> bool" where
  "prov_frame s s' \<longleftrightarrow> prov.more s' = prov.more s \<and> quiet (trace s) (trace s')
     \<and> mem_net (trace s') = mem_net (trace s)"

lemmas prov_wf_defs = prov_wf_def refresh_wf_def sink_wf_def events_free_def

lemma prov_frame_refl [simp]: "prov_frame s s"
  by (simp add: prov_frame_def)

lemma prov_wf_log [simp]:
  "prov_wf (s\<lparr>world := w\<rparr>) = prov_wf s"
  "prov_wf (s\<lparr>world := w, trace := Log m args # trace s\<rparr>) = prov_wf s"
  by (simp_all add: prov_wf_defs)

text \<open>
  An operation of this component: it keeps the invariant, touches nothing of the layers
  above, and leaves every handle and lock as it was.
\<close>

locale prov_op =
  fixes op :: "(('w, 'x) prov_scheme, 'a) state"
  assumes op_wf: "prov_wf s \<Longrightarrow> wp op (\<lambda>_ s'. prov_wf s') s"
    and op_frame: "events_free s \<Longrightarrow> wp op (\<lambda>_ s'. prov_frame s s') s"
begin

lemma op_safe: "prov_wf s \<Longrightarrow> wp op (\<lambda>_ s'. prov_wf s' \<and> prov_frame s s') s"
  by (rule wp_conj [OF op_wf op_frame]) (simp_all add: prov_wf_def)

lemma op_run:
  assumes "prov_wf s" and "run_state op s = (r, s')"
  shows "prov_wf s' \<and> prov_frame s s'"
  by (rule wp_run [OF assms(2) op_safe [OF assms(1)]])

end

interpretation set_active: prov_op "SetBrokerSessionActive b" for b
  by unfold_locales (simp_all add: flag_defs wp_simps prov_wf_defs prov_frame_def)

interpretation set_awaiting: prov_op "SetBrokerAwaitingFinal b" for b
  by unfold_locales (simp_all add: flag_defs wp_simps prov_wf_defs prov_frame_def)

interpretation arm_force: prov_op ArmForceNextAutoSubmit
  by unfold_locales (simp_all add: flag_defs wp_simps prov_wf_defs prov_frame_def)

interpretation reset_force: prov_op ResetForceNextAutoSubmit
  by unfold_locales (simp_all add: flag_defs wp_simps prov_wf_defs prov_frame_def)

interpretation consume_force: prov_op ConsumeForceNextAutoSubmit
  by unfold_locales (simp_all add: flag_defs wp_simps prov_wf_defs prov_frame_def)

interpretation acquire_window: prov_op "TryAcquireAutoSubmitWindow A t" for A t
  by unfold_locales (simp_all add: flag_defs wp_simps prov_wf_defs prov_frame_def Let_def)

interpretation mark_tick: prov_op "MarkAutoSubmitTickNow A" for A
  by unfold_locales (simp_all add: flag_defs wp_simps prov_wf_defs prov_frame_def)

interpretation request: prov_op "RequestCredentialsChangedAsync A d g" for A d g
proof (unfold_locales, goal_cases)
  case (1 s)
  then show ?case
    unfolding RequestCredentialsChangedAsync_def clear_pending_def flag_defs
    by (intro wp_intro) (auto simp: prov_wf_defs split: if_splits)
next
  case (2 s)
  then show ?case
    unfolding RequestCredentialsChangedAsync_def clear_pending_def flag_defs
    by (intro wp_intro) (auto simp: prov_frame_def events_free_def)
qed

text \<open>A request moves nothing but the pending flag and the list of timers.\<close>

definition request_keeps :: "('w, 'x) prov_scheme \<Rightarrow> ('w, 'x) prov_scheme \<Rightarrow> bool" where
  "request_keeps s s' \<longleftrightarrow> g_brokerSessionActive s' = g_brokerSessionActive s
     \<and> g_brokerAwaitingFinal s' = g_brokerAwaitingFinal s
     \<and> g_brokerSessionAutoSubmitTick s' = g_brokerSessionAutoSubmitTick s
     \<and> g_forceNextAutoSubmit s' = g_forceNextAutoSubmit s
     \<and> g_brokerSessionGeneration s' = g_brokerSessionGeneration s
     \<and> g_cpEvents s' = g_cpEvents s \<and> g_cpEventsContext s' = g_cpEventsContext s \<and> callbacks s' = callbacks s
     \<and> prov_frame s s'"

lemma request_safe:
  assumes "prov_wf s"
  shows "wp (RequestCredentialsChangedAsync A d g) (\<lambda>_ s'. prov_wf s' \<and> request_keeps s s') s"
proof (rule wp_conj [OF request.op_wf [OF assms]])
  show "wp (RequestCredentialsChangedAsync A d g) (\<lambda>_ s'. request_keeps s s') s"
    using assms unfolding RequestCredentialsChangedAsync_def clear_pending_def flag_defs
    by (intro wp_intro) (auto simp: request_keeps_def prov_frame_def prov_wf_defs)
qed

interpretation set_events: prov_op "SetProviderEvents A e c" for A e c
proof (unfold_locales, goal_cases)
  case (1 s)
  then show ?case
    unfolding SetProviderEvents_def by (intro wp_intro) (auto simp: prov_wf_defs)
next
  case (2 s)
  then show ?case
    unfolding SetProviderEvents_def by (intro wp_intro) (auto simp: prov_frame_def events_free_def)
qed

interpretation clear_events: prov_op "ClearProviderEvents A" for A
proof (unfold_locales, goal_cases)
  case (1 s)
  then show ?case
    unfolding ClearProviderEvents_def by (intro wp_intro) (auto simp: prov_wf_defs)
next
  case (2 s)
  then show ?case
    unfolding ClearProviderEvents_def by (intro wp_intro) (auto simp: prov_frame_def events_free_def)
qed

interpretation notify: prov_op "callback_notify A ctx" for A ctx
proof (unfold_locales, goal_cases)
  case (1 s)
  then show ?case
    unfolding callback_notify_def flag_defs by (intro wp_intro) (auto simp: prov_wf_defs)
next
  case (2 s)
  then show ?case
    unfolding callback_notify_def flag_defs by (intro wp_intro) (auto simp: prov_frame_def)
qed

lemma remove1_single: "length xs + length ys = Suc 0 \<Longrightarrow> c \<in> set xs \<Longrightarrow> xs = [c] \<and> ys = []"
  by (cases xs) auto

lemma fire_wf:
  "prov_wf s \<Longrightarrow> ctx \<in> set (timers s) \<Longrightarrow>
   prov_wf (fire ctx s) \<and> timers (fire ctx s) = [] \<and> callbacks (fire ctx s) = [ctx]"
  using remove1_single [of "timers s" "callbacks s" ctx]
  by (auto simp: prov_wf_defs fire_def split: if_splits)

lemma fire_frame [simp]: "prov_frame s (fire ctx s)"
  by (simp add: prov_frame_def fire_def)

text \<open>
  The end of the callback gives the reference back and clears the flag, so the next request
  can arm a timer again.
\<close>

lemma callback_finish_wf:
  assumes "prov_wf s" and "ctx \<in> set (callbacks s)"
  shows "wp (callback_finish A ctx) (\<lambda>_ t. prov_wf t \<and> prov_frame s t
    \<and> g_refreshPending t = 0 \<and> timers t = [] \<and> callbacks t = []) s"
proof -
  have "callbacks s = [ctx] \<and> timers s = []"
    using assms remove1_single [of "callbacks s" "timers s" ctx]
    by (auto simp: prov_wf_defs add.commute split: if_splits)
  then show ?thesis
    using assms unfolding callback_finish_def clear_pending_def
    by (intro wp_intro) (auto simp: prov_wf_defs prov_frame_def)
qed

section \<open>Properties\<close>

text \<open>
  C12: after an automatic submit was granted at a nonzero tick, the next one is granted exactly
  when at least \<open>minIntervalMs\<close> have passed since (modulo 2 to the 32), unless the session was
  reset in between; a refusal changes no flag.
\<close>

theorem autosubmit_is_rate_limited:
  assumes "run_state (TryAcquireAutoSubmitWindow A minIntervalMs) s = (True, t)"
    and "g_brokerSessionAutoSubmitTick t \<noteq> 0"
    and "g_brokerSessionAutoSubmitTick u = g_brokerSessionAutoSubmitTick t"
  shows "case run_state (TryAcquireAutoSubmitWindow A minIntervalMs) u of (granted, v) \<Rightarrow>
    (granted \<longleftrightarrow> minIntervalMs \<le> fst (os_GetTickCount A (world u)) - fst (os_GetTickCount A (world s)))
    \<and> (\<not> granted \<longrightarrow> v = u\<lparr>world := world v\<rparr>)"
proof -
  have "g_brokerSessionAutoSubmitTick t = fst (os_GetTickCount A (world s))"
    using assms(1) by (auto simp: TryAcquireAutoSubmitWindow_def run_ask Let_def split: if_splits)
  then show ?thesis
    using assms(2,3) by (auto simp: TryAcquireAutoSubmitWindow_def run_ask Let_def)
qed


text \<open>
  C16: a refresh requested while one is pending is dropped, and the flag is still set while
  the pending one's callback tells LogonUI to enumerate again: what LogonUI asks for in answer
  to that call is lost.  When the callback is over no timer is armed.
\<close>

theorem refresh_in_callback_is_lost:
  assumes "prov_wf s" and "ctx \<in> set (timers s)"
    and "run_state (callback_notify A ctx) (fire ctx s) = ((), t)"
    and "run_state (RequestCredentialsChangedAsync A delayMs gen) t = ((), u)"
    and "run_state (callback_finish A ctx) u = ((), v)"
  shows "u = t \<and> timers v = [] \<and> g_refreshPending v = 0"
proof -
  have wf: "prov_wf (fire ctx s)" "callbacks (fire ctx s) = [ctx]"
    using fire_wf [OF assms(1,2)] by auto
  have "prov_wf t" using notify.op_run [OF wf(1) assms(3)] by simp
  have cb: "callbacks t = [ctx]"
    using wp_run [OF assms(3), of "\<lambda>_ t. callbacks t = [ctx]"] wf
    by (simp add: callback_notify_def flag_defs wp_simps)
  then have "g_refreshPending t \<noteq> 0"
    using \<open>prov_wf t\<close> by (auto simp: prov_wf_defs)
  then have "u = t"
    using assms(4) by (simp add: RequestCredentialsChangedAsync_def flag_defs split: if_splits)
  moreover have "timers v = [] \<and> g_refreshPending v = 0"
    using wp_run [OF assms(5) callback_finish_wf] \<open>prov_wf t\<close> cb \<open>u = t\<close> by simp
  ultimately show ?thesis by simp
qed

text \<open>
  With no refresh pending, a sink registered and memory and timer to be had, a request
  takes one reference on the sink and arms exactly one timer, due after the delay, that
  carries the generation asked for (the current one if none is given).
\<close>

theorem request_arms_timer:
  assumes "g_refreshPending s = 0" and "g_cpEvents s \<noteq> NULL_HANDLE"
    and "\<And>w. fst (os_new A w)" and "\<And>w. fst (os_CreateThreadpoolTimer A w) \<noteq> NULL_HANDLE"
    and "timers s = []"
  shows "wp (RequestCredentialsChangedAsync A delayMs gen) (\<lambda>_ t.
    \<exists>tm. timers t = [\<lparr>ctx_events = g_cpEvents s, ctx_context = g_cpEventsContext s,
        ctx_sessionGeneration = (if sint gen \<le> 0 then g_brokerSessionGeneration s else gen),
        ctx_timer = tm\<rparr>]
    \<and> g_refreshPending t = 1 \<and> hd (trace t) = TimerArmed tm (due_time delayMs)
    \<and> sink_net (g_cpEvents s) (trace t) = sink_net (g_cpEvents s) (trace s) + 1) s"
  using assms by (simp add: RequestCredentialsChangedAsync_def flag_defs wp_simps)
section \<open>Witnesses\<close>

definition start_prov :: "ULONGLONG prov" where
  "start_prov = auth.extend start_auth \<lparr>
     g_brokerSessionActive = 0, g_brokerAwaitingFinal = 0, g_refreshPending = 0,
     g_brokerSessionAutoSubmitTick = 0, g_forceNextAutoSubmit = 0,
     g_brokerSessionGeneration = 1, g_cpEvents = 0, g_cpEventsContext = 0,
     timers = [], callbacks = []\<rparr>"

definition demo_ctx :: CredRefreshAsyncCtx where
  "demo_ctx = \<lparr>ctx_events = 0x80, ctx_context = 3, ctx_sessionGeneration = 1, ctx_timer = 0x50\<rparr>"

text \<open>LogonUI has advised, and a refresh is armed.\<close>

definition armed_prov :: "ULONGLONG prov" where
  "armed_prov = start_prov\<lparr>g_cpEvents := 0x80, g_cpEventsContext := 3, g_refreshPending := 1,
     timers := [demo_ctx], trace := [SinkAddRef 0x80, SinkAddRef 0x80]\<rparr>"

lemmas start_defs = start_prov_def start_auth_def start_sys_def sys.defs auth.defs prov.defs

lemma start_wf: "prov_wf start_prov" "prov_wf armed_prov"
  by (simp_all add: prov_wf_defs armed_prov_def demo_ctx_def start_defs)

lemma autosubmit_is_rate_limited_witness:
  "fst (run_state (TryAcquireAutoSubmitWindow silent_api 2500)
     (start_prov\<lparr>g_brokerSessionAutoSubmitTick := 1000, world := 3000\<rparr>)) = False"
proof -
  have r: "run_state (TryAcquireAutoSubmitWindow silent_api 2500) start_prov
    = (True, start_prov\<lparr>g_brokerSessionAutoSubmitTick := 1000\<rparr>)"
    by (simp add: TryAcquireAutoSubmitWindow_def run_ask Let_def start_defs)
  show ?thesis
    using autosubmit_is_rate_limited [OF r, of "start_prov\<lparr>g_brokerSessionAutoSubmitTick := 1000, world := 3000\<rparr>"]
    by (auto simp: start_defs split: prod.splits)
qed


lemma refresh_in_callback_is_lost_witness:
  "\<exists>t v. run_state (RequestCredentialsChangedAsync silent_api 300 1) t = ((), t)
     \<and> run_state (callback_notify silent_api demo_ctx) (fire demo_ctx armed_prov) = ((), t)
     \<and> run_state (callback_finish silent_api demo_ctx) t = ((), v) \<and> timers v = []"
proof -
  obtain t where t: "run_state (callback_notify silent_api demo_ctx) (fire demo_ctx armed_prov) = ((), t)"
    by (metis surj_pair unit_eq)
  obtain u where u: "run_state (RequestCredentialsChangedAsync silent_api 300 1) t = ((), u)"
    by (metis surj_pair unit_eq)
  obtain v where v: "run_state (callback_finish silent_api demo_ctx) u = ((), v)"
    by (metis surj_pair unit_eq)
  have "demo_ctx \<in> set (timers armed_prov)" by (simp add: armed_prov_def)
  from refresh_in_callback_is_lost [OF start_wf(2) this t u v] t u v show ?thesis by auto
qed

lemma request_arms_timer_witness:
  "wp (RequestCredentialsChangedAsync silent_api 300 0) (\<lambda>_ t. length (timers t) = 1)
     (start_prov\<lparr>g_cpEvents := 0x80\<rparr>)"
  by (rule wp_mono [OF request_arms_timer]) (auto simp: start_defs silent_api_def demo_defs)

end
