(* ===== verification/Broker_Session.thy ===== *)
theory Broker_Session
  imports Provider_State
begin

text \<open>
  \<open>src/src/broker/ProviderBrokerSession.cpp\<close> and its header: the one session with the broker
  (pipe, process, connected or not), the flow state that is logged, and the lock around them.
\<close>

section \<open>State\<close>

record BrokerSessionState =
  hPipe :: HANDLE
  session_pi :: PROCESS_INFORMATION
  connected :: bool

abbreviation no_session :: BrokerSessionState where
  "no_session \<equiv> \<lparr>hPipe = INVALID_HANDLE_VALUE, session_pi = zero_pi, connected = False\<rparr>"

record 'w sess = "'w prov" +
  g_lastBrokerFlowState :: LONG
  g_session :: BrokerSessionState

section \<open>Operations\<close>

definition LockBrokerSessionExclusive :: "'w os_api \<Rightarrow> (('w, 'x) sys_scheme, unit) state" where
  "LockBrokerSessionExclusive A = emit A (Acquire SessionLock)"

definition UnlockBrokerSessionExclusive :: "'w os_api \<Rightarrow> (('w, 'x) sys_scheme, unit) state" where
  "UnlockBrokerSessionExclusive A = emit A (Release SessionLock)"

definition GetBrokerSession :: "(('w, 'x) sess_scheme, BrokerSessionState) state" where
  "GetBrokerSession = gets g_session"

definition put_session :: "BrokerSessionState \<Rightarrow> (('w, 'x) sess_scheme, unit) state" where
  "put_session b = modify (\<lambda>s. s\<lparr>g_session := b\<rparr>)"

definition WaitAndCloseBrokerProcess ::
    "'w os_api \<Rightarrow> PROCESS_INFORMATION \<Rightarrow> DWORD \<Rightarrow> (('w, 'x) sys_scheme, PROCESS_INFORMATION) state" where
  "WaitAndCloseBrokerProcess A pi waitMs = do {
     pi \<leftarrow> (if hProcess pi \<noteq> NULL_HANDLE then do {
         waitResult \<leftarrow> ask (os_WaitForSingleObject A (hProcess pi) waitMs);
         (if waitResult = WAIT_TIMEOUT then do {
            CpLog A ''broker did not exit within timeout; terminating process'' [];
            ok \<leftarrow> ask (os_TerminateProcess A (hProcess pi));
            if \<not> ok then do {
              le \<leftarrow> ask (os_GetLastError A);
              CpLog A ''TerminateProcess failed err=%u'' [uint le]
            } else do {
              _ \<leftarrow> ask (os_WaitForSingleObject A (hProcess pi) 500);
              State_Monad.return ()
            }
          } else when_do (waitResult = WAIT_FAILED) (do {
            le \<leftarrow> ask (os_GetLastError A);
            CpLog A ''WaitForSingleObject failed err=%u'' [uint le]
          }));
         CloseHandle A (hProcess pi);
         State_Monad.return (pi\<lparr>hProcess := NULL_HANDLE\<rparr>)
       } else State_Monad.return pi);
     if hThread pi \<noteq> NULL_HANDLE then do {
       CloseHandle A (hThread pi);
       State_Monad.return (pi\<lparr>hThread := NULL_HANDLE\<rparr>)
     } else State_Monad.return pi
   }"

definition ClosePipeHandle :: "'w os_api \<Rightarrow> HANDLE \<Rightarrow> (('w, 'x) sys_scheme, HANDLE) state" where
  "ClosePipeHandle A h =
     (if h \<noteq> INVALID_HANDLE_VALUE then do {
        CloseHandle A h;
        State_Monad.return INVALID_HANDLE_VALUE
      } else State_Monad.return h)"

text \<open>\<open>None\<close> is the null pointer for a string that may be missing.\<close>

definition UpdateBrokerFlowState ::
    "'w os_api \<Rightarrow> LONG \<Rightarrow> string option \<Rightarrow> (('w, 'x) sess_scheme, unit) state" where
  "UpdateBrokerFlowState A st transitionLog = do {
     prev \<leftarrow> gets g_lastBrokerFlowState;
     modify (\<lambda>s. s\<lparr>g_lastBrokerFlowState := st\<rparr>);
     (case transitionLog of
        None \<Rightarrow> State_Monad.return ()
      | Some log \<Rightarrow> when_do (prev \<noteq> st) (CpLog A log []))
   }"

definition ResetBrokerSession :: "'w os_api \<Rightarrow> DWORD \<Rightarrow> (('w, 'x) sess_scheme, unit) state" where
  "ResetBrokerSession A waitMs = do {
     b \<leftarrow> GetBrokerSession;
     h \<leftarrow> ClosePipeHandle A (hPipe b);
     put_session (b\<lparr>hPipe := h\<rparr>);
     _ \<leftarrow> WaitAndCloseBrokerProcess A (session_pi b) waitMs;
     put_session (b\<lparr>hPipe := h, session_pi := zero_pi, connected := False\<rparr>);
     SetBrokerSessionActive False;
     UpdateBrokerFlowState A 0 None
   }"

definition CloseBrokerSessionNow ::
    "'w os_api \<Rightarrow> DWORD \<Rightarrow> string option \<Rightarrow> (('w, 'x) sess_scheme, unit) state" where
  "CloseBrokerSessionNow A waitMs reasonLog = do {
     LockBrokerSessionExclusive A;
     (case reasonLog of
        None \<Rightarrow> State_Monad.return ()
      | Some log \<Rightarrow> when_do (log \<noteq> []) (CpLog A log []));
     b \<leftarrow> GetBrokerSession;
     (if hPipe b \<noteq> INVALID_HANDLE_VALUE \<or> hProcess (session_pi b) \<noteq> NULL_HANDLE
         \<or> hThread (session_pi b) \<noteq> NULL_HANDLE \<or> connected b
      then ResetBrokerSession A waitMs
      else SetBrokerSessionActive False);
     SetBrokerAwaitingFinal False;
     UpdateBrokerFlowState A 0 None;
     UnlockBrokerSessionExclusive A
   }"

section \<open>Invariants\<close>

text \<open>How many of the handles \<open>h\<close> a process information and the session own.\<close>

definition pi_handles :: "PROCESS_INFORMATION \<Rightarrow> HANDLE \<Rightarrow> int" where
  "pi_handles p h = of_bool (hProcess p = h \<and> h \<noteq> NULL_HANDLE) + of_bool (hThread p = h \<and> h \<noteq> NULL_HANDLE)"

definition pipe_handles :: "HANDLE \<Rightarrow> HANDLE \<Rightarrow> int" where
  "pipe_handles p h = of_bool (p = h \<and> h \<noteq> INVALID_HANDLE_VALUE)"

definition session_handles :: "BrokerSessionState \<Rightarrow> HANDLE \<Rightarrow> int" where
  "session_handles b h = pipe_handles (hPipe b) h + pi_handles (session_pi b) h"

lemma pi_handles_zero [simp]: "hProcess p = 0 \<Longrightarrow> hThread p = 0 \<Longrightarrow> pi_handles p h = 0"
  by (simp add: pi_handles_def)

lemma pipe_handles_none [simp]: "pipe_handles INVALID_HANDLE_VALUE h = 0"
  by (simp add: pipe_handles_def)

text \<open>Either no session, or a connected one with a pipe and a process.\<close>

definition session_shape :: "BrokerSessionState \<Rightarrow> bool" where
  "session_shape b \<longleftrightarrow>
     (if connected b then hPipe b \<noteq> INVALID_HANDLE_VALUE \<and> hProcess (session_pi b) \<noteq> NULL_HANDLE
      else b = no_session)"

text \<open>The flags say what the session and the flow state say.\<close>

definition flags_wf :: "('w, 'x) sess_scheme \<Rightarrow> bool" where
  "flags_wf s \<longleftrightarrow>
     (g_brokerSessionActive s \<noteq> 0 \<longleftrightarrow> connected (g_session s))
     \<and> (g_brokerAwaitingFinal s \<noteq> 0 \<longleftrightarrow> g_lastBrokerFlowState s = 1)
     \<and> g_lastBrokerFlowState s \<in> {0, 1, 2}
     \<and> (g_lastBrokerFlowState s \<noteq> 0 \<longrightarrow> connected (g_session s))"

definition broker_wf :: "('w, 'x) sess_scheme \<Rightarrow> bool" where
  "broker_wf s \<longleftrightarrow> prov_wf s \<and> holds SessionLock (trace s) = Some False
     \<and> (\<forall>h. net h (trace s) = session_handles (g_session s) h)
     \<and> session_shape (g_session s) \<and> flags_wf s"

section \<open>Closing\<close>

text \<open>
  \<open>closes p s s'\<close>: the handles of \<open>p\<close> were closed, each once; nothing else changed that the
  component invariants speak about.
\<close>

definition closes :: "(HANDLE \<Rightarrow> int) \<Rightarrow> ('w, 'x) sys_scheme \<Rightarrow> ('w, 'x) sys_scheme \<Rightarrow> bool" where
  "closes owned s s' \<longleftrightarrow> sys.more s' = sys.more s
     \<and> (\<forall>h. net h (trace s') = net h (trace s) - owned h)
     \<and> (\<forall>l. holds l (trace s') = holds l (trace s)) \<and> (\<forall>h. lsa_net h (trace s') = lsa_net h (trace s))
     \<and> (\<forall>h. sink_net h (trace s') = sink_net h (trace s)) \<and> mem_net (trace s') = mem_net (trace s)"

lemma WaitAndClose_spec:
  "wp (WaitAndCloseBrokerProcess A p waitMs) (\<lambda>p' s'.
     hProcess p' = NULL_HANDLE \<and> hThread p' = NULL_HANDLE \<and> closes (pi_handles p) s s') s"
  unfolding WaitAndCloseBrokerProcess_def
  by (intro wp_intro) (auto simp: closes_def pi_handles_def)

lemma ClosePipeHandle_spec:
  "wp (ClosePipeHandle A h) (\<lambda>h' s'. h' = INVALID_HANDLE_VALUE \<and> closes (pipe_handles h) s s') s"
  unfolding ClosePipeHandle_def
  by (intro wp_intro) (auto simp: closes_def pipe_handles_def)

text \<open>The same as rules that show the state they end in.\<close>

definition es_closes :: "(HANDLE \<Rightarrow> int) \<Rightarrow> ev list \<Rightarrow> ev list \<Rightarrow> bool" where
  "es_closes owned es es' \<longleftrightarrow> (\<forall>h. net h es' = net h es - owned h)
     \<and> (\<forall>l. holds l es' = holds l es) \<and> (\<forall>h. lsa_net h es' = lsa_net h es)
     \<and> (\<forall>h. sink_net h es' = sink_net h es) \<and> mem_net es' = mem_net es"

lemma closesD:
  "closes owned s s' \<Longrightarrow> s' = s\<lparr>world := world s', trace := trace s'\<rparr> \<and> es_closes owned (trace s) (trace s')"
  by (cases s; cases s') (auto simp: closes_def es_closes_def)

lemma wp_WaitAndClose [wp_intro]:
  assumes "\<And>p' w es. hProcess p' = NULL_HANDLE \<Longrightarrow> hThread p' = NULL_HANDLE \<Longrightarrow>
    es_closes (pi_handles p) (trace s) es \<Longrightarrow> Q p' (s\<lparr>world := w, trace := es\<rparr>)"
  shows "wp (WaitAndCloseBrokerProcess A p waitMs) Q s"
  by (rule wp_mono [OF WaitAndClose_spec]) (metis assms closesD)

lemma wp_ClosePipe [wp_intro]:
  assumes "\<And>w es. es_closes (pipe_handles h) (trace s) es \<Longrightarrow>
    Q INVALID_HANDLE_VALUE (s\<lparr>world := w, trace := es\<rparr>)"
  shows "wp (ClosePipeHandle A h) Q s"
  by (rule wp_mono [OF ClosePipeHandle_spec]) (metis assms closesD)

text \<open>
  \<open>session_ended s s'\<close>: the session is over, every handle it owned is closed, no flag is
  set, the generation is one on; the refresh timer, the sink, the forced submit and the
  layers above are as before.
\<close>

definition same_refresh :: "('w, 'x) prov_scheme \<Rightarrow> ('w, 'x) prov_scheme \<Rightarrow> bool" where
  "same_refresh s s' \<longleftrightarrow> g_refreshPending s' = g_refreshPending s \<and> g_cpEvents s' = g_cpEvents s
     \<and> g_cpEventsContext s' = g_cpEventsContext s \<and> timers s' = timers s \<and> callbacks s' = callbacks s
     \<and> g_forceNextAutoSubmit s' = g_forceNextAutoSubmit s"

definition session_ended :: "('w, 'x) sess_scheme \<Rightarrow> ('w, 'x) sess_scheme \<Rightarrow> bool" where
  "session_ended s s' \<longleftrightarrow>
     g_session s' = no_session \<and> g_lastBrokerFlowState s' = 0
     \<and> g_brokerSessionActive s' = 0 \<and> g_brokerAwaitingFinal s' = 0 \<and> g_brokerSessionAutoSubmitTick s' = 0
     \<and> g_brokerSessionGeneration s' = g_brokerSessionGeneration s + 1
     \<and> sess.more s' = sess.more s \<and> same_refresh s s'
     \<and> es_closes (session_handles (g_session s)) (trace s) (trace s')"

lemmas session_defs = GetBrokerSession_def put_session_def UpdateBrokerFlowState_def
lemmas ended_defs = session_ended_def same_refresh_def es_closes_def

lemma no_session_update [simp]:
  "b\<lparr>hPipe := INVALID_HANDLE_VALUE, session_pi := zero_pi, connected := False\<rparr> = no_session"
  by (cases b) simp

lemma ResetBrokerSession_spec:
  "wp (ResetBrokerSession A waitMs) (\<lambda>_ s'. session_ended s s') s"
  unfolding ResetBrokerSession_def session_defs flag_defs option.case
  by (intro wp_intro) (auto simp: ended_defs session_handles_def)

lemma no_handles:
  "hPipe b = INVALID_HANDLE_VALUE \<Longrightarrow> hProcess (session_pi b) = 0 \<Longrightarrow> hThread (session_pi b) = 0 \<Longrightarrow>
   session_handles b h = 0"
  by (simp add: session_handles_def)

text \<open>
  \<open>CloseBrokerSessionNow\<close> from a well-formed state: the session is over, and the lock is free
  again.
\<close>

lemma shape_idle: "session_shape b \<Longrightarrow> \<not> connected b \<Longrightarrow> b = no_session"
  by (simp add: session_shape_def)

lemma CloseBrokerSessionNow_spec:
  assumes "broker_wf s"
  shows "wp (CloseBrokerSessionNow A waitMs reasonLog) (\<lambda>_ s'. session_ended s s') s"
  using assms unfolding CloseBrokerSessionNow_def session_defs flag_defs
    LockBrokerSessionExclusive_def UnlockBrokerSessionExclusive_def
  by (intro wp_intro wp_mono [OF ResetBrokerSession_spec])
     (auto simp: ended_defs no_handles broker_wf_def shape_idle)

lemma session_ended_wf:
  assumes "broker_wf s" and "session_ended s s'"
  shows "broker_wf s'"
  using assms
  by (simp add: broker_wf_def ended_defs prov_wf_defs session_shape_def flags_wf_def session_handles_def)

end
