(* ===== verification/Broker_Launch.thy ===== *)
theory Broker_Launch
  imports Broker_Session
begin

text \<open>
  \<open>src/src/broker/ProviderPipe.cpp\<close> and the first part of \<open>ProviderPipeTransport.cpp\<close>: the
  name of the pipe, the pipe, the environment of the child and the child itself.
\<close>

section \<open>The pipe\<close>

definition bslash :: char where "bslash = CHR 0x5C"

definition pipe_prefix :: wstring where
  "pipe_prefix = wide ([bslash, bslash] @ ''.'' @ [bslash] @ ''pipe'' @ [bslash] @ ''cp.dot1x.'')"

text \<open>\<open>%016I64X\<close>\<close>

definition hex_wchar :: "nat \<Rightarrow> wchar" where
  "hex_wchar d = (if d < 10 then of_nat (48 + d) else of_nat (55 + d))"

fun hex_digits :: "nat \<Rightarrow> nat \<Rightarrow> wstring" where
  "hex_digits 0 n = []"
| "hex_digits (Suc k) n = hex_digits k (n div 16) @ [hex_wchar (n mod 16)]"

definition fallback_name :: "ULONGLONG \<Rightarrow> wstring" where
  "fallback_name t = pipe_prefix @ hex_digits 16 (unat t)"

definition guid_char :: "wchar \<Rightarrow> wchar" where
  "guid_char ch = (if ch = of_char CHR ''{'' \<or> ch = of_char CHR ''}'' \<or> ch = of_char CHR ''-''
     then of_char CHR ''_'' else ch)"

definition MakePipeName :: "'w os_api \<Rightarrow> (('w, 'x) sys_scheme, wstring) state" where
  "MakePipeName A = do {
     hr \<leftarrow> ask (os_CoCreateGuid A);
     (case hr of
        None \<Rightarrow> do {
          t \<leftarrow> ask (os_GetTickCount64 A);
          CpLogText A ''pipe name(fallback): %s'' [fallback_name t] [];
          State_Monad.return (fallback_name t)
        }
      | Some g \<Rightarrow> do {
          n \<leftarrow> ask (os_StringFromGUID2 A g);
          (case n of
             Some guidBuf \<Rightarrow> do {
               CpLogText A ''pipe name: %s'' [pipe_prefix @ map guid_char guidBuf] [];
               State_Monad.return (pipe_prefix @ map guid_char guidBuf)
             }
           | None \<Rightarrow> do {
               t \<leftarrow> ask (os_GetTickCount64 A);
               CpLogText A ''pipe name(fallback2): %s'' [fallback_name t] [];
               State_Monad.return (fallback_name t)
             })
        })
   }"

definition sddl_strict :: string where "sddl_strict = ''D:(A;;GA;;;SY)(A;;GA;;;BA)(A;;GA;;;IU)''"
definition sddl_relax :: string where "sddl_relax = ''D:(A;;GA;;;SY)(A;;GA;;;BA)(A;;GA;;;AU)''"

text \<open>\<open>None\<close> for the security attributes is the null pointer.\<close>

definition make_pipe :: "'w os_api \<Rightarrow> wstring \<Rightarrow> string \<Rightarrow> (('w, 'x) sys_scheme, HANDLE) state" where
  "make_pipe A pipeName sddl = do {
     ok \<leftarrow> ask (os_ConvertSddl A sddl);
     h \<leftarrow> ask (os_CreateNamedPipe A pipeName (if ok then Some sddl else None));
     own A INVALID_HANDLE_VALUE h;
     when_do (h = INVALID_HANDLE_VALUE) (do {
       err \<leftarrow> ask (os_GetLastError A);
       CpLogText A ''CreateNamedPipe failed (err=%u) sddl=%s'' [wide sddl] [uint err]
     });
     State_Monad.return h
   }"

definition CreateRestrictedPipeServer :: "'w os_api \<Rightarrow> wstring \<Rightarrow> (('w, 'x) sys_scheme, HANDLE) state" where
  "CreateRestrictedPipeServer A pipeName = do {
     h \<leftarrow> make_pipe A pipeName sddl_strict;
     if h \<noteq> INVALID_HANDLE_VALUE then State_Monad.return h
     else do {
       h \<leftarrow> make_pipe A pipeName sddl_relax;
       if h \<noteq> INVALID_HANDLE_VALUE then State_Monad.return h
       else do {
         h \<leftarrow> ask (os_CreateNamedPipe A pipeName None);
         own A INVALID_HANDLE_VALUE h;
         when_do (h = INVALID_HANDLE_VALUE) (do {
           err \<leftarrow> ask (os_GetLastError A);
           CpLog A ''CreateNamedPipe failed (final, no SA) err=%u'' [uint err]
         });
         State_Monad.return h
       }
     }
   }"

section \<open>The environment of the child\<close>

text \<open>\<open>_wcsnicmp(p, "CP_PIPE=", 8) == 0\<close>, letters of the C locale folded.\<close>

definition wlower :: "wchar \<Rightarrow> wchar" where
  "wlower c = (if 65 \<le> c \<and> c \<le> 90 then c + 32 else c)"

definition cp_pipe_key :: wstring where "cp_pipe_key = wide ''CP_PIPE=''"

definition is_cp_pipe :: "wstring \<Rightarrow> bool" where
  "is_cp_pipe e \<longleftrightarrow> map wlower (take 8 e) = map wlower cp_pipe_key"

text \<open>The loop over the block: strings that end in a null, up to an empty one.\<close>

function env_loop :: "wstring \<Rightarrow> wstring" where
  "env_loop p =
     (if p = [] \<or> hd p = 0 then []
      else (let e = takeWhile (\<lambda>c. c \<noteq> 0) p; next_p = drop (length e + 1) p in
        (if is_cp_pipe e then [] else e @ [0]) @ env_loop next_p))"
  by auto
termination by (relation "measure length") auto

declare env_loop.simps [simp del]

definition BuildChildEnvironmentWithPipe ::
    "'w os_api \<Rightarrow> wstring \<Rightarrow> (('w, 'x) sys_scheme, wstring option) state" where
  "BuildChildEnvironmentWithPipe A pipeName = do {
     baseEnv \<leftarrow> ask (os_GetEnvironmentStrings A);
     State_Monad.return (map_option (\<lambda>b. env_loop b @ cp_pipe_key @ pipeName @ [0] @ [0]) baseEnv)
   }"

section \<open>The child\<close>

definition brokerPath :: wstring where
  "brokerPath = wide (''C:'' @ [bslash] @ ''Program Files'' @ [bslash] @ ''Dot1xCP'' @ [bslash]
     @ ''Broker'' @ [bslash] @ ''Dot1xBroker.exe'')"

definition broker_cmd :: "wstring \<Rightarrow> wstring" where
  "broker_cmd pipeName = wide [CHR 0x22] @ brokerPath @ wide ([CHR 0x22] @ '' --pipe '') @ pipeName"

abbreviation "CREATE_NO_WINDOW \<equiv> 0x08000000 :: DWORD"
abbreviation "CREATE_BREAKAWAY_FROM_JOB \<equiv> 0x01000000 :: DWORD"
abbreviation "CREATE_UNICODE_ENVIRONMENT \<equiv> 0x00000400 :: DWORD"

text \<open>A started child: the caller owns both handles.\<close>

definition CreateProcessW ::
    "'w os_api \<Rightarrow> wstring \<Rightarrow> DWORD \<Rightarrow> wstring option
     \<Rightarrow> (('w, 'x) sys_scheme, PROCESS_INFORMATION option) state" where
  "CreateProcessW A cmd flags env = do {
     r \<leftarrow> ask (os_CreateProcess A cmd flags env);
     (case r of
        None \<Rightarrow> State_Monad.return None
      | Some p \<Rightarrow> do {
          own A NULL_HANDLE (hProcess p);
          own A NULL_HANDLE (hThread p);
          State_Monad.return (Some p)
        })
   }"

text \<open>The result is \<open>piOut\<close>, or \<open>None\<close> when the function returns false (\<open>piOut\<close> is zero then).\<close>

definition LaunchBroker ::
    "'w os_api \<Rightarrow> wstring \<Rightarrow> (('w, 'x) sys_scheme, PROCESS_INFORMATION option) state" where
  "LaunchBroker A pipeName = do {
     attr \<leftarrow> ask (os_GetFileAttributes A brokerPath);
     when_do (attr = INVALID_FILE_ATTRIBUTES) (do {
       le \<leftarrow> ask (os_GetLastError A);
       CpLogText A ''broker path not found: %s (err=%u)'' [brokerPath] [uint le]
     });
     let cmd = broker_cmd pipeName;
     CpLogText A ''launch broker cmd: %s'' [cmd] [];
     childEnv \<leftarrow> BuildChildEnvironmentWithPipe A pipeName;
     ok \<leftarrow> CreateProcessW A cmd
       (CREATE_NO_WINDOW OR CREATE_BREAKAWAY_FROM_JOB OR CREATE_UNICODE_ENVIRONMENT) childEnv;
     ok \<leftarrow> (case ok of
         Some p \<Rightarrow> State_Monad.return (Some (p, True))
       | None \<Rightarrow> do {
           firstErr \<leftarrow> ask (os_GetLastError A);
           if firstErr = ERROR_ACCESS_DENIED \<or> firstErr = ERROR_NOT_SUPPORTED
              \<or> firstErr = ERROR_INVALID_PARAMETER
           then do {
             CpLog A ''CreateProcess with BREAKAWAY failed err=%u. retry without BREAKAWAY.'' [uint firstErr];
             again \<leftarrow> CreateProcessW A cmd (CREATE_NO_WINDOW OR CREATE_UNICODE_ENVIRONMENT) childEnv;
             (case again of
                None \<Rightarrow> State_Monad.return None
              | Some p \<Rightarrow> do {
                  CpLog A ''CreateProcess fallback without BREAKAWAY succeeded.'' [];
                  State_Monad.return (Some (p, False))
                })
           } else State_Monad.return None
         });
     (case ok of
        None \<Rightarrow> do {
          le \<leftarrow> ask (os_GetLastError A);
          CpLog A ''broker launch failed (err=%u)'' [uint le];
          State_Monad.return None
        }
      | Some (p, usedBreakaway) \<Rightarrow> do {
          CpLogText A ''broker launched pid=%lu (breakaway=%s)''
            [wide (if usedBreakaway then ''true'' else ''false'')] [uint (dwProcessId p)];
          State_Monad.return (Some p)
        })
   }"

section \<open>What is owned afterwards\<close>

lemma MakePipeName_frame: "wp (MakePipeName A) (\<lambda>_ s'. os_frame s s') s"
  unfolding MakePipeName_def by (intro wp_intro) (auto simp: os_frame_def)

lemma make_pipe_spec:
  "wp (make_pipe A n sd) (\<lambda>h s'. closes (\<lambda>k. - pipe_handles h k) s s') s"
  unfolding make_pipe_def by (intro wp_intro) (auto simp: closes_def pipe_handles_def)

lemma CreateRestrictedPipeServer_spec:
  "wp (CreateRestrictedPipeServer A n) (\<lambda>h s'. closes (\<lambda>k. - pipe_handles h k) s s') s"
  unfolding CreateRestrictedPipeServer_def
  by (intro wp_intro wp_mono [OF make_pipe_spec]) (auto simp: closes_def pipe_handles_def)

lemma CreateProcessW_spec:
  "wp (CreateProcessW A c f e) (\<lambda>r s'. closes (\<lambda>k. - (case r of None \<Rightarrow> 0 | Some p \<Rightarrow> pi_handles p k)) s s') s"
  unfolding CreateProcessW_def by (intro wp_intro) (auto simp: closes_def pi_handles_def)

lemma LaunchBroker_spec:
  "wp (LaunchBroker A n) (\<lambda>r s'. closes (\<lambda>k. - (case r of None \<Rightarrow> 0 | Some p \<Rightarrow> pi_handles p k)) s s') s"
  unfolding LaunchBroker_def BuildChildEnvironmentWithPipe_def Let_def
  by (intro wp_intro wp_mono [OF CreateProcessW_spec]) (auto simp: closes_def)

section \<open>Properties\<close>

text \<open>An environment block: the entries, each with its null, and one more null.\<close>

definition env_block :: "wstring list \<Rightarrow> wstring" where
  "env_block es = concat (map (\<lambda>e. e @ [0]) es) @ [0]"

definition env_entry :: "wstring \<Rightarrow> bool" where
  "env_entry e \<longleftrightarrow> e \<noteq> [] \<and> 0 \<notin> set e"

lemma takeWhile_entry: "0 \<notin> set e \<Longrightarrow> takeWhile (\<lambda>c. c \<noteq> 0) (e @ 0 # r) = e"
  by (induction e) auto

lemma env_loop_Nil [simp]: "env_loop [] = []" "env_loop (0 # r) = []"
  by (simp_all add: env_loop.simps [of "[]"] env_loop.simps [of "0 # r"])

lemma env_loop_entry:
  assumes "env_entry e"
  shows "env_loop (e @ 0 # r) = (if is_cp_pipe e then [] else e @ [0]) @ env_loop r"
proof -
  from assms have "hd (e @ 0 # r) \<noteq> 0" by (cases e) (auto simp: env_entry_def)
  moreover have "takeWhile (\<lambda>c. c \<noteq> 0) (e @ 0 # r) = e"
    using assms by (simp add: env_entry_def takeWhile_entry)
  ultimately show ?thesis by (subst env_loop.simps) (simp add: Let_def)
qed

lemma env_loop_block:
  "\<forall>e \<in> set es. env_entry e \<Longrightarrow>
   env_loop (env_block es) = concat (map (\<lambda>e. e @ [0]) (filter (\<lambda>e. \<not> is_cp_pipe e) es))"
  by (induction es) (simp_all add: env_block_def env_loop_entry)


lemma word_unat_inject: "unat x = unat y \<Longrightarrow> x = y"
  by (rule unsigned_word_eqI)

lemma length_hex_digits [simp]: "length (hex_digits k n) = k"
  by (induction k arbitrary: n) simp_all

lemma hex_wchar_inject: "a < 16 \<Longrightarrow> b < 16 \<Longrightarrow> hex_wchar a = hex_wchar b \<longleftrightarrow> a = b"
proof -
  have w: "n < 2 ^ 16 \<Longrightarrow> unat (of_nat n :: wchar) = n" for n
    by (rule unat_of_nat_len) simp
  have u: "d < 16 \<Longrightarrow> unat (hex_wchar d) = (if d < 10 then 48 + d else 55 + d)" for d
    using w [of "48 + d"] w [of "55 + d"] by (simp add: hex_wchar_def)
  assume ab: "a < 16" "b < 16"
  show "hex_wchar a = hex_wchar b \<longleftrightarrow> a = b"
  proof
    assume "hex_wchar a = hex_wchar b"
    then have "(if a < 10 then 48 + a else 55 + a) = (if b < 10 then 48 + b else 55 + b)"
      using u [OF ab(1)] u [OF ab(2)] by metis
    then show "a = b" by (simp split: if_splits)
  qed simp
qed

lemma hex_digits_inject:
  "m < 16 ^ k \<Longrightarrow> n < 16 ^ k \<Longrightarrow> hex_digits k m = hex_digits k n \<Longrightarrow> m = n"
proof (induction k arbitrary: m n)
  case (Suc k)
  then have "m div 16 < 16 ^ k" "n div 16 < 16 ^ k" by (simp_all add: less_mult_imp_div_less)
  with Suc have "m div 16 = n div 16" "m mod 16 = n mod 16"
    by (auto simp: hex_wchar_inject)
  then show ?case by (metis div_mult_mod_eq)
qed simp

text \<open>
  A fallback pipe name tells its tick count, so names made at different ticks differ, and it
  fits the 72 characters of the buffer it is printed into.
\<close>

theorem fallback_name_unique:
  "(fallback_name t = fallback_name u \<longleftrightarrow> t = u) \<and> length (fallback_name t) < 72"
proof -
  have "unat x < 16 ^ 16" for x :: ULONGLONG
    using unsigned_less [of x] by simp
  then show ?thesis
    using hex_digits_inject [of "unat t" 16 "unat u"] word_unat_inject
    by (auto simp: fallback_name_def pipe_prefix_def wide_def)
qed

text \<open>
  Launching either fails and owns nothing, or yields process and thread handles that are
  open and are the only new ones; the retry without breakaway leaks nothing.
\<close>

theorem launch_owns_child:
  "case run_state (LaunchBroker A pipeName) s of (r, s') \<Rightarrow>
     \<forall>h. net h (trace s') = net h (trace s) + (case r of None \<Rightarrow> 0 | Some p \<Rightarrow> pi_handles p h)"
  using LaunchBroker_spec [of A pipeName s]
  by (simp add: wp_def closes_def split: prod.splits)

text \<open>
  When the descriptor strings cannot be converted, the pipe that is called restricted is
  created with the default security attributes, at the first attempt.
\<close>

theorem unrestricted_pipe:
  assumes "\<And>sddl w. \<not> fst (os_ConvertSddl A sddl w)"
    and "\<And>w. fst (os_CreateNamedPipe A pipeName None w) \<noteq> INVALID_HANDLE_VALUE"
  shows "\<exists>w. fst (run_state (CreateRestrictedPipeServer A pipeName) s)
    = fst (os_CreateNamedPipe A pipeName None w)"
  using assms
  by (auto simp: CreateRestrictedPipeServer_def make_pipe_def run_ask own_def when_do_def emit_def)

section \<open>Witnesses\<close>


definition no_sddl_api :: "ULONGLONG os_api" where
  "no_sddl_api = (talking_api [])\<lparr>os_ConvertSddl := \<lambda>_ w. (False, w)\<rparr>"

lemma unrestricted_pipe_witness:
  "fst (run_state (CreateRestrictedPipeServer no_sddl_api (wide ''p'')) start_sys) = 0x20"
proof -
  have a: "\<not> fst (os_ConvertSddl no_sddl_api sddl w)"
    "fst (os_CreateNamedPipe no_sddl_api n x w) = 0x20" for sddl n x w
    by (simp_all add: no_sddl_api_def talking_api_def demo_defs)
  show ?thesis
    using unrestricted_pipe [of no_sddl_api "wide ''p''" start_sys] by (simp add: a)
qed

end
