(* ===== verification/Provider_Util.thy ===== *)
theory Provider_Util
  imports Broker_Launch
begin

text \<open>
  \<open>src/src/common/ProviderUtil.cpp\<close>: strings for LogonUI in task-allocator memory, the text
  of a logon failure, and UTF-8 to UTF-16.  A string pointer is its text, or \<open>None\<close> when it is
  null; the block it lives in is an event of the trace.
\<close>

section \<open>Operations\<close>

definition HasActiveConsoleUser :: "'w os_api \<Rightarrow> (('w, 'x) sys_scheme, bool) state" where
  "HasActiveConsoleUser A = do {
     sid \<leftarrow> ask (os_WTSGetActiveConsoleSessionId A);
     if sid = 0xFFFFFFFF then State_Monad.return False
     else do {
       r \<leftarrow> ask (os_WTSQueryUserName A sid);
       State_Monad.return
         (case r of None \<Rightarrow> False | Some user \<Rightarrow> (case user of None \<Rightarrow> False | Some u \<Rightarrow> u \<noteq> []))
     }
   }"

definition DupSysAlloc :: "'w os_api \<Rightarrow> wstring option \<Rightarrow> (('w, 'x) sys_scheme, wstring option) state" where
  "DupSysAlloc A s =
     (case s of
        None \<Rightarrow> State_Monad.return None
      | Some text \<Rightarrow> do {
          p \<leftarrow> CoTaskMemAlloc A ((length text + 1) * 2);
          State_Monad.return (if p = NULL_HANDLE then None else Some text)
        })"

text \<open>The loop that cuts dots, line ends and blanks off the end of the message.\<close>

definition cut_char :: "wchar \<Rightarrow> bool" where
  "cut_char c \<longleftrightarrow> c = 0x2E \<or> c = 0x0D \<or> c = 0x0A \<or> c = 0x20"

function cut_loop :: "wstring \<Rightarrow> nat \<Rightarrow> nat" where
  "cut_loop msgBuf len =
     (if len \<noteq> 0 \<and> cut_char (msgBuf ! (len - 1)) then cut_loop msgBuf (len - 1) else len)"
  by pat_completeness auto
termination by (relation "measure snd") auto

declare cut_loop.simps [simp del]

definition status_map :: "(32 word \<times> wstring) list" where
  "status_map = [
     (0xC000000D, [0xC9C1, 0xB82C, 0xD654, 0x20, 0xD615, 0xC2DD, 0x20, 0xC624, 0xB958] @ wide '' (STATUS_INVALID_PARAMETER)''),
     (0xC0000064, [0xC0AC, 0xC6A9, 0xC790, 0x20, 0xC5C6, 0xC74C] @ wide '' (STATUS_NO_SUCH_USER)''),
     (0xC000006A, [0xBE44, 0xBC00, 0xBC88, 0xD638, 0x20, 0xBD88, 0xC77C, 0xCE58] @ wide '' (STATUS_WRONG_PASSWORD)''),
     (0xC000006D, [0xB85C, 0xADF8, 0xC628, 0x20, 0xC2E4, 0xD328] @ wide '' (STATUS_LOGON_FAILURE)''),
     (0xC000006E, [0xACC4, 0xC815, 0x20, 0xC81C, 0xD55C] @ wide '' (STATUS_ACCOUNT_RESTRICTION)''),
     (0xC0000225, [0xC778, 0xD130, 0xB799, 0xD2F0, 0xBE0C, 0x20, 0xB85C, 0xADF8, 0xC628, 0x20, 0xBD88, 0xAC00] @ wide '' (STATUS_NOT_FOUND)'')]"

definition logon_failed_text :: wstring where
  "logon_failed_text = [0xB85C, 0xADF8, 0xC628, 0x20, 0xC2E4, 0xD328]"

text \<open>\<open>(NT=0x%08X, Sub=0x%08X)\<close>\<close>

definition code_text :: "32 word \<Rightarrow> 32 word \<Rightarrow> wstring" where
  "code_text st sub = wide '' (NT=0x'' @ hex_digits 8 (unat st) @ wide '', Sub=0x''
     @ hex_digits 8 (unat sub) @ wide '')''"

definition status_text :: "wstring option \<Rightarrow> wstring \<Rightarrow> 32 word \<Rightarrow> 32 word \<Rightarrow> wstring" where
  "status_text picked msgBuf st sub =
     (case picked of
        Some t \<Rightarrow> if msgBuf \<noteq> [] then t @ code_text st sub @ [0x20, 0x2014, 0x20] @ msgBuf
                  else t @ code_text st sub
      | None \<Rightarrow> if msgBuf \<noteq> [] then msgBuf @ code_text st sub
                else logon_failed_text @ code_text st sub)"

definition NtStatusToText :: "'w os_api \<Rightarrow> 32 word \<Rightarrow> 32 word \<Rightarrow> (('w, 'x) sys_scheme, wstring option) state"
where
  "NtStatusToText A st sub = do {
     w32 \<leftarrow> ask (os_LsaNtStatusToWinError A st);
     msgBuf \<leftarrow> (if w32 \<noteq> ERROR_MR_MID_NOT_FOUND then do {
         m \<leftarrow> ask (os_FormatMessage A w32 512);
         m \<leftarrow> ask (os_PathRemoveBlanks A m);
         State_Monad.return (take (cut_loop m (length m)) m)
       } else State_Monad.return []);
     DupSysAlloc A (Some (status_text (map_of status_map st) msgBuf st sub))
   }"

text \<open>The first call asks for the length, the second converts into a string of that length.\<close>

definition Widen :: "'w os_api \<Rightarrow> string \<Rightarrow> (('w, 'x) sys_scheme, wstring) state" where
  "Widen A u8 =
     (if u8 = [] then State_Monad.return []
      else do {
        r \<leftarrow> ask (os_MultiByteToWideChar A u8);
        let wlen = length r;
        if wlen = 0 then State_Monad.return []
        else do {
          w \<leftarrow> ask (os_MultiByteToWideChar A u8);
          State_Monad.return (if w = [] then [] else take wlen (w @ replicate wlen 0))
        }
      })"

section \<open>Frames\<close>

text \<open>An operation that may allocate a text: it does so exactly when it returns one.\<close>

definition text_frame ::
    "('w, 'x) sys_scheme \<Rightarrow> wstring option \<Rightarrow> ('w, 'x) sys_scheme \<Rightarrow> bool" where
  "text_frame s r s' \<longleftrightarrow> sys.more s' = sys.more s \<and> silent (trace s) (trace s')
     \<and> mem_net (trace s') = mem_net (trace s) + of_bool (r \<noteq> None)"

lemma DupSysAlloc_frame: "wp (DupSysAlloc A x) (\<lambda>r s'. text_frame s r s' \<and> (r = None \<or> r = x)) s"
  unfolding DupSysAlloc_def by (intro wp_intro) (auto simp: text_frame_def)

lemma NtStatusToText_frame: "wp (NtStatusToText A st sub) (\<lambda>r s'. text_frame s r s') s"
  unfolding NtStatusToText_def
  by (intro wp_intro wp_mono [OF DupSysAlloc_frame]) (auto simp: text_frame_def)

lemma Widen_frame: "wp (Widen A u) (\<lambda>_ s'. os_frame s s') s"
  unfolding Widen_def Let_def by (intro wp_intro) (auto simp: os_frame_def)

section \<open>The text of a failure\<close>

lemma cut_loop_le: "cut_loop m n \<le> n"
proof (induction m n rule: cut_loop.induct)
  case (1 m n)
  then show ?case by (subst cut_loop.simps) (cases n; auto)
qed

lemma cut_loop_spec:
  "cut_loop m n = 0 \<or> \<not> cut_char (m ! (cut_loop m n - 1))"
proof (induction m n rule: cut_loop.induct)
  case (1 m n)
  then show ?case by (subst (1 2) cut_loop.simps) auto
qed

lemma cut_loop_cuts: "cut_loop m n \<le> j \<Longrightarrow> j < n \<Longrightarrow> cut_char (m ! j)"
proof (induction m n rule: cut_loop.induct)
  case (1 m n)
  show ?case
  proof (cases "n \<noteq> 0 \<and> cut_char (m ! (n - 1))")
    case True
    then have "cut_loop m (n - 1) \<le> j" using 1(2) by (simp add: cut_loop.simps [of m n])
    then show ?thesis using 1 True by (cases "j = n - 1") auto
  next
    case False
    then show ?thesis using 1(2,3) by (simp add: cut_loop.simps [of m n] split: if_splits)
  qed
qed

text \<open>
  The loop cuts exactly the trailing dots, line ends and blanks: what is left is the
  longest prefix that does not end in one of them.
\<close>

theorem cut_loop_exact:
  "let k = cut_loop m (length m) in
     take k m = rev (dropWhile cut_char (rev m))"
proof -
  define k where "k = cut_loop m (length m)"
  have k: "k \<le> length m" by (simp add: k_def cut_loop_le)
  have "list_all cut_char (drop k m)"
    using cut_loop_cuts [of m "length m"] by (auto simp: k_def list_all_length)
  then have all: "\<forall>x \<in> set (rev (drop k m)). cut_char x" by (simp add: list_all_iff)
  have "dropWhile cut_char (rev (take k m)) = rev (take k m)"
  proof (cases "k = 0")
    case False
    then have ne: "take k m \<noteq> []" using k by auto
    have "List.last (take k m) = m ! (k - 1)"
      using last_conv_nth [OF ne] k False by (simp add: min_absorb2)
    then have "hd (rev (take k m)) = m ! (k - 1)" by (simp add: hd_rev)
    moreover have "\<not> cut_char (m ! (k - 1))" using cut_loop_spec [of m "length m"] False k_def by simp
    ultimately show ?thesis using ne by (cases "rev (take k m)") auto
  qed simp
  moreover have "rev m = rev (drop k m) @ rev (take k m)" by (simp flip: rev_append)
  ultimately have "dropWhile cut_char (rev m) = rev (take k m)"
    using dropWhile_append2 [of "rev (drop k m)" cut_char "rev (take k m)"] all by auto
  then show ?thesis by (simp add: k_def Let_def)
qed

lemma status_map_short: "map_of status_map st = Some t \<Longrightarrow> length t \<le> 100"
  by (auto simp: status_map_def wide_def split: if_splits)

lemma length_code_text [simp]: "length (code_text st sub) = 32"
  by (simp add: code_text_def wide_def)

text \<open>
  C35: the text of a failure fits the 768 characters it is printed into, whatever the codes, if
  the system's message fits the 512 characters it is asked to fit.
\<close>

theorem status_text_fits:
  assumes "\<And>w32 w. length (fst (os_FormatMessage A w32 512 w)) < 512"
    and "\<And>m w. length (fst (os_PathRemoveBlanks A m w)) \<le> length m"
    and "run_state (NtStatusToText A st sub) s = (Some t, s')"
  shows "length t < 768"
proof -
  have t: "length (status_text (map_of status_map st) m st sub) < 768" if "length m < 512" for m
    using that status_map_short [of st]
    by (cases "map_of status_map st") (auto simp: status_text_def logon_failed_text_def)
  have b: "length (fst (os_PathRemoveBlanks A (fst (os_FormatMessage A w 512 x)) y)) < 512" for w x y
    using assms(1) assms(2) le_less_trans by blast
  have "wp (NtStatusToText A st sub) (\<lambda>r _. \<forall>t. r = Some t \<longrightarrow> length t < 768) s"
    unfolding NtStatusToText_def
    by (simp add: wp_simps, intro conjI impI;
        rule wp_mono [OF DupSysAlloc_frame], use t b in \<open>fastforce simp: min_less_iff_disj\<close>)
  from wp_run [OF assms(3) this] show ?thesis by simp
qed
section \<open>Witnesses\<close>

lemma demo_texts:
  "\<exists>t s'. run_state (NtStatusToText (talking_api []) 0xC000006D 0) start_sys = (Some t, s')"
  by (simp add: NtStatusToText_def DupSysAlloc_def CoTaskMemAlloc_def run_ask emit_def when_do_def
      talking_api_def demo_defs split_def)

lemma status_text_fits_witness:
  "\<exists>t s'. run_state (NtStatusToText (talking_api []) 0xC000006D 0) start_sys = (Some t, s') \<and> length t < 768"
proof -
  obtain t s' where t: "run_state (NtStatusToText (talking_api []) 0xC000006D 0) start_sys = (Some t, s')"
    using demo_texts by blast
  have "length (fst (os_FormatMessage (talking_api []) w32 512 w)) < 512"
    "length (fst (os_PathRemoveBlanks (talking_api []) m w)) \<le> length m" for w32 w m
    by (simp_all add: talking_api_def demo_defs wide_def)
  from status_text_fits [OF this t] t show ?thesis by blast
qed

end
