(* ===== verification/Pipe_Transport.thy ===== *)
theory Pipe_Transport
  imports Demo_World
begin

text \<open>
  \<open>src/src/broker/ProviderPipeTransport.cpp\<close>: waiting for the broker to connect to the pipe
  and reading one message from it with overlapped I/O.  The read buffer is memory, a function
  from offsets to bytes, so that what \<open>SecureZeroMemory\<close> leaves in it can be stated.
\<close>

section \<open>Results and buffers\<close>

datatype PipeConnectResult = ConnConnected | ConnTimeout | ConnBrokerExited | ConnFailed

datatype PipeReadResult = ReadOk | ReadTimeout | ReadBrokerExited | ReadFailed

type_synonym buffer = "nat \<Rightarrow> char"

definition buf_size :: nat where "buf_size = 8192"

definition kMaxMsgBytes :: nat where "kMaxMsgBytes = 256 * 1024"

definition mem_write :: "buffer \<Rightarrow> string \<Rightarrow> buffer" where
  "mem_write buf data = (\<lambda>i. if i < length data then data ! i else buf i)"

definition mem_zero :: "buffer \<Rightarrow> nat \<Rightarrow> buffer" where
  "mem_zero buf n = (\<lambda>i. if i < n then CHR 0x00 else buf i)"

definition mem_read :: "buffer \<Rightarrow> nat \<Rightarrow> string" where
  "mem_read buf n = map buf [0..<n]"

definition SecureZeroVector :: "buffer \<Rightarrow> buffer" where
  "SecureZeroVector buf = mem_zero buf buf_size"

section \<open>Connecting\<close>

definition wait_handles :: "HANDLE \<Rightarrow> HANDLE \<Rightarrow> HANDLE list" where
  "wait_handles hEvent hBrokerProcess =
     take (if hBrokerProcess \<noteq> NULL_HANDLE then 2 else 1) [hEvent, hBrokerProcess]"

definition WaitPipeClientConnect ::
    "'w os_api \<Rightarrow> HANDLE \<Rightarrow> HANDLE \<Rightarrow> DWORD \<Rightarrow> (('w, 'x) sys_scheme, PipeConnectResult) state" where
  "WaitPipeClientConnect A hPipe hBrokerProcess timeoutMs = do {
     hEvent \<leftarrow> CreateEventW A;
     if hEvent = NULL_HANDLE then State_Monad.return ConnFailed
     else do {
       ok \<leftarrow> ask (os_ConnectNamedPipe A hPipe hEvent);
       if ok then do {
         CloseHandle A hEvent;
         State_Monad.return ConnConnected
       } else do {
         le \<leftarrow> ask (os_GetLastError A);
         if le = ERROR_PIPE_CONNECTED then do {
           emit A (EventSet hEvent);
           CloseHandle A hEvent;
           State_Monad.return ConnConnected
         } else if le \<noteq> ERROR_IO_PENDING then do {
           CloseHandle A hEvent;
           State_Monad.return ConnFailed
         } else do {
           emit A (IoPending hEvent);
           wr \<leftarrow> ask (os_WaitForMultipleObjects A (wait_handles hEvent hBrokerProcess) timeoutMs);
           if wr = WAIT_OBJECT_0 then do {
             r \<leftarrow> ask (os_GetOverlappedResult A hPipe hEvent);
             gle \<leftarrow> (if io_ok r then State_Monad.return ERROR_SUCCESS else ask (os_GetLastError A));
             emit A (IoReaped hEvent);
             CloseHandle A hEvent;
             State_Monad.return
               (if io_ok r \<or> gle = ERROR_PIPE_CONNECTED then ConnConnected else ConnFailed)
           } else do {
             emit A (CancelledIo hPipe hEvent);
             CloseHandle A hEvent;
             State_Monad.return
               (if wr = WAIT_OBJECT_0 + 1 then ConnBrokerExited
                else if wr = WAIT_TIMEOUT then ConnTimeout
                else ConnFailed)
           }
         }
       }
     }
   }"

section \<open>Reading a message\<close>

text \<open>
  How one round of the \<open>for (;;)\<close> loop of \<open>ReadPipeMessageWithTimeout\<close> ends: with a result,
  the output and the buffer, or with \<open>continue\<close>.
\<close>

datatype read_round = RoundDone PipeReadResult string buffer | RoundMore string buffer

text \<open>
  The code for \<open>n\<close> bytes that arrived in the buffer; it stands in the source three times, for
  a read that completes at once, one with more data, and an overlapped one.
\<close>

definition take_chunk ::
    "'w os_api \<Rightarrow> string \<Rightarrow> DWORD \<Rightarrow> bool \<Rightarrow> string \<Rightarrow> buffer \<Rightarrow> (('w, 'x) sys_scheme, read_round) state"
where
  "take_chunk A zeroLog n final out buf =
     (if n = 0 then do {
        CpLog A zeroLog [];
        State_Monad.return (RoundDone ReadFailed out (SecureZeroVector buf))
      } else
        (let out = out @ mem_read buf (unat n); buf = mem_zero buf (unat n) in
         if length out > kMaxMsgBytes then do {
           CpLog A ''ReadPipeMessageWithTimeout: message too large'' [];
           State_Monad.return (RoundDone ReadFailed [] (SecureZeroVector buf))
         } else
           State_Monad.return (if final then RoundDone ReadOk out buf else RoundMore out buf)))"

definition read_pending ::
    "'w os_api \<Rightarrow> HANDLE \<Rightarrow> HANDLE \<Rightarrow> HANDLE \<Rightarrow> DWORD \<Rightarrow> string \<Rightarrow> buffer
     \<Rightarrow> (('w, 'x) sys_scheme, read_round) state"
where
  "read_pending A hPipe hBrokerProcess hEvent timeoutMs out buf = do {
     emit A (IoPending hEvent);
     wr \<leftarrow> ask (os_WaitForMultipleObjects A (wait_handles hEvent hBrokerProcess) timeoutMs);
     if wr = WAIT_OBJECT_0 then do {
       r \<leftarrow> ask (os_GetOverlappedResult A hPipe hEvent);
       gle \<leftarrow> (if io_ok r then State_Monad.return ERROR_SUCCESS else ask (os_GetLastError A));
       emit A (IoReaped hEvent);
       CloseHandle A hEvent;
       if io_ok r \<or> gle = ERROR_MORE_DATA then
         take_chunk A ''ReadPipeMessageWithTimeout: transferred=0'' (io_count r) (io_ok r) out
           (mem_write buf (io_data r))
       else if gle = ERROR_BROKEN_PIPE then do {
         CpLog A ''ReadPipeMessageWithTimeout: GetOverlappedResult ERROR_BROKEN_PIPE'' [];
         State_Monad.return (RoundDone ReadBrokerExited out (SecureZeroVector buf))
       } else do {
         CpLog A ''ReadPipeMessageWithTimeout: GetOverlappedResult failed err=%u'' [uint gle];
         State_Monad.return (RoundDone ReadFailed out (SecureZeroVector buf))
       }
     } else do {
       emit A (CancelledIo hPipe hEvent);
       CloseHandle A hEvent;
       State_Monad.return (RoundDone
         (if wr = WAIT_OBJECT_0 + 1 then ReadBrokerExited
          else if wr = WAIT_TIMEOUT then ReadTimeout
          else ReadFailed) out (SecureZeroVector buf))
     }
   }"

definition read_once ::
    "'w os_api \<Rightarrow> HANDLE \<Rightarrow> HANDLE \<Rightarrow> DWORD \<Rightarrow> string \<Rightarrow> buffer \<Rightarrow> (('w, 'x) sys_scheme, read_round) state"
where
  "read_once A hPipe hBrokerProcess timeoutMs out buf = do {
     hEvent \<leftarrow> CreateEventW A;
     if hEvent = NULL_HANDLE then do {
       le \<leftarrow> ask (os_GetLastError A);
       CpLog A ''ReadPipeMessageWithTimeout: CreateEventW failed err=%u'' [uint le];
       State_Monad.return (RoundDone ReadFailed out (SecureZeroVector buf))
     } else do {
       r \<leftarrow> ask (os_ReadFile A hPipe hEvent buf_size);
       let buf = mem_write buf (io_data r);
       if io_ok r then do {
         CloseHandle A hEvent;
         take_chunk A ''ReadPipeMessageWithTimeout: ReadFile ok but cbRead=0'' (io_count r) True out buf
       } else do {
         le \<leftarrow> ask (os_GetLastError A);
         if le = ERROR_MORE_DATA then do {
           CloseHandle A hEvent;
           take_chunk A ''ReadPipeMessageWithTimeout: ERROR_MORE_DATA with cbRead=0''
             (io_count r) False out buf
         } else if le = ERROR_BROKEN_PIPE then do {
           CloseHandle A hEvent;
           CpLog A ''ReadPipeMessageWithTimeout: ERROR_BROKEN_PIPE'' [];
           State_Monad.return (RoundDone ReadBrokerExited out (SecureZeroVector buf))
         } else if le \<noteq> ERROR_IO_PENDING then do {
           CpLog A ''ReadPipeMessageWithTimeout: ReadFile failed err=%u'' [uint le];
           CloseHandle A hEvent;
           State_Monad.return (RoundDone ReadFailed out (SecureZeroVector buf))
         } else read_pending A hPipe hBrokerProcess hEvent timeoutMs out buf
       }
     }
   }"

lemmas read_defs = read_once_def read_pending_def take_chunk_def CreateEventW_def own_def

lemma length_mem_read [simp]: "length (mem_read buf n) = n"
  by (simp add: mem_read_def)

definition round_grows :: "string \<Rightarrow> read_round \<Rightarrow> bool" where
  "round_grows out r \<longleftrightarrow>
     (\<forall>out' buf'. r = RoundMore out' buf' \<longrightarrow> length out < length out' \<and> length out' \<le> kMaxMsgBytes)"

lemma round_grows_simps [simp]:
  "round_grows out (RoundDone r out' buf')"
  "round_grows out (RoundMore out' buf') \<longleftrightarrow>
     length out < length out' \<and> length out' \<le> kMaxMsgBytes"
  by (auto simp: round_grows_def)

lemma read_once_grows:
  "wp (read_once A hPipe hBrokerProcess timeoutMs out buf) (\<lambda>r _. round_grows out r) s"
  by (simp add: read_defs wp_simps Let_def unat_gt_0 not_less)

lemma read_loop_measure:
  assumes "(RoundMore out' buf', s') = run_state (read_once A hPipe hBrokerProcess timeoutMs out buf) s"
  shows "kMaxMsgBytes - length out' < kMaxMsgBytes - length out"
proof -
  from wp_run [OF assms [symmetric] read_once_grows] show ?thesis by auto
qed

function read_loop ::
    "'w os_api \<Rightarrow> HANDLE \<Rightarrow> HANDLE \<Rightarrow> DWORD \<Rightarrow> string \<Rightarrow> buffer \<Rightarrow> ('w, 'x) sys_scheme
     \<Rightarrow> (PipeReadResult \<times> string \<times> buffer) \<times> ('w, 'x) sys_scheme"
where
  "read_loop A hPipe hBrokerProcess timeoutMs out buf s =
     (case run_state (read_once A hPipe hBrokerProcess timeoutMs out buf) s of (round, s') \<Rightarrow>
        (case round of
           RoundDone r out' buf' \<Rightarrow> ((r, out', buf'), s')
         | RoundMore out' buf' \<Rightarrow> read_loop A hPipe hBrokerProcess timeoutMs out' buf' s'))"
  by pat_completeness auto
termination
  by (relation "measure (\<lambda>(A, p, b, t, out, buf, s). kMaxMsgBytes - length out)")
     (auto intro: read_loop_measure)

declare read_loop.simps [simp del]

definition ReadPipeMessageWithTimeout ::
    "'w os_api \<Rightarrow> HANDLE \<Rightarrow> HANDLE \<Rightarrow> DWORD \<Rightarrow> (('w, 'x) sys_scheme, PipeReadResult \<times> string) state"
where
  "ReadPipeMessageWithTimeout A hPipe hBrokerProcess timeoutMs = State (\<lambda>s.
     case read_loop A hPipe hBrokerProcess timeoutMs [] (\<lambda>_. CHR 0x00) s of
       ((r, out, buf), s') \<Rightarrow> ((r, out), s'))"

section \<open>Reading until done\<close>

partial_function (option) until_loop ::
    "'w os_api \<Rightarrow> HANDLE \<Rightarrow> HANDLE \<Rightarrow> DWORD \<Rightarrow> DWORD \<Rightarrow> ULONGLONG \<Rightarrow> ('w, 'x) sys_scheme
     \<Rightarrow> ((PipeReadResult \<times> string) \<times> ('w, 'x) sys_scheme) option"
where
  "until_loop A hPipe hBrokerProcess sliceMs overall startTick s =
     (case run_state (ReadPipeMessageWithTimeout A hPipe hBrokerProcess sliceMs) s of (res, s) \<Rightarrow>
        if fst res \<noteq> ReadTimeout then Some (res, s)
        else if hBrokerProcess = NULL_HANDLE then Some ((ReadTimeout, snd res), s)
        else
          (case run_state (ask (os_WaitForSingleObject A hBrokerProcess 0)) s of (wr, s) \<Rightarrow>
             if wr = WAIT_OBJECT_0 then Some ((ReadBrokerExited, snd res), s)
             else if overall \<noteq> INFINITE then
               (case run_state (ask (os_GetTickCount64 A)) s of (now, s) \<Rightarrow>
                  if ucast overall \<le> now - startTick then Some ((ReadTimeout, snd res), s)
                  else until_loop A hPipe hBrokerProcess sliceMs overall startTick s)
             else until_loop A hPipe hBrokerProcess sliceMs overall startTick s))"

text \<open>\<open>None\<close> is a call that never returns.\<close>

definition ReadPipeMessageUntilDone ::
    "'w os_api \<Rightarrow> HANDLE \<Rightarrow> HANDLE \<Rightarrow> DWORD \<Rightarrow> DWORD \<Rightarrow> ('w, 'x) sys_scheme
     \<Rightarrow> ((PipeReadResult \<times> string) \<times> ('w, 'x) sys_scheme) option"
where
  "ReadPipeMessageUntilDone A hPipe hBrokerProcess sliceTimeoutMs overallTimeoutMs s =
     (let readSliceTimeoutMs = (if sliceTimeoutMs = 0 then 30000 else sliceTimeoutMs) in
      case run_state (ask (os_GetTickCount64 A)) s of (startTick, s) \<Rightarrow>
        until_loop A hPipe hBrokerProcess readSliceTimeoutMs overallTimeoutMs startTick s)"

section \<open>Rules for the loops\<close>

lemma read_loop_rule:
  assumes round: "\<And>out buf s. I out buf s \<Longrightarrow>
      wp (read_once A hPipe hBrokerProcess timeoutMs out buf) (\<lambda>r s'.
        case r of RoundDone res out' buf' \<Rightarrow> Q res out' buf' s' | RoundMore out' buf' \<Rightarrow> I out' buf' s') s"
  shows "I out buf s \<Longrightarrow>
    case read_loop A hPipe hBrokerProcess timeoutMs out buf s of
      ((res, out', buf'), s') \<Rightarrow> Q res out' buf' s'"
proof (induction "kMaxMsgBytes - length out" arbitrary: out buf s rule: less_induct)
  case less
  obtain r s' where r: "run_state (read_once A hPipe hBrokerProcess timeoutMs out buf) s = (r, s')"
    by fastforce
  note post = wp_run [OF r round [OF less.prems]]
  show ?case
  proof (cases r)
    case (RoundDone res out' buf')
    with post r show ?thesis by (simp add: read_loop.simps [of A hPipe hBrokerProcess timeoutMs out buf s])
  next
    case (RoundMore out' buf')
    have m: "kMaxMsgBytes - length out' < kMaxMsgBytes - length out"
      using read_loop_measure r RoundMore by metis
    show ?thesis
      using less.hyps [OF m] post r RoundMore
      by (simp add: read_loop.simps [of A hPipe hBrokerProcess timeoutMs out buf s])
  qed
qed

lemma ReadPipeMessageWithTimeout_rule:
  assumes "\<And>out buf s. I out buf s \<Longrightarrow>
      wp (read_once A hPipe hBrokerProcess timeoutMs out buf) (\<lambda>r s'.
        case r of RoundDone res out' buf' \<Rightarrow> Q (res, out') s' | RoundMore out' buf' \<Rightarrow> I out' buf' s') s"
    and "I [] (\<lambda>_. CHR 0x00) s"
  shows "wp (ReadPipeMessageWithTimeout A hPipe hBrokerProcess timeoutMs) Q s"
  using read_loop_rule [where Q = "\<lambda>res out' _ s'. Q (res, out') s'", OF assms]
  by (simp add: wp_def ReadPipeMessageWithTimeout_def split: prod.splits)

section \<open>What a read leaves behind\<close>

lemma mem_read_eq_Nil [simp]: "mem_read buf n = [] \<longleftrightarrow> n = 0"
  by (simp add: mem_read_def)

lemma unat_eq_0_iff' [simp]: "unat (w :: 'a::len word) = 0 \<longleftrightarrow> w = 0"
  by (simp add: unat_eq_0)

text \<open>Every event a round creates is closed on each of its exits.\<close>

lemma read_once_frame:
  "wp (read_once A hPipe hBrokerProcess timeoutMs out buf) (\<lambda>_ s'. os_frame s s') s"
  by (simp add: read_defs wp_simps Let_def os_frame_def)

lemma take_chunk_bound:
  "length out \<le> kMaxMsgBytes \<Longrightarrow>
   wp (take_chunk A zl n final out buf) (\<lambda>r _.
     case r of RoundDone res out' buf' \<Rightarrow> length out' \<le> kMaxMsgBytes \<and> (res = ReadOk \<longrightarrow> out' \<noteq> [])
     | RoundMore out' buf' \<Rightarrow> length out' \<le> kMaxMsgBytes) s"
  by (simp add: take_chunk_def wp_simps Let_def)

lemma read_once_bound:
  assumes "length out \<le> kMaxMsgBytes"
  shows "wp (read_once A hPipe hBrokerProcess timeoutMs out buf) (\<lambda>r _.
     case r of RoundDone res out' buf' \<Rightarrow> length out' \<le> kMaxMsgBytes \<and> (res = ReadOk \<longrightarrow> out' \<noteq> [])
     | RoundMore out' buf' \<Rightarrow> length out' \<le> kMaxMsgBytes) s"
  using assms
  by (simp add: read_once_def read_pending_def CreateEventW_def own_def wp_simps Let_def take_chunk_bound)

lemma read_message_frame:
  "wp (ReadPipeMessageWithTimeout A hPipe hBrokerProcess timeoutMs) (\<lambda>res s'.
     os_frame s s' \<and> length (snd res) \<le> kMaxMsgBytes \<and> (fst res = ReadOk \<longrightarrow> snd res \<noteq> [])) s"
proof (rule ReadPipeMessageWithTimeout_rule
         [where I = "\<lambda>out _ t. os_frame s t \<and> length out \<le> kMaxMsgBytes"], goal_cases)
  case (1 out buf t)
  show ?case
    by (rule wp_mono [OF wp_conj [OF read_once_frame read_once_bound]])
       (use 1 in \<open>auto split: read_round.splits intro: os_frame_trans\<close>)
qed (simp add: kMaxMsgBytes_def)

text \<open>
  What the code relies on when it wipes the buffer: a transfer writes no more than the
  count it reports and no more than the buffer holds, and a read that is still pending has
  written nothing yet.
\<close>

definition transfer_law :: "'w os_api \<Rightarrow> bool" where
  "transfer_law A \<longleftrightarrow>
     (\<forall>p e n w. case os_ReadFile A p e n w of (r, w') \<Rightarrow>
        length (io_data r) \<le> n
        \<and> (if io_ok r \<or> fst (os_GetLastError A w') = ERROR_MORE_DATA
           then length (io_data r) \<le> unat (io_count r)
           else fst (os_GetLastError A w') = ERROR_IO_PENDING \<longrightarrow> io_data r = []))
     \<and> (\<forall>p e w. case os_GetOverlappedResult A p e w of (r, w') \<Rightarrow>
        length (io_data r) \<le> buf_size \<and> length (io_data r) \<le> unat (io_count r))"

lemma transfer_lawD:
  assumes "transfer_law A"
  shows "length (io_data (fst (os_ReadFile A p e n w))) \<le> n"
    and "io_ok (fst (os_ReadFile A p e n w)) \<Longrightarrow>
         length (io_data (fst (os_ReadFile A p e n w))) \<le> unat (io_count (fst (os_ReadFile A p e n w)))"
    and "fst (os_GetLastError A (snd (os_ReadFile A p e n w))) = ERROR_MORE_DATA \<Longrightarrow>
         length (io_data (fst (os_ReadFile A p e n w))) \<le> unat (io_count (fst (os_ReadFile A p e n w)))"
    and "\<not> io_ok (fst (os_ReadFile A p e n w)) \<Longrightarrow>
         fst (os_GetLastError A (snd (os_ReadFile A p e n w))) = ERROR_IO_PENDING \<Longrightarrow>
         io_data (fst (os_ReadFile A p e n w)) = []"
    and "length (io_data (fst (os_GetOverlappedResult A p e w))) \<le> buf_size"
    and "length (io_data (fst (os_GetOverlappedResult A p e w)))
         \<le> unat (io_count (fst (os_GetOverlappedResult A p e w)))"
proof -
  let ?r = "fst (os_ReadFile A p e n w)" and ?w = "snd (os_ReadFile A p e n w)"
  have R: "length (io_data ?r) \<le> n
      \<and> (if io_ok ?r \<or> fst (os_GetLastError A ?w) = ERROR_MORE_DATA
         then length (io_data ?r) \<le> unat (io_count ?r)
         else fst (os_GetLastError A ?w) = ERROR_IO_PENDING \<longrightarrow> io_data ?r = [])"
    using assms unfolding transfer_law_def case_prod_unfold by blast
  have G: "length (io_data (fst (os_GetOverlappedResult A p e w))) \<le> buf_size
      \<and> length (io_data (fst (os_GetOverlappedResult A p e w)))
        \<le> unat (io_count (fst (os_GetOverlappedResult A p e w)))"
    using assms unfolding transfer_law_def case_prod_unfold by blast
  show "length (io_data ?r) \<le> n" using R by simp
  show "io_ok ?r \<Longrightarrow> length (io_data ?r) \<le> unat (io_count ?r)" using R by simp
  show "fst (os_GetLastError A ?w) = ERROR_MORE_DATA \<Longrightarrow> length (io_data ?r) \<le> unat (io_count ?r)"
    using R by simp
  show "\<not> io_ok ?r \<Longrightarrow> fst (os_GetLastError A ?w) = ERROR_IO_PENDING \<Longrightarrow> io_data ?r = []"
    using R by simp
  show "length (io_data (fst (os_GetOverlappedResult A p e w))) \<le> buf_size"
    "length (io_data (fst (os_GetOverlappedResult A p e w)))
     \<le> unat (io_count (fst (os_GetOverlappedResult A p e w)))"
    using G by simp_all
qed

definition wiped :: "buffer \<Rightarrow> bool" where
  "wiped buf \<longleftrightarrow> buf = (\<lambda>_. CHR 0x00)"

lemma wiped_write_zero:
  "wiped buf \<Longrightarrow> length data \<le> n \<Longrightarrow> wiped (mem_zero (mem_write buf data) n)"
  by (auto simp: wiped_def mem_zero_def mem_write_def)

lemma wiped_secure [simp]:
  "wiped buf \<Longrightarrow> length data \<le> buf_size \<Longrightarrow> wiped (SecureZeroVector (mem_write buf data))"
  by (simp add: SecureZeroVector_def wiped_write_zero)

lemma wiped_zero [simp]: "wiped buf \<Longrightarrow> wiped (mem_zero buf n)" "wiped buf \<Longrightarrow> wiped (SecureZeroVector buf)"
  by (auto simp: wiped_def mem_zero_def SecureZeroVector_def)

lemma mem_write_Nil [simp]: "mem_write buf [] = buf"
  by (simp add: mem_write_def)

definition round_wiped :: "read_round \<Rightarrow> bool" where
  "round_wiped r = (case r of RoundDone _ _ buf \<Rightarrow> wiped buf | RoundMore _ buf \<Rightarrow> wiped buf)"

lemma round_wiped_simps [simp]:
  "round_wiped (RoundDone res out buf) = wiped buf" "round_wiped (RoundMore out buf) = wiped buf"
  by (simp_all add: round_wiped_def)

lemma take_chunk_wipes:
  "wiped buf \<Longrightarrow> length data \<le> buf_size \<Longrightarrow> length data \<le> unat n \<Longrightarrow>
   wp (take_chunk A zl n final out (mem_write buf data)) (\<lambda>r _. round_wiped r) s"
  by (simp add: take_chunk_def wp_simps Let_def wiped_write_zero)

lemma read_once_wipes:
  assumes "transfer_law A" and "wiped buf"
  shows "wp (read_once A hPipe hBrokerProcess timeoutMs out buf) (\<lambda>r _. round_wiped r) s"
  using assms
  by (simp add: read_once_def read_pending_def CreateEventW_def own_def wp_simps Let_def
      take_chunk_wipes transfer_lawD)


section \<open>Overlapped reads that are still pending\<close>

text \<open>
  \<open>pending_io es\<close>: overlapped operations that were started and not seen to finish.  The
  kernel may still write into the buffer and the \<open>OVERLAPPED\<close> of such an operation.
\<close>

fun pending_io :: "ev list \<Rightarrow> int" where
  "pending_io [] = 0"
| "pending_io (e # es) =
     (case e of IoPending _ \<Rightarrow> pending_io es + 1 | IoReaped _ \<Rightarrow> pending_io es - 1 | _ \<Rightarrow> pending_io es)"

definition pending_step :: "('w, 'x) sys_scheme \<Rightarrow> read_round \<Rightarrow> ('w, 'x) sys_scheme \<Rightarrow> bool" where
  "pending_step s r s' \<longleftrightarrow> (case r of
     RoundDone ReadOk _ _ \<Rightarrow> pending_io (trace s') = pending_io (trace s)
   | RoundDone ReadTimeout _ _ \<Rightarrow> pending_io (trace s') = pending_io (trace s) + 1
   | RoundDone _ _ _ \<Rightarrow> pending_io (trace s') \<in> {pending_io (trace s), pending_io (trace s) + 1}
   | RoundMore _ _ \<Rightarrow> pending_io (trace s') = pending_io (trace s))"

lemma pending_step_simps [simp]:
  "pending_step s (RoundDone ReadOk out buf) s' \<longleftrightarrow> pending_io (trace s') = pending_io (trace s)"
  "pending_step s (RoundDone ReadTimeout out buf) s' \<longleftrightarrow> pending_io (trace s') = pending_io (trace s) + 1"
  "pending_step s (RoundDone ReadFailed out buf) s' \<longleftrightarrow>
     pending_io (trace s') \<in> {pending_io (trace s), pending_io (trace s) + 1}"
  "pending_step s (RoundDone ReadBrokerExited out buf) s' \<longleftrightarrow>
     pending_io (trace s') \<in> {pending_io (trace s), pending_io (trace s) + 1}"
  "pending_step s (RoundMore out buf) s' \<longleftrightarrow> pending_io (trace s') = pending_io (trace s)"
  by (simp_all add: pending_step_def)

lemma take_chunk_pending:
  "pending_io (trace s') = pending_io (trace s) \<Longrightarrow>
   wp (take_chunk A zl n final out buf) (\<lambda>r t. pending_step s r t) s'"
  by (simp add: take_chunk_def wp_simps Let_def)

lemma read_once_pending:
  "wp (read_once A hPipe hBrokerProcess timeoutMs out buf) (\<lambda>r t. pending_step s r t) s"
  by (simp add: read_once_def read_pending_def CreateEventW_def own_def wp_simps Let_def
      take_chunk_pending)

lemma read_message_pending:
  "wp (ReadPipeMessageWithTimeout A hPipe hBrokerProcess timeoutMs) (\<lambda>res s'.
     (fst res = ReadOk \<longrightarrow> pending_io (trace s') = pending_io (trace s))
     \<and> (fst res = ReadTimeout \<longrightarrow> pending_io (trace s') = pending_io (trace s) + 1)) s"
proof (rule ReadPipeMessageWithTimeout_rule
         [where I = "\<lambda>_ _ t. pending_io (trace t) = pending_io (trace s)"], goal_cases)
  case (1 out buf t)
  show ?case
    by (rule wp_mono [OF read_once_pending]) (use 1 in \<open>auto split: read_round.splits\<close>)
qed simp

text \<open>
  C31: a read that times out cancels its overlapped operation and closes the event without
  waiting for the operation to end: it is still pending when the stack frame that holds the
  \<open>OVERLAPPED\<close> and the buffer is gone.  A read that delivers a message leaves none behind.
\<close>

theorem timeout_leaves_io_pending:
  assumes "run_state (ReadPipeMessageWithTimeout A hPipe hBrokerProcess timeoutMs) s = ((res, out), s')"
  shows "(res = ReadTimeout \<longrightarrow> pending_io (trace s') = pending_io (trace s) + 1)
    \<and> (res = ReadOk \<longrightarrow> pending_io (trace s') = pending_io (trace s))"
  using wp_run [OF assms read_message_pending] by simp

section \<open>The slices of a read\<close>

lemma until_loop_rule:
  assumes slice: "\<And>s. I s \<Longrightarrow>
      wp (ReadPipeMessageWithTimeout A hPipe hBrokerProcess sliceMs) (\<lambda>res s'.
        Q res s' \<and> (fst res = ReadTimeout \<longrightarrow> (\<forall>w. I (s'\<lparr>world := w\<rparr>)
          \<and> Q res (s'\<lparr>world := w\<rparr>) \<and> Q (ReadBrokerExited, snd res) (s'\<lparr>world := w\<rparr>)))) s"
    and run: "until_loop A hPipe hBrokerProcess sliceMs overall startTick s = Some (res, s')"
    and start: "I s"
  shows "Q res s'"
proof -
  have "A = A \<and> hPipe = hPipe \<and> hBrokerProcess = hBrokerProcess \<and> sliceMs = sliceMs \<longrightarrow> I s \<longrightarrow>
    Q (fst (res, s')) (snd (res, s'))"
  proof (rule until_loop.raw_induct [OF _ run,
      of "\<lambda>A' p b sl ov st s y. A = A' \<and> hPipe = p \<and> hBrokerProcess = b \<and> sliceMs = sl \<longrightarrow>
            I s \<longrightarrow> Q (fst y) (snd y)"], intro impI, elim conjE, goal_cases)
    case (1 loop A' p b sl ov st t y)
    obtain rr out u
      where r: "run_state (ReadPipeMessageWithTimeout A hPipe hBrokerProcess sliceMs) t = ((rr, out), u)"
      by (metis surj_pair)
    obtain yr yo yt where y: "y = ((yr, yo), yt)" by (metis surj_pair)
    note post = wp_run [OF r slice [OF \<open>I t\<close>]]
    note eqs = \<open>A = A'\<close> \<open>hPipe = p\<close> \<open>hBrokerProcess = b\<close> \<open>sliceMs = sl\<close>
    show ?case
      using 1(2) post 1(1) [of A hPipe hBrokerProcess sliceMs ov st] unfolding eqs [symmetric] y r
      by (auto simp: run_ask split: if_splits)
  qed
  with start show ?thesis by simp
qed

lemma until_done_eq:
  "ReadPipeMessageUntilDone A hPipe hBrokerProcess sliceMs overall s =
   until_loop A hPipe hBrokerProcess (if sliceMs = 0 then 30000 else sliceMs) overall
     (fst (os_GetTickCount64 A (world s))) (s\<lparr>world := snd (os_GetTickCount64 A (world s))\<rparr>)"
  by (simp add: ReadPipeMessageUntilDone_def run_ask)

lemma until_done_frame:
  assumes "ReadPipeMessageUntilDone A hPipe hBrokerProcess sliceMs overall s = Some ((res, out), s')"
  shows "os_frame s s' \<and> length out \<le> kMaxMsgBytes \<and> (res = ReadOk \<longrightarrow> out \<noteq> [])"
proof -
  let ?Q = "\<lambda>r t. os_frame s t \<and> length (snd r) \<le> kMaxMsgBytes \<and> (fst r = ReadOk \<longrightarrow> snd r \<noteq> [])"
  have "?Q (res, out) s'"
  proof (rule until_loop_rule [where I = "os_frame s" and Q = ?Q, OF _ assms [unfolded until_done_eq]],
      goal_cases)
    case (1 t)
    show ?case
      by (rule wp_mono [OF read_message_frame]) (use 1 in \<open>auto intro: os_frame_trans os_frame_world\<close>)
  qed (simp add: os_frame_world)
  then show ?thesis by simp
qed

text \<open>A slice that ended in a message or a timeout; how many reads are left pending.\<close>

section \<open>A read returns\<close>

text \<open>
  What the documentation of the clock and of the waits says: the 64-bit tick count reads a
  clock that never runs backwards (nor wraps: 2 to the 64 milliseconds are 584 million
  years), and a wait with a nonzero timeout that times out took time.
\<close>

definition clock_law :: "'w os_api \<Rightarrow> ('w \<Rightarrow> nat) \<Rightarrow> bool" where
  "clock_law A clk \<longleftrightarrow>
     (\<forall>w. unat (fst (os_GetTickCount64 A w)) = clk w \<and> clk w \<le> clk (snd (os_GetTickCount64 A w))
        \<and> clk w \<le> clk (snd (os_GetLastError A w)) \<and> clk w \<le> clk (snd (os_CreateEvent A w)))
   \<and> (\<forall>e w. clk w \<le> clk (os_note A e w))
   \<and> (\<forall>h t w. clk w \<le> clk (snd (os_WaitForSingleObject A h t w)))
   \<and> (\<forall>p e n w. clk w \<le> clk (snd (os_ReadFile A p e n w))
        \<and> clk w \<le> clk (snd (os_GetOverlappedResult A p e w)))
   \<and> (\<forall>hs t w. clk w \<le> clk (snd (os_WaitForMultipleObjects A hs t w))
        \<and> (t \<noteq> 0 \<longrightarrow> fst (os_WaitForMultipleObjects A hs t w) = WAIT_TIMEOUT \<longrightarrow>
             clk w < clk (snd (os_WaitForMultipleObjects A hs t w))))"

lemma clock_lawD:
  assumes "clock_law A clk"
  shows "unat (fst (os_GetTickCount64 A w)) = clk w"
    and "x \<le> clk w \<Longrightarrow> x \<le> clk (snd (os_GetTickCount64 A w))"
    and "x \<le> clk w \<Longrightarrow> x \<le> clk (snd (os_GetLastError A w))"
    and "x \<le> clk w \<Longrightarrow> x \<le> clk (snd (os_CreateEvent A w))"
    and "x \<le> clk w \<Longrightarrow> x \<le> clk (os_note A e w)"
    and "x \<le> clk w \<Longrightarrow> x \<le> clk (snd (os_WaitForSingleObject A h t w))"
    and "x \<le> clk w \<Longrightarrow> x \<le> clk (snd (os_ReadFile A p e' n w))"
    and "x \<le> clk w \<Longrightarrow> x \<le> clk (snd (os_GetOverlappedResult A p e' w))"
    and "x \<le> clk w \<Longrightarrow> x \<le> clk (snd (os_WaitForMultipleObjects A hs t w))"
    and "x < clk w \<Longrightarrow> x < clk (os_note A e w)"
    and "t \<noteq> 0 \<Longrightarrow> fst (os_WaitForMultipleObjects A hs t w) = WAIT_TIMEOUT \<Longrightarrow> x \<le> clk w \<Longrightarrow>
         x < clk (snd (os_WaitForMultipleObjects A hs t w))"
  using assms unfolding clock_law_def
  by (blast intro: le_trans less_le_trans le_less_trans)+

definition clock_step :: "nat \<Rightarrow> read_round \<Rightarrow> nat \<Rightarrow> bool" where
  "clock_step c r c' \<longleftrightarrow> c \<le> c' \<and> (\<forall>out buf. r = RoundDone ReadTimeout out buf \<longrightarrow> c < c')"

lemma clock_step_simps [simp]:
  "clock_step c (RoundDone ReadTimeout out buf) c' \<longleftrightarrow> c < c'"
  "r \<noteq> ReadTimeout \<Longrightarrow> clock_step c (RoundDone r out buf) c' \<longleftrightarrow> c \<le> c'"
  "clock_step c (RoundMore out buf) c' \<longleftrightarrow> c \<le> c'"
  by (auto simp: clock_step_def)

lemma take_chunk_clock:
  "clock_law A clk \<Longrightarrow> c \<le> clk (world s) \<Longrightarrow>
   wp (take_chunk A zl n final out buf) (\<lambda>r t. clock_step c r (clk (world t))) s"
  by (simp add: take_chunk_def wp_simps Let_def clock_lawD)

lemma read_once_clock:
  assumes "clock_law A clk" and "timeoutMs \<noteq> 0" and "c \<le> clk (world s)"
  shows "wp (read_once A hPipe hBrokerProcess timeoutMs out buf)
    (\<lambda>r t. clock_step c r (clk (world t))) s"
  using assms
  by (simp add: read_once_def read_pending_def CreateEventW_def own_def wp_simps Let_def
      take_chunk_clock clock_lawD)

lemma read_message_clock:
  assumes "clock_law A clk" and "timeoutMs \<noteq> 0"
  shows "wp (ReadPipeMessageWithTimeout A hPipe hBrokerProcess timeoutMs) (\<lambda>res t.
    clk (world s) \<le> clk (world t) \<and> (fst res = ReadTimeout \<longrightarrow> clk (world s) < clk (world t))) s"
proof (rule ReadPipeMessageWithTimeout_rule
         [where I = "\<lambda>_ _ t. clk (world s) \<le> clk (world t)"], goal_cases)
  case (1 out buf t)
  show ?case
    by (rule wp_mono [OF read_once_clock [OF assms 1]]) (auto simp: clock_step_def split: read_round.splits)
qed simp

lemma tick_elapsed:
  fixes now start :: "64 word"
  assumes "unat start \<le> unat now"
  shows "ucast (overall :: 32 word) \<le> now - start \<longleftrightarrow> unat overall \<le> unat now - unat start"
  using assms proof -
  have "unat overall < 2 ^ 64" by (rule less_trans [OF unsigned_less]) simp
  then have "unat (ucast overall :: 64 word) = unat overall" by (simp add: unsigned_ucast_eq take_bit_nat_eq_self)
  then show ?thesis using assms by (simp add: word_le_nat_alt unat_sub)
qed

lemma until_loop_returns:
  assumes law: "clock_law A clk" and t: "sliceMs \<noteq> 0" and ov: "overall \<noteq> INFINITE"
  shows "unat startTick \<le> clk (world s) \<Longrightarrow>
    \<exists>r. until_loop A hPipe hBrokerProcess sliceMs overall startTick s = Some r"
proof (induction "unat overall - (clk (world s) - unat startTick)" arbitrary: s rule: less_induct)
  case less
  let ?run = "until_loop A hPipe hBrokerProcess sliceMs overall startTick"
  obtain res out u
    where r: "run_state (ReadPipeMessageWithTimeout A hPipe hBrokerProcess sliceMs) s = ((res, out), u)"
    by (metis surj_pair)
  define w where "w = snd (os_WaitForSingleObject A hBrokerProcess 0 (world u))"
  define now where "now = fst (os_GetTickCount64 A w)"
  define v where "v = u\<lparr>world := snd (os_GetTickCount64 A w)\<rparr>"
  note unf = until_loop.simps [of A hPipe hBrokerProcess sliceMs overall startTick s]
  show ?case
  proof (cases "res = ReadTimeout \<and> hBrokerProcess \<noteq> NULL_HANDLE
      \<and> fst (os_WaitForSingleObject A hBrokerProcess 0 (world u)) \<noteq> WAIT_OBJECT_0
      \<and> \<not> ucast overall \<le> now - startTick")
    case False
    then show ?thesis using ov unf r by (auto simp: run_ask w_def now_def)
  next
    case True
    then have eq: "?run s = ?run v"
      using ov unf r by (simp add: run_ask w_def now_def v_def)
    have "clk (world s) < clk (world u)"
      using wp_run [OF r read_message_clock [OF law t]] True by auto
    then have now: "clk (world s) < unat now" "unat now \<le> clk (world v)"
      using law by (auto simp: now_def w_def v_def clock_lawD less_le_trans [OF _ clock_lawD(6) [OF law order_refl]]
          clock_lawD(2) [OF law order_refl])
    then have "\<not> unat overall \<le> unat now - unat startTick"
      using True less.prems tick_elapsed [of startTick now overall] by simp
    then have "unat overall - (clk (world v) - unat startTick)
      < unat overall - (clk (world s) - unat startTick)" "unat startTick \<le> clk (world v)"
      using now less.prems by linarith+
    then show ?thesis using less.hyps [of v] eq by simp
  qed
qed

lemma until_done_returns:
  assumes "clock_law A clk" and "overall \<noteq> INFINITE"
  shows "\<exists>r. ReadPipeMessageUntilDone A hPipe hBrokerProcess sliceMs overall s = Some r"
  unfolding until_done_eq
  by (rule until_loop_returns [OF assms(1) _ assms(2)]) (simp_all add: clock_lawD [OF assms(1)])


section \<open>Waiting for the client\<close>

lemma connect_frame:
  "wp (WaitPipeClientConnect A hPipe hBrokerProcess timeoutMs) (\<lambda>_ s'. os_frame s s') s"
  by (simp add: WaitPipeClientConnect_def CreateEventW_def own_def wp_simps Let_def os_frame_def)

section \<open>The interface the credential uses\<close>

text \<open>
  A source of messages: what a reader of the pipe promises its caller.  It touches no
  component's state, keeps no handle and no lock, and a message it delivers is not empty and
  not longer than \<^const>\<open>kMaxMsgBytes\<close>.
\<close>

locale message_source =
  fixes recv :: "('w, 'x) sys_scheme \<Rightarrow> ((PipeReadResult \<times> string) \<times> ('w, 'x) sys_scheme) option"
  assumes recv_frame: "recv s = Some ((res, out), s') \<Longrightarrow> os_frame s s'"
    and recv_ok: "recv s = Some ((ReadOk, out), s') \<Longrightarrow> out \<noteq> []"
    and recv_bound: "recv s = Some ((res, out), s') \<Longrightarrow> length out \<le> kMaxMsgBytes"
begin

lemma recv_state: "recv s = Some (r, s') \<Longrightarrow> sys.more s' = sys.more s"
  using recv_frame [of s "fst r" "snd r" s'] by (simp add: os_frame_def)

lemma recv_handles: "recv s = Some (r, s') \<Longrightarrow> net h (trace s') = net h (trace s)"
  using recv_frame [of s "fst r" "snd r" s'] by (simp add: os_frame_def)

lemma recv_locks: "recv s = Some (r, s') \<Longrightarrow> holds l (trace s') = holds l (trace s)"
  using recv_frame [of s "fst r" "snd r" s'] by (simp add: os_frame_def)

text \<open>The test of the caller, \<open>readResult != Ok || msgJson.empty()\<close>, is a test of the result.\<close>

lemma recv_failed_iff:
  "recv s = Some ((res, out), s') \<Longrightarrow> (res \<noteq> ReadOk \<or> out = []) \<longleftrightarrow> res \<noteq> ReadOk"
  using recv_ok by auto

end

interpretation pipe: message_source "ReadPipeMessageUntilDone A hPipe hBrokerProcess sliceMs overall"
  for A hPipe hBrokerProcess sliceMs overall
  by unfold_locales (auto dest: until_done_frame)

section \<open>Witnesses\<close>

lemma silent_laws: "transfer_law silent_api" "clock_law silent_api unat"
  by (auto simp: transfer_law_def clock_law_def demo_wait_def word_less_nat_alt word_le_nat_alt not_le)


lemma silent_read:
  "run_state (ReadPipeMessageWithTimeout silent_api 0x20 0x30 250) start_sys =
   ((ReadTimeout, []), \<lparr>world = 1250, trace = [Closed 0x10, CancelledIo 0x20 0x10, IoPending 0x10, Opened 0x10]\<rparr>)"
  by (simp add: ReadPipeMessageWithTimeout_def read_loop.simps [of silent_api] read_once_def
      read_pending_def CreateEventW_def own_def when_do_def start_sys_def run_ask demo_wait_def
      emit_def CloseHandle_def Let_def)

lemma timeout_leaves_io_pending_witness:
  "\<exists>s'. run_state (ReadPipeMessageWithTimeout silent_api 0x20 0x30 250) start_sys = ((ReadTimeout, []), s')
      \<and> pending_io (trace s') = 1"
  using timeout_leaves_io_pending [OF silent_read] silent_read by (simp add: start_sys_def)


end
