(* ===== verification/Json_Grammar.thy ===== *)
theory Json_Grammar
  imports Json_String
begin

text \<open>
  What \<open>ParseJsonLine\<close> (\<open>src/src/broker/ProviderJson.cpp\<close>) accepts: a grammar of flat
  objects with string members, and the proof that the index-based parser accepts exactly its
  sentences and returns the last value of each known key.
\<close>

section \<open>White space and quoted tokens\<close>

abbreviation all_ws :: "string \<Rightarrow> bool" where "all_ws w \<equiv> list_all is_ws w"

lemma SkipWs_split: "\<exists>w. all_ws w \<and> drop i s = w @ drop (SkipWs s i) s"
proof (induction s i rule: SkipWs.induct)
  case (1 s i)
  show ?case
  proof (cases "i < length s \<and> is_ws (s ! i)")
    case True
    with 1 obtain w where "all_ws w" "drop (Suc i) s = w @ drop (SkipWs s (Suc i)) s" by blast
    with True show ?thesis
      by (intro exI [of _ "s ! i # w"]) (simp add: SkipWs.simps [of s i] drop_Cons_nth)
  next
    case False
    then have "SkipWs s i = i" by (auto simp: SkipWs.simps [of s i])
    then show ?thesis by (intro exI [of _ "[]"]) simp
  qed
qed

lemma SkipWs_stop:
  assumes "drop i s = w @ c # r" and "all_ws w" and "\<not> is_ws c"
  shows "SkipWs s i = i + length w \<and> drop (i + length w) s = c # r"
  using assms
proof (induction w arbitrary: i)
  case Nil
  then show ?case by (subst SkipWs.simps) (auto dest: drop_eq_ConsD)
next
  case (Cons a w)
  then have "i < length s" "s ! i = a" "drop (Suc i) s = w @ c # r"
    by (auto dest: drop_eq_ConsD)
  with Cons.IH [of "Suc i"] Cons.prems show ?case by (simp add: SkipWs.simps [of s i])
qed

lemma SkipWs_end:
  assumes "all_ws (drop i s)" and "i \<le> length s"
  shows "SkipWs s i = length s"
  using assms
proof (induction s i rule: SkipWs.induct)
  case (1 s i)
  show ?case
  proof (cases "i < length s")
    case True
    with 1(2) have "is_ws (s ! i)" "all_ws (drop (Suc i) s)" by (simp_all add: drop_Cons_nth)
    with 1(1) True show ?thesis by (simp add: SkipWs.simps [of s i])
  next
    case False
    with 1(3) show ?thesis by (simp add: SkipWs.simps [of s "length s"])
  qed
qed

text \<open>\<open>closed raw esc\<close>: reading \<open>raw\<close> meets no bare quotation mark and ends outside an escape.\<close>

fun closed :: "string \<Rightarrow> bool \<Rightarrow> bool" where
  "closed [] esc = (\<not> esc)"
| "closed (c # cs) esc =
     (if esc then closed cs False
      else if c = CHR 0x5C then closed cs True
      else c \<noteq> CHR 0x22 \<and> closed cs False)"

lemma quote_scan_closed:
  "drop i s = raw @ CHR 0x22 # r \<Longrightarrow> closed raw esc \<Longrightarrow> quote_scan s i esc = i + length raw"
proof (induction raw arbitrary: i esc)
  case Nil
  then show ?case by (subst quote_scan.simps) (auto dest: drop_eq_ConsD)
next
  case (Cons a raw)
  then have "i < length s" "s ! i = a" "drop (Suc i) s = raw @ CHR 0x22 # r"
    by (auto dest: drop_eq_ConsD)
  with Cons show ?case by (subst quote_scan.simps) (auto split: if_splits)
qed

lemma quote_scan_sound:
  "quote_scan s i esc = j \<Longrightarrow> j < length s \<Longrightarrow>
   closed (take (j - i) (drop i s)) esc \<and> s ! j = CHR 0x22"
proof (induction s i esc rule: quote_scan.induct)
  case (1 s i esc)
  show ?case
  proof (cases "i < length s")
    case False
    with 1 show ?thesis by (simp add: quote_scan.simps [of s i])
  next
    case True
    show ?thesis
    proof (cases "\<not> esc \<and> s ! i = CHR 0x22")
      case True
      with 1 \<open>i < length s\<close> show ?thesis by (auto simp: quote_scan.simps [of s i])
    next
      case False
      then have j: "j = quote_scan s (Suc i) (\<not> esc \<and> s ! i = CHR 0x5C)"
        using 1(4) True by (subst (asm) quote_scan.simps) (auto split: if_splits)
      then have "Suc i \<le> j" using quote_scan_ge by blast
      then have "take (j - i) (drop i s) = s ! i # take (j - Suc i) (drop (Suc i) s)"
        using True by (simp add: drop_Cons_nth take_Cons')
      moreover have "closed (take (j - Suc i) (drop (Suc i) s)) (\<not> esc \<and> s ! i = CHR 0x5C)
          \<and> s ! j = CHR 0x22"
        using 1(1,2,3) True False j 1(5) by (cases esc; cases "s ! i = CHR 0x5C") simp_all
      ultimately show ?thesis using False by auto
    qed
  qed
qed

lemma ParseJsonQuotedToken_complete:
  assumes "drop i s = CHR 0x22 # raw @ CHR 0x22 # r" and "closed raw False"
  shows "ParseJsonQuotedToken s i = Some (i + length raw + 2, raw) \<and> drop (i + length raw + 2) s = r"
proof -
  from drop_eq_ConsD [OF assms(1)] have i: "i < length s" "s ! i = CHR 0x22"
    and d: "drop (Suc i) s = raw @ CHR 0x22 # r" by auto
  from quote_scan_closed [OF d assms(2)] have q: "quote_scan s (Suc i) False = Suc i + length raw" .
  have d2: "drop (Suc i + length raw) s = CHR 0x22 # r"
    using d by (metis append_eq_conv_conj drop_drop add.commute)
  from drop_eq_ConsD [OF d2] i q d show ?thesis
    by (auto simp: ParseJsonQuotedToken_def substr_def)
qed

lemma ParseJsonQuotedToken_sound:
  assumes "ParseJsonQuotedToken s i = Some (i', raw)"
  shows "drop i s = CHR 0x22 # raw @ CHR 0x22 # drop i' s \<and> closed raw False"
proof -
  define j where "j = quote_scan s (Suc i) False"
  from assms have i: "i < length s" "s ! i = CHR 0x22" and j: "j < length s" "s ! j = CHR 0x22"
    and i': "i' = Suc j" and raw: "raw = take (j - Suc i) (drop (Suc i) s)"
    by (auto simp: ParseJsonQuotedToken_def Let_def substr_def j_def split: if_splits)
  have "Suc i \<le> j" unfolding j_def by (rule quote_scan_ge)
  then have "drop (Suc i) s = raw @ drop j s"
    unfolding raw by (metis append_take_drop_id drop_drop le_add_diff_inverse2)
  also have "drop j s = CHR 0x22 # drop i' s"
    using drop_Cons_nth [OF j(1)] j(2) i' by simp
  finally have "drop i s = CHR 0x22 # raw @ CHR 0x22 # drop i' s"
    using drop_Cons_nth [OF i(1)] i(2) by simp
  with quote_scan_sound [OF j_def [symmetric] j(1)] raw show ?thesis by blast
qed

section \<open>Objects\<close>

text \<open>
  \<open>pair p key val\<close>: one member.  \<open>members r kvs\<close>: the text from behind the opening brace
  (or behind a comma) to the end of the line.  A comma may be followed by the closing brace.
\<close>

inductive pair :: "string \<Rightarrow> string \<Rightarrow> string \<Rightarrow> bool" where
  pairI: "closed rk False \<Longrightarrow> body rk key \<Longrightarrow> all_ws w1 \<Longrightarrow> all_ws w2 \<Longrightarrow>
     closed rv False \<Longrightarrow> body rv val \<Longrightarrow>
     pair (CHR 0x22 # rk @ CHR 0x22 # w1 @ CHR '':'' # w2 @ CHR 0x22 # rv @ [CHR 0x22]) key val"

inductive members :: "string \<Rightarrow> (string \<times> string) list \<Rightarrow> bool" where
  members_close: "all_ws w \<Longrightarrow> all_ws t \<Longrightarrow> members (w @ CHR 0x7D # t) []"
| members_last: "all_ws w \<Longrightarrow> pair p key val \<Longrightarrow> all_ws u \<Longrightarrow> all_ws t \<Longrightarrow>
     members (w @ p @ u @ CHR 0x7D # t) [(key, val)]"
| members_more: "all_ws w \<Longrightarrow> pair p key val \<Longrightarrow> all_ws u \<Longrightarrow> members r kvs \<Longrightarrow>
     members (w @ p @ u @ CHR '','' # r) ((key, val) # kvs)"

definition object :: "string \<Rightarrow> (string \<times> string) list \<Rightarrow> bool" where
  "object s kvs \<longleftrightarrow> (\<exists>w r. s = w @ CHR 0x7B # r \<and> all_ws w \<and> members r kvs)"

definition store_all :: "(string \<times> string) list \<Rightarrow> bool \<times> Msg \<Rightarrow> bool \<times> Msg" where
  "store_all kvs st = fold (\<lambda>(key, val). store_field key val) kvs st"

lemma store_all_simps [simp]:
  "store_all [] st = st"
  "store_all ((key, val) # kvs) st = store_all kvs (store_field key val st)"
  by (simp_all add: store_all_def)

lemma not_ws [simp]:
  "\<not> is_ws (CHR 0x22)" "\<not> is_ws (CHR 0x7D)" "\<not> is_ws (CHR 0x7B)" "\<not> is_ws (CHR '':'')"
  "\<not> is_ws (CHR '','')"
  by (simp_all add: is_ws_def)

subsection \<open>One member\<close>

lemma parse_pair_complete:
  assumes "drop i obj = p @ r" and "pair p key val"
  shows "parse_pair obj i = Inr (i + length p, key, val) \<and> drop (i + length p) obj = r"
  using assms(2)
proof cases
  case (pairI rk w1 w2 rv)
  have d0: "drop i obj = CHR 0x22 # rk @ CHR 0x22 # w1 @ CHR '':'' # w2 @ CHR 0x22 # rv @ CHR 0x22 # r"
    using assms(1) pairI by simp
  define i1 where "i1 = i + length rk + 2"
  have t1: "ParseJsonQuotedToken obj i = Some (i1, rk)"
    and d1: "drop i1 obj = w1 @ CHR '':'' # w2 @ CHR 0x22 # rv @ CHR 0x22 # r"
    using ParseJsonQuotedToken_complete [OF d0 pairI(2)] by (simp_all add: i1_def)
  define i2 where "i2 = SkipWs obj i1"
  have i2: "i2 = i1 + length w1" and d2: "drop i2 obj = CHR '':'' # w2 @ CHR 0x22 # rv @ CHR 0x22 # r"
    using SkipWs_stop [OF d1 pairI(4)] by (simp_all add: i2_def)
  from drop_eq_ConsD [OF d2] have c: "i2 < length obj" "obj ! i2 = CHR '':''"
    and d3: "drop (Suc i2) obj = w2 @ CHR 0x22 # rv @ CHR 0x22 # r" by auto
  define i4 where "i4 = SkipWs obj (Suc i2)"
  have i4: "i4 = Suc i2 + length w2" and d4: "drop i4 obj = CHR 0x22 # rv @ CHR 0x22 # r"
    using SkipWs_stop [OF d3 pairI(5)] by (simp_all add: i4_def)
  have t5: "ParseJsonQuotedToken obj i4 = Some (i4 + length rv + 2, rv)"
    and d5: "drop (i4 + length rv + 2) obj = r"
    using ParseJsonQuotedToken_complete [OF d4 pairI(6)] by simp_all
  have u: "UnescapeJsonString rk = (True, key)" "UnescapeJsonString rv = (True, val)"
    using pairI by (simp_all add: UnescapeJsonString_iff)
  have "i + length p = i4 + length rv + 2"
    using pairI i1_def i2 i4 by simp
  with t1 t5 c u d5 show ?thesis
    by (simp add: parse_pair_def i2_def [symmetric] i4_def [symmetric])
qed

lemma parse_pair_sound:
  assumes "parse_pair obj i = Inr (i', key, val)"
  shows "\<exists>p. pair p key val \<and> drop i obj = p @ drop i' obj"
proof -
  from assms obtain i1 rk rv where t1: "ParseJsonQuotedToken obj i = Some (i1, rk)"
    and u1: "UnescapeJsonString rk = (True, key)"
    and c: "SkipWs obj i1 < length obj" "obj ! SkipWs obj i1 = CHR '':''"
    and t2: "ParseJsonQuotedToken obj (SkipWs obj (Suc (SkipWs obj i1))) = Some (i', rv)"
    and u2: "UnescapeJsonString rv = (True, val)"
    by (auto simp: parse_pair_def Let_def split: option.splits prod.splits if_splits)
  obtain w1 where w1: "all_ws w1" "drop i1 obj = w1 @ drop (SkipWs obj i1) obj"
    using SkipWs_split by blast
  obtain w2 where w2: "all_ws w2"
    "drop (Suc (SkipWs obj i1)) obj = w2 @ drop (SkipWs obj (Suc (SkipWs obj i1))) obj"
    using SkipWs_split by blast
  have "drop i obj = (CHR 0x22 # rk @ CHR 0x22 # w1 @ CHR '':'' # w2 @ CHR 0x22 # rv @ [CHR 0x22])
      @ drop i' obj"
    using ParseJsonQuotedToken_sound [OF t1] ParseJsonQuotedToken_sound [OF t2] w1(2) w2(2)
      drop_Cons_nth [OF c(1)] c(2) by simp
  moreover have "pair (CHR 0x22 # rk @ CHR 0x22 # w1 @ CHR '':'' # w2 @ CHR 0x22 # rv @ [CHR 0x22]) key val"
    using ParseJsonQuotedToken_sound [OF t1] ParseJsonQuotedToken_sound [OF t2] w1(1) w2(1) u1 u2
    by (intro pairI) (simp_all add: UnescapeJsonString_iff)
  ultimately show ?thesis by blast
qed

lemma pair_front: "pair p key val \<Longrightarrow> \<exists>q. p = CHR 0x22 # q"
  by (auto elim: pair.cases)

subsection \<open>The loop\<close>

lemma finish_object_complete:
  "drop i obj = t \<Longrightarrow> all_ws t \<Longrightarrow> i \<le> length obj \<Longrightarrow> finish_object obj i st = st"
  by (simp add: finish_object_def SkipWs_end)

lemma finish_object_sound:
  assumes "finish_object obj i st = (True, out)"
  shows "all_ws (drop i obj) \<and> st = (True, out)"
proof -
  from assms have "SkipWs obj i = length obj" and "st = (True, out)"
    by (auto simp: finish_object_def Let_def split: if_splits)
  with SkipWs_split [of i obj] show ?thesis by auto
qed

lemma members_loop_complete:
  "members (drop i obj) kvs \<Longrightarrow> members_loop obj i st = (store_all kvs st, [])"
proof (induction "drop i obj" kvs arbitrary: i st rule: members.induct)
  case (members_close w t)
  from SkipWs_stop [OF members_close(3) [symmetric] members_close(1)]
  have "SkipWs obj i = i + length w" and d: "drop (i + length w) obj = CHR 0x7D # t" by simp_all
  with drop_eq_ConsD [OF d] members_close(2) show ?case
    by (simp add: members_loop.simps [of obj i] finish_object_complete)
next
  case (members_last w p key val u t)
  obtain q where q: "p = CHR 0x22 # q" using pair_front [OF members_last(2)] by blast
  define j where "j = SkipWs obj i"
  have dj: "drop j obj = p @ u @ CHR 0x7D # t"
    using SkipWs_stop [of i obj w "CHR 0x22" "q @ u @ CHR 0x7D # t"] members_last(1,5) q by (simp add: j_def)
  from parse_pair_complete [OF dj members_last(2)]
  have pp: "parse_pair obj j = Inr (j + length p, key, val)"
    and d: "drop (j + length p) obj = u @ CHR 0x7D # t" by simp_all
  from SkipWs_stop [OF d members_last(3)]
  obtain k where k: "SkipWs obj (j + length p) = k" and dk: "drop k obj = CHR 0x7D # t" by simp
  have fin: "finish_object obj (k + 1) st' = st'" for st'
    using drop_eq_ConsD [OF dk] members_last(4) by (simp add: finish_object_complete)
  from dj q have "j < length obj" "obj ! j = CHR 0x22" by (auto dest: drop_eq_ConsD)
  with pp k drop_eq_ConsD [OF dk] fin show ?case
    by (simp add: members_loop.simps [of obj i] j_def [symmetric] Let_def)
next
  case (members_more w p key val u r kvs)
  obtain q where q: "p = CHR 0x22 # q" using pair_front [OF members_more(2)] by blast
  define j where "j = SkipWs obj i"
  have dj: "drop j obj = p @ u @ CHR '','' # r"
    using SkipWs_stop [of i obj w "CHR 0x22" "q @ u @ CHR '','' # r"] members_more(1,6) q by (simp add: j_def)
  from parse_pair_complete [OF dj members_more(2)]
  have pp: "parse_pair obj j = Inr (j + length p, key, val)"
    and d: "drop (j + length p) obj = u @ CHR '','' # r" by simp_all
  from SkipWs_stop [OF d members_more(3)]
  obtain k where k: "SkipWs obj (j + length p) = k" and dk: "drop k obj = CHR '','' # r" by simp
  have "members_loop obj (Suc k) (store_field key val st) = (store_all kvs (store_field key val st), [])"
    using drop_eq_ConsD [OF dk] by (intro members_more(5)) simp
  moreover from dj q have "j < length obj" "obj ! j = CHR 0x22" by (auto dest: drop_eq_ConsD)
  ultimately show ?case using pp k drop_eq_ConsD [OF dk]
    by (simp add: members_loop.simps [of obj i] j_def [symmetric] Let_def)
qed

lemma members_loop_sound:
  "fst (members_loop obj i st) = (True, out) \<Longrightarrow>
   \<exists>kvs. members (drop i obj) kvs \<and> store_all kvs st = (True, out)"
proof (induction obj i st rule: members_loop.induct)
  case (1 obj i st)
  define j where "j = SkipWs obj i"
  obtain w where w: "all_ws w" "drop i obj = w @ drop j obj"
    using SkipWs_split unfolding j_def by blast
  from 1(2) have j: "j < length obj"
    by (subst (asm) members_loop.simps) (auto simp: j_def [symmetric] Let_def split: if_splits)
  show ?case
  proof (cases "obj ! j = CHR 0x7D")
    case True
    with 1(2) j have "finish_object obj (Suc j) st = (True, out)"
      by (simp add: members_loop.simps [of obj i] j_def [symmetric])
    with finish_object_sound have "all_ws (drop (Suc j) obj)" and "st = (True, out)" by blast+
    with w j True members_close [OF w(1), of "drop (Suc j) obj"] show ?thesis
      by (intro exI [of _ "[]"]) (simp add: drop_Cons_nth)
  next
    case False
    with 1(2) j obtain i' key val where pp: "parse_pair obj j = Inr (i', key, val)"
      by (subst (asm) members_loop.simps) (auto simp: j_def [symmetric] Let_def split: sum.splits)
    then obtain p where p: "pair p key val" "drop j obj = p @ drop i' obj"
      using parse_pair_sound by blast
    define k where "k = SkipWs obj i'"
    obtain u where u: "all_ws u" "drop i' obj = u @ drop k obj"
      using SkipWs_split unfolding k_def by blast
    define st' where "st' = store_field key val st"
    have run: "members_loop obj i st =
        (if k \<ge> length obj then ((False, snd st'), [])
         else if obj ! k = CHR '','' then members_loop obj (Suc k) st'
         else if obj ! k = CHR 0x7D then (finish_object obj (Suc k) st', [])
         else ((False, snd st'), []))"
      using j False pp by (simp add: members_loop.simps [of obj i] j_def [symmetric] k_def st'_def Let_def)
    then have k: "k < length obj" using 1(2) by (auto split: if_splits)
    show ?thesis
    proof (cases "obj ! k = CHR '',''")
      case True
      with run k 1(2) have "fst (members_loop obj (Suc k) st') = (True, out)" by simp
      with 1(1) [OF refl, unfolded j_def [symmetric], OF _ False pp refl refl refl refl] j True k
      obtain kvs where kvs: "members (drop (Suc k) obj) kvs" "store_all kvs st' = (True, out)"
        by (auto simp: k_def st'_def)
      have "drop i obj = w @ p @ u @ CHR '','' # drop (Suc k) obj"
        using w(2) p(2) u(2) drop_Cons_nth [OF k] True by simp
      with members_more [OF w(1) p(1) u(1) kvs(1)] kvs(2) show ?thesis
        by (intro exI [of _ "(key, val) # kvs"]) (simp add: st'_def)
    next
      case False
      with run k 1(2) have c: "obj ! k = CHR 0x7D" and "finish_object obj (Suc k) st' = (True, out)"
        by (auto split: if_splits)
      then have t: "all_ws (drop (Suc k) obj)" "st' = (True, out)"
        using finish_object_sound by blast+
      have "drop i obj = w @ p @ u @ CHR 0x7D # drop (Suc k) obj"
        using w(2) p(2) u(2) drop_Cons_nth [OF k] c by simp
      with members_last [OF w(1) p(1) u(1) t(1)] t(2) show ?thesis
        by (intro exI [of _ "[(key, val)]"]) (simp add: st'_def)
    qed
  qed
qed

lemma ParseFlat_sound:
  assumes "fst (ParseFlatBrokerMessage obj out0) = (True, out)"
  shows "\<exists>kvs. object obj kvs \<and> store_all kvs (False, out0) = (True, out)"
proof -
  obtain w where w: "all_ws w" "obj = w @ drop (SkipWs obj 0) obj"
    using SkipWs_split [of 0 obj] by auto
  from assms have j: "SkipWs obj 0 < length obj" "obj ! SkipWs obj 0 = CHR 0x7B"
    and "fst (members_loop obj (Suc (SkipWs obj 0)) (False, out0)) = (True, out)"
    by (auto simp: ParseFlatBrokerMessage_def Let_def split: if_splits)
  then obtain kvs where "members (drop (Suc (SkipWs obj 0)) obj) kvs"
    "store_all kvs (False, out0) = (True, out)"
    using members_loop_sound by blast
  moreover have "obj = w @ CHR 0x7B # drop (Suc (SkipWs obj 0)) obj"
    using w(2) drop_Cons_nth [OF j(1)] j(2) by simp
  ultimately show ?thesis using w(1) unfolding object_def by blast
qed

lemma ParseFlat_complete:
  assumes "object obj kvs"
  shows "ParseFlatBrokerMessage obj out0 = (store_all kvs (False, out0), [])"
proof -
  from assms obtain w r where "obj = w @ CHR 0x7B # r" "all_ws w" "members r kvs"
    by (auto simp: object_def)
  moreover from this SkipWs_stop [of 0 obj w "CHR 0x7B" r]
  have "SkipWs obj 0 = length w" by simp
  ultimately show ?thesis
    using members_loop_complete [of "Suc (length w)" obj kvs] by (simp add: ParseFlatBrokerMessage_def)
qed

section \<open>Lines\<close>

lemma trim_left_spec:
  "i \<le> j \<Longrightarrow> i \<le> trim_left s i j \<and> trim_left s i j \<le> j
     \<and> (\<forall>x. i \<le> x \<and> x < trim_left s i j \<longrightarrow> is_ws (s ! x))
     \<and> (trim_left s i j < j \<longrightarrow> \<not> is_ws (s ! trim_left s i j))"
proof (induction s i j rule: trim_left.induct)
  case (1 s i j)
  show ?case
  proof (cases "i < j \<and> is_ws (s ! i)")
    case True
    then have "trim_left s i j = trim_left s (Suc i) j" by (simp add: trim_left.simps [of s i j])
    with 1(1) True show ?thesis by (metis Suc_leD Suc_leI le_neq_implies_less)
  next
    case False
    with 1(2) show ?thesis by (auto simp: trim_left.simps [of s i j])
  qed
qed

lemma trim_right_spec:
  "i \<le> j \<Longrightarrow> i \<le> trim_right s i j \<and> trim_right s i j \<le> j
     \<and> (\<forall>x. trim_right s i j \<le> x \<and> x < j \<longrightarrow> is_ws (s ! x))
     \<and> (i < trim_right s i j \<longrightarrow> \<not> is_ws (s ! (trim_right s i j - 1)))"
proof (induction s i j rule: trim_right.induct)
  case (1 s i j)
  show ?case
  proof (cases "i < j \<and> is_ws (s ! (j - 1))")
    case True
    then have e: "trim_right s i j = trim_right s i (j - 1)" by (simp add: trim_right.simps [of s i j])
    have le: "i \<le> j - 1" using True by arith
    have ih: "i \<le> trim_right s i (j - 1)" "trim_right s i (j - 1) \<le> j - 1"
      "\<And>x. trim_right s i (j - 1) \<le> x \<Longrightarrow> x < j - 1 \<Longrightarrow> is_ws (s ! x)"
      "i < trim_right s i (j - 1) \<Longrightarrow> \<not> is_ws (s ! (trim_right s i (j - 1) - 1))"
      using 1(1) [OF True le] by auto
    have "is_ws (s ! x)" if "trim_right s i (j - 1) \<le> x" "x < j" for x
      using that ih(3) [of x] True by (cases "x = j - 1") auto
    with ih show ?thesis unfolding e by auto
  next
    case False
    with 1(2) show ?thesis by (auto simp: trim_right.simps [of s i j])
  qed
qed

lemma Trim_split:
  obtains w t where "line = w @ Trim line @ t" and "all_ws w" and "all_ws t"
    and "Trim line \<noteq> [] \<Longrightarrow> \<not> is_ws (hd (Trim line)) \<and> \<not> is_ws (last (Trim line))"
proof -
  define a b where "a = trim_left line 0 (length line)" and "b = trim_right line a (length line)"
  have a: "a \<le> length line" "\<forall>x < a. is_ws (line ! x)" "a < length line \<Longrightarrow> \<not> is_ws (line ! a)"
    using trim_left_spec [of 0 "length line" line] by (auto simp: a_def)
  have b: "a \<le> b" "b \<le> length line" "\<forall>x. b \<le> x \<and> x < length line \<longrightarrow> is_ws (line ! x)"
    "a < b \<Longrightarrow> \<not> is_ws (line ! (b - 1))"
    using trim_right_spec [OF a(1), of line] by (auto simp: b_def)
  have m: "Trim line = take (b - a) (drop a line)"
    by (simp add: Trim_def substr_def a_def b_def Let_def)
  have "line = take a line @ take (b - a) (drop a line) @ drop b line"
    using b(1) by (metis append_take_drop_id drop_drop le_add_diff_inverse2)
  moreover have "all_ws (take a line)" using a by (simp add: list_all_length)
  moreover have "all_ws (drop b line)" using b by (simp add: list_all_length)
  moreover have "\<not> is_ws (hd (Trim line)) \<and> \<not> is_ws (last (Trim line))" if "Trim line \<noteq> []"
    using that a b m by (auto simp: hd_conv_nth last_conv_nth)
  ultimately show ?thesis using that [of "take a line" "drop b line"] m by simp
qed

lemma cut_ws_suffix:
  "a @ c # b = x @ t \<Longrightarrow> all_ws t \<Longrightarrow> \<not> is_ws c \<Longrightarrow> \<exists>b1. x = a @ c # b1 \<and> b = b1 @ t"
  by (auto simp: append_eq_append_conv2 Cons_eq_append_conv)

lemma cut_ws_prefix:
  "w @ x = a @ c # b \<Longrightarrow> all_ws w \<Longrightarrow> \<not> is_ws c \<Longrightarrow> \<exists>a1. a = w @ a1 \<and> x = a1 @ c # b"
  by (auto simp: append_eq_append_conv2 append_eq_Cons_conv)

lemma members_append: "members r kvs \<Longrightarrow> all_ws t \<Longrightarrow> members (r @ t) kvs"
proof (induction rule: members.induct)
  case (members_close w v)
  then show ?case using members.members_close [of w "v @ t"] by simp
next
  case (members_last w p key val u v)
  then show ?case using members.members_last [of w p key val u "v @ t"] by simp
next
  case (members_more w p key val u r kvs)
  then show ?case using members.members_more [of w p key val u "r @ t" kvs] by simp
qed

lemma members_strip: "members r kvs \<Longrightarrow> r = x @ t \<Longrightarrow> all_ws t \<Longrightarrow> members x kvs"
proof (induction arbitrary: x rule: members.induct)
  case (members_close w v)
  with cut_ws_suffix [of w "CHR 0x7D" v x t] show ?case
    by (auto intro: members.members_close)
next
  case (members_last w p key val u v)
  with cut_ws_suffix [of "w @ p @ u" "CHR 0x7D" v x t] show ?case
    by (auto intro: members.members_last)
next
  case (members_more w p key val u r kvs)
  from members_more.prems cut_ws_suffix [of "w @ p @ u" "CHR '',''" r x t]
  obtain b1 where "x = w @ p @ u @ CHR '','' # b1" "r = b1 @ t" by auto
  with members_more show ?case by (auto intro: members.members_more)
qed

lemma object_surrounded:
  assumes "all_ws w" and "all_ws t"
  shows "object (w @ s @ t) kvs \<longleftrightarrow> object s kvs"
proof
  assume "object s kvs"
  then obtain w0 r where "s = w0 @ CHR 0x7B # r" "all_ws w0" "members r kvs"
    by (auto simp: object_def)
  with assms members_append [of r kvs t]
  have "w @ s @ t = (w @ w0) @ CHR 0x7B # (r @ t)" "all_ws (w @ w0)" "members (r @ t) kvs"
    by simp_all
  then show "object (w @ s @ t) kvs" unfolding object_def by blast
next
  assume "object (w @ s @ t) kvs"
  then obtain w0 r where r: "w @ s @ t = w0 @ CHR 0x7B # r" "all_ws w0" "members r kvs"
    by (auto simp: object_def)
  from cut_ws_prefix [OF r(1) assms(1)] obtain w1 where w1: "w0 = w @ w1" "s @ t = w1 @ CHR 0x7B # r"
    by auto
  from cut_ws_suffix [OF w1(2) [symmetric] assms(2)] obtain b where "s = w1 @ CHR 0x7B # b" "r = b @ t"
    by auto
  with members_strip [OF r(3)] w1 r(2) assms(2) show "object s kvs"
    by (auto simp: object_def)
qed

lemma object_Trim: "object (Trim line) kvs \<longleftrightarrow> object line kvs"
  by (metis Trim_split object_surrounded)

lemma object_not_ws: "object s kvs \<Longrightarrow> s \<noteq> []"
  by (auto simp: object_def)

text \<open>The fields of the message: the last value of each key, the empty string without one.\<close>

definition fields :: "(string \<times> string) list \<Rightarrow> Msg" where
  "fields kvs = snd (store_all kvs (False, empty_msg))"

lemma SecureClearMsg_empty [simp]: "SecureClearMsg m = empty_msg"
  by (simp add: SecureClearMsg_def)

lemma store_field_type: "(mtype (snd st) \<noteq> [] \<longrightarrow> fst st) \<Longrightarrow>
    mtype (snd (store_field key val st)) \<noteq> [] \<longrightarrow> fst (store_field key val st)"
  by (cases st) (auto simp: store_field_def)

lemma store_all_type: "(mtype (snd st) \<noteq> [] \<longrightarrow> fst st) \<Longrightarrow>
    mtype (snd (store_all kvs st)) \<noteq> [] \<longrightarrow> fst (store_all kvs st)"
proof (induction kvs arbitrary: st)
  case (Cons kv kvs)
  obtain key val where "kv = (key, val)" by force
  with Cons.IH [of "store_field key val st"] store_field_type [OF Cons.prems] show ?case by simp
qed simp

lemma ParseJsonLine_accepts:
  assumes "object line kvs" and "mtype (fields kvs) \<noteq> []"
  shows "ParseJsonLine line m = ((True, fields kvs), [])"
proof -
  from assms(1) have o: "object (Trim line) kvs" by (simp add: object_Trim)
  have "store_all kvs (False, empty_msg) = (True, fields kvs)"
    using store_all_type [of "(False, empty_msg)" kvs] assms(2)
    by (simp add: fields_def prod_eq_iff)
  with o assms(2) object_not_ws [OF o] show ?thesis
    by (simp add: ParseJsonLine_def ParseFlat_complete)
qed

lemma ParseJsonLine_sound:
  assumes "fst (ParseJsonLine line m) = (True, out)"
  shows "\<exists>kvs. object line kvs \<and> out = fields kvs \<and> mtype out \<noteq> []"
proof -
  from assms have f: "fst (ParseFlatBrokerMessage (Trim line) empty_msg) = (True, out)" and t: "mtype out \<noteq> []"
    by (auto simp: ParseJsonLine_def Let_def split: if_splits prod.splits)
  from ParseFlat_sound [OF f] obtain kvs where "object (Trim line) kvs"
    "store_all kvs (False, empty_msg) = (True, out)" by blast
  with t show ?thesis by (auto simp: object_Trim fields_def intro!: exI [of _ kvs])
qed

lemma ParseJsonLine_rejects:
  "\<not> fst (fst (ParseJsonLine line m)) \<Longrightarrow> snd (fst (ParseJsonLine line m)) = empty_msg"
  by (auto simp: ParseJsonLine_def Let_def split: if_splits prod.splits)

section \<open>A reference encoder\<close>

text \<open>
  The compact form of a message with the four fields, in which a quotation mark, a backslash
  and the control characters are escaped.
\<close>

definition hex_char :: "nat \<Rightarrow> char" where
  "hex_char d = (if d < 10 then char_of (48 + d) else char_of (87 + d))"

definition escape_char :: "char \<Rightarrow> string" where
  "escape_char c =
     (let n = of_char c in
      if c = CHR 0x22 \<or> c = CHR 0x5C then [CHR 0x5C, c]
      else if n < (0x20 :: nat)
      then [CHR 0x5C, CHR ''u'', CHR ''0'', CHR ''0'', hex_char (n div 16), hex_char (n mod 16)]
      else [c])"

definition json_escape :: "string \<Rightarrow> string" where
  "json_escape s = concat (map escape_char s)"

definition json_pair :: "string \<Rightarrow> string \<Rightarrow> string" where
  "json_pair key val =
     CHR 0x22 # json_escape key @ CHR 0x22 # CHR '':'' # CHR 0x22 # json_escape val @ [CHR 0x22]"

definition message_line :: "Msg \<Rightarrow> string" where
  "message_line m =
     CHR 0x7B # json_pair ''type'' (mtype m) @ CHR '','' # json_pair ''sam'' (sam m) @ CHR '','' #
     json_pair ''password'' (password m) @ CHR '','' # json_pair ''reason'' (reason m) @ [CHR 0x7D]"

lemma hex_digit_hex_char: "d < 16 \<Longrightarrow> hex_digit (hex_char d) = Some d"
  by (simp add: hex_digit_def hex_char_def)

lemma hex_char_plain: "d < 16 \<Longrightarrow> hex_char d \<noteq> CHR 0x22 \<and> hex_char d \<noteq> CHR 0x5C"
  by (auto dest!: hex_digit_hex_char simp: hex_digit_def)

lemma closed_append: "closed s False \<Longrightarrow> closed (s @ t) False = closed t False"
proof -
  have "closed s esc \<Longrightarrow> closed (s @ t) esc = closed t False" for esc
    by (induction s esc rule: closed.induct) auto
  then show "closed s False \<Longrightarrow> closed (s @ t) False = closed t False" .
qed

lemma closed_escape: "closed (json_escape s) False"
proof (induction s)
  case (Cons c s)
  have "closed (escape_char c) False"
    using hex_char_plain [of "of_char c div 16"] hex_char_plain [of "of_char c mod 16"]
    by (auto simp: escape_char_def Let_def)
  with Cons show ?case by (simp add: json_escape_def closed_append)
qed (simp add: json_escape_def)

lemma body_escape_char:
  assumes "body raw out"
  shows "body (escape_char c @ raw) (c # out)"
proof -
  define n where "n = (of_char c :: nat)"
  consider "c = CHR 0x22 \<or> c = CHR 0x5C" | "c \<noteq> CHR 0x22" "c \<noteq> CHR 0x5C" "n < 0x20"
    | "c \<noteq> CHR 0x22" "c \<noteq> CHR 0x5C" "\<not> n < 0x20" by blast
  then show ?thesis
  proof cases
    case 1
    with assms show ?thesis by (auto simp: escape_char_def simple_escape_def intro!: body_escape)
  next
    case 2
    then have "hex4 [CHR ''0'', CHR ''0'', hex_char (n div 16), hex_char (n mod 16)] n"
      using hex_digit_hex_char [of "n div 16"] hex_digit_hex_char [of "n mod 16"]
      by (simp add: hex4_def hex_digit_def [of "CHR ''0''"])
    then have "body (CHR 0x5C # CHR ''u'' # [CHR ''0'', CHR ''0'', hex_char (n div 16), hex_char (n mod 16)] @ raw)
        (utf8 n @ out)"
      using 2 assms by (intro body_unit) (simp_all add: is_high_def is_low_def)
    moreover have "utf8 n = [c]" using 2 by (simp add: utf8_def n_def)
    ultimately show ?thesis using 2 by (simp add: escape_char_def n_def [symmetric] Let_def)
  next
    case 3
    with assms show ?thesis by (auto simp: escape_char_def n_def intro!: body_plain)
  qed
qed

lemma body_json_escape: "body (json_escape s) s"
  by (induction s) (auto simp: json_escape_def intro: body_nil body_escape_char)

lemma pair_json_pair: "pair (json_pair key val) key val"
  using pairI [OF closed_escape body_json_escape, of "[]" "[]" "json_escape val" "val" key]
  by (simp add: json_pair_def closed_escape body_json_escape)

lemma object_message_line:
  "object (message_line m)
     [(''type'', mtype m), (''sam'', sam m), (''password'', password m), (''reason'', reason m)]"
proof -
  have "members (json_pair ''reason'' (reason m) @ [CHR 0x7D]) [(''reason'', reason m)]"
    using members_last [of "[]" "json_pair ''reason'' (reason m)" _ _ "[]" "[]", OF _ pair_json_pair] by simp
  then have "members (json_pair ''password'' (password m) @ CHR '','' # json_pair ''reason'' (reason m) @ [CHR 0x7D])
      [(''password'', password m), (''reason'', reason m)]"
    using members_more [of "[]" _ _ _ "[]", OF _ pair_json_pair] by simp
  then have "members (json_pair ''sam'' (sam m) @ CHR '','' # json_pair ''password'' (password m) @ CHR '','' #
      json_pair ''reason'' (reason m) @ [CHR 0x7D])
      [(''sam'', sam m), (''password'', password m), (''reason'', reason m)]"
    using members_more [of "[]" _ _ _ "[]", OF _ pair_json_pair] by simp
  from members_more [of "[]" _ _ _ "[]", OF _ pair_json_pair _ this, of "''type''" "mtype m"]
  show ?thesis unfolding object_def message_line_def
    by (intro exI [of _ "[]"] exI conjI) simp_all
qed

lemma fields_message:
  "fields [(''type'', mtype m), (''sam'', sam m), (''password'', password m), (''reason'', reason m)] = m"
  by (cases m) (simp add: fields_def store_field_def)

section \<open>Properties\<close>



text \<open>
  C25: Every message with a type survives the way through the reference encoder and
  \<open>ParseJsonLine\<close>: the four fields come back byte for byte, and no copy is left behind.
\<close>

theorem parse_message_line:
  assumes "mtype m \<noteq> []"
  shows "ParseJsonLine (message_line m) m0 = ((True, m), [])"
  using ParseJsonLine_accepts [OF object_message_line, of m m0] assms by (simp add: fields_message)

theorem parse_message_line_witness:
  "ParseJsonLine (message_line \<lparr>mtype = ''AUTH_SUCCESS'', sam = ''kim'', password = [CHR 0x22, CHR 0x0A], reason = []\<rparr>)
     empty_msg
   = ((True, \<lparr>mtype = ''AUTH_SUCCESS'', sam = ''kim'', password = [CHR 0x22, CHR 0x0A], reason = []\<rparr>), [])"
  using parse_message_line
    [of "\<lparr>mtype = ''AUTH_SUCCESS'', sam = ''kim'', password = [CHR 0x22, CHR 0x0A], reason = []\<rparr>" empty_msg]
  by simp


end
