(* ===== verification/Get_Serialization.thy ===== *)
theory Get_Serialization
  imports Provider_Util Pipe_Transport Json_Grammar
begin

text \<open>
  \<open>src/src/broker/ProviderSerialization.cpp\<close>: \<open>testCPCredential::GetSerialization\<close>, the state
  machine of the program.  It runs in three phases under the session lock: start a session
  with the broker if there is none, read one message, act on the result.
\<close>

section \<open>Arguments and results\<close>

datatype CPUS =
    CPUS_INVALID | CPUS_LOGON | CPUS_UNLOCK_WORKSTATION | CPUS_CHANGE_PASSWORD | CPUS_CREDUI | CPUS_PLAP

datatype GSR =
    CPGSR_NO_CREDENTIAL_NOT_FINISHED | CPGSR_NO_CREDENTIAL_FINISHED | CPGSR_RETURN_CREDENTIAL_FINISHED

text \<open>\<open>CREDENTIAL_PROVIDER_CREDENTIAL_SERIALIZATION\<close>; the zeroed structure is \<open>None\<close>.\<close>

definition CLSID_testCPProvider :: "128 word" where
  "CLSID_testCPProvider = 0x7c5b9dc93fae4e3c8b1f2b4b530a1d77"

record CREDENTIAL_SERIALIZATION =
  ulAuthenticationPackage :: "32 word"
  clsidCredentialProvider :: "128 word"
  cbSerialization :: DWORD
  rgbSerialization :: logon_blob

record reply =
  response :: "GSR option"
  serialization :: "CREDENTIAL_SERIALIZATION option"
  status_out :: "wstring option"

text \<open>Which of the out-parameters are not null.\<close>

record gs_args =
  has_response :: bool
  has_serialization :: bool
  has_status :: bool
  has_icon :: bool

section \<open>Texts\<close>

definition ConnectFailureStatusText :: "PipeConnectResult \<Rightarrow> string" where
  "ConnectFailureStatusText result =
     (if result = ConnBrokerExited then ''broker exited unexpectedly'' else ''broker connect timeout'')"

definition ConnectFailureLogText :: "PipeConnectResult \<Rightarrow> string" where
  "ConnectFailureLogText result =
     (if result = ConnBrokerExited then ''broker exited before pipe connect''
      else if result = ConnTimeout then ''pipe connect timeout''
      else ''pipe connect failed'')"

definition ReadFailureStatusText :: "PipeReadResult \<Rightarrow> string" where
  "ReadFailureStatusText result =
     (if result = ReadBrokerExited then ''broker exited unexpectedly''
      else if result = ReadTimeout then ''broker response timeout''
      else ''no response from broker'')"

definition ReadFailureLogText :: "PipeReadResult \<Rightarrow> string" where
  "ReadFailureLogText result =
     (if result = ReadBrokerExited then ''broker exited before sending response''
      else if result = ReadTimeout then ''broker read timeout''
      else ''no response from broker'')"

definition SetOptionalStatusText ::
    "'w os_api \<Rightarrow> bool \<Rightarrow> string option \<Rightarrow> (('w, 'x) sys_scheme, wstring option) state" where
  "SetOptionalStatusText A hasText text =
     (if hasText then DupSysAlloc A (map_option wide text) else State_Monad.return None)"

definition LogBrokerExitCodeIfAvailable ::
    "'w os_api \<Rightarrow> PROCESS_INFORMATION \<Rightarrow> (('w, 'x) sys_scheme, unit) state" where
  "LogBrokerExitCodeIfAvailable A p =
     (if hProcess p = NULL_HANDLE then State_Monad.return ()
      else do {
        ec \<leftarrow> ask (os_GetExitCodeProcess A (hProcess p));
        (case ec of
           None \<Rightarrow> State_Monad.return ()
         | Some c \<Rightarrow> CpLog A ''broker process exit code (at readResult)=0x%08X'' [uint c])
      })"

definition log_opt :: "'w os_api \<Rightarrow> string option \<Rightarrow> (('w, 'x) sys_scheme, unit) state" where
  "log_opt A log = (case log of None \<Rightarrow> State_Monad.return () | Some l \<Rightarrow> CpLog A l [])"

section \<open>Ways to return\<close>

text \<open>The process handles are those of a local copy, so closing them is all that is left of it.\<close>

definition ReturnNoCredentialNotFinished ::
    "'w os_api \<Rightarrow> PROCESS_INFORMATION \<Rightarrow> bool \<Rightarrow> string option \<Rightarrow> string option \<Rightarrow> DWORD
     \<Rightarrow> (('w, 'x) sys_scheme, reply) state" where
  "ReturnNoCredentialNotFinished A p hasText statusText logText waitMs = do {
     _ \<leftarrow> WaitAndCloseBrokerProcess A p waitMs;
     t \<leftarrow> SetOptionalStatusText A hasText statusText;
     log_opt A logText;
     State_Monad.return \<lparr>response = Some CPGSR_NO_CREDENTIAL_NOT_FINISHED, serialization = None, status_out = t\<rparr>
   }"

definition ReturnNoCredentialFinished ::
    "'w os_api \<Rightarrow> PROCESS_INFORMATION \<Rightarrow> string option \<Rightarrow> DWORD \<Rightarrow> (('w, 'x) sys_scheme, reply) state" where
  "ReturnNoCredentialFinished A p logText waitMs = do {
     _ \<leftarrow> WaitAndCloseBrokerProcess A p waitMs;
     log_opt A logText;
     State_Monad.return \<lparr>response = Some CPGSR_NO_CREDENTIAL_FINISHED, serialization = None, status_out = None\<rparr>
   }"

definition ReturnNoCredentialNotFinishedNoCleanup ::
    "'w os_api \<Rightarrow> bool \<Rightarrow> string option \<Rightarrow> string option \<Rightarrow> (('w, 'x) sys_scheme, reply) state" where
  "ReturnNoCredentialNotFinishedNoCleanup A hasText statusText logText = do {
     t \<leftarrow> SetOptionalStatusText A hasText statusText;
     log_opt A logText;
     State_Monad.return \<lparr>response = Some CPGSR_NO_CREDENTIAL_NOT_FINISHED, serialization = None, status_out = t\<rparr>
   }"

section \<open>Terminal messages\<close>

definition HandleAuthSuccessMessage ::
    "'w os_api \<Rightarrow> Msg \<Rightarrow> CPUS \<Rightarrow> PROCESS_INFORMATION \<Rightarrow> bool \<Rightarrow> (('w, 'x) auth_scheme, reply) state" where
  "HandleAuthSuccessMessage A m cpus p hasText = do {
     let wDomain = wide ''.'';
     wUser \<leftarrow> Widen A (sam m);
     wPass \<leftarrow> Widen A (password m);
     let scen = (if cpus = CPUS_UNLOCK_WORKSTATION then ScenUnlock else ScenLogon);
     packed \<leftarrow> PackAutoEx A wDomain wUser wPass scen;
     when_do (wPass \<noteq> []) (emit A (WipedWide (length wPass)));
     when_do (wUser \<noteq> []) (emit A (WipedWide (length wUser)));
     when_do (wDomain \<noteq> []) (emit A (WipedWide (length wDomain)));
     (case packed of
        None \<Rightarrow> ReturnNoCredentialNotFinished A p hasText (Some ''serialization not implemented'')
                  (Some ''serialization build failed'') 1000
      | Some pk \<Rightarrow> do {
          CpLog A ''packed ok (authPkg=%lu, cb=%u)'' [uint (packed_authPkg pk), uint (packed_size pk)];
          CpLog A ''AUTH_SUCCESS -> RETURN_CREDENTIAL_FINISHED'' [];
          _ \<leftarrow> WaitAndCloseBrokerProcess A p 1000;
          State_Monad.return \<lparr>response = Some CPGSR_RETURN_CREDENTIAL_FINISHED,
            serialization = Some \<lparr>ulAuthenticationPackage = packed_authPkg pk,
              clsidCredentialProvider = CLSID_testCPProvider, cbSerialization = packed_size pk,
              rgbSerialization = packed_blob pk\<rparr>,
            status_out = None\<rparr>
        })
   }"

definition HandleParsedBrokerMessage ::
    "'w os_api \<Rightarrow> Msg \<Rightarrow> CPUS \<Rightarrow> PROCESS_INFORMATION \<Rightarrow> bool \<Rightarrow> (('w, 'x) auth_scheme, reply) state" where
  "HandleParsedBrokerMessage A m cpus p hasText =
     (if mtype m = ''AUTH_FAIL'' then
        ReturnNoCredentialNotFinished A p hasText (Some ''authentication failed'') (Some ''AUTH_FAIL'') 1000
      else if mtype m = ''AUTH_FALLBACK'' then
        ReturnNoCredentialFinished A p (Some ''AUTH_FALLBACK'') 1000
      else if mtype m = ''AUTH_SUCCESS'' then
        HandleAuthSuccessMessage A m cpus p hasText
      else
        ReturnNoCredentialNotFinished A p hasText (Some ''unknown message type'')
          (Some ''unknown message type'') 1000)"

section \<open>The three phases\<close>

text \<open>
  \<open>None\<close>: a session is up.  The local string \<open>err\<close> of the code is never read.
\<close>

definition start_session :: "'w os_api \<Rightarrow> bool \<Rightarrow> (('w, 'x) sess_scheme, reply option) state" where
  "start_session A hasText = do {
     b \<leftarrow> GetBrokerSession;
     if \<not> (hPipe b = INVALID_HANDLE_VALUE \<or> hProcess (session_pi b) = NULL_HANDLE)
     then State_Monad.return None
     else do {
       pipeName \<leftarrow> MakePipeName A;
       h \<leftarrow> CreateRestrictedPipeServer A pipeName;
       put_session (b\<lparr>hPipe := h\<rparr>);
       if h = INVALID_HANDLE_VALUE then do {
         t \<leftarrow> SetOptionalStatusText A hasText (Some ''pipe create failed'');
         err \<leftarrow> ask (os_GetLastError A);
         CpLog A ''pipe create failed (err=%u)'' [uint err];
         State_Monad.return (Some \<lparr>response = Some CPGSR_NO_CREDENTIAL_NOT_FINISHED,
           serialization = None, status_out = t\<rparr>)
       } else do {
         launched \<leftarrow> LaunchBroker A pipeName;
         (case launched of
            None \<Rightarrow> do {
              put_session (b\<lparr>hPipe := h, session_pi := zero_pi\<rparr>);
              ResetBrokerSession A 0;
              r \<leftarrow> ReturnNoCredentialNotFinishedNoCleanup A hasText (Some ''broker launch failed'')
                     (Some ''broker launch failed'');
              State_Monad.return (Some r)
            }
          | Some p \<Rightarrow> do {
              put_session (b\<lparr>hPipe := h, session_pi := p\<rparr>);
              connectResult \<leftarrow> WaitPipeClientConnect A h (hProcess p) 2000;
              if connectResult \<noteq> ConnConnected then do {
                put_session (b\<lparr>hPipe := h, session_pi := zero_pi\<rparr>);
                h' \<leftarrow> ClosePipeHandle A h;
                put_session (b\<lparr>hPipe := h', session_pi := zero_pi, connected := False\<rparr>);
                SetBrokerSessionActive False;
                r \<leftarrow> ReturnNoCredentialNotFinished A p hasText
                       (Some (ConnectFailureStatusText connectResult))
                       (Some (ConnectFailureLogText connectResult)) 500;
                State_Monad.return (Some r)
              } else do {
                put_session (b\<lparr>hPipe := h, session_pi := p, connected := True\<rparr>);
                SetBrokerSessionActive True;
                SetBrokerAwaitingFinal False;
                UpdateBrokerFlowState A 0 None;
                CpLog A ''GetSerialization: broker session started.'' [];
                State_Monad.return None
              }
            })
       }
     }
   }"

text \<open>
  The seven statements that end a session but keep its process information in a local copy;
  they stand twice in the source.
\<close>

definition detach_session :: "'w os_api \<Rightarrow> (('w, 'x) sess_scheme, PROCESS_INFORMATION) state" where
  "detach_session A = do {
     b \<leftarrow> GetBrokerSession;
     put_session (b\<lparr>session_pi := zero_pi\<rparr>);
     h \<leftarrow> ClosePipeHandle A (hPipe b);
     put_session (b\<lparr>session_pi := zero_pi, hPipe := h, connected := False\<rparr>);
     SetBrokerSessionActive False;
     SetBrokerAwaitingFinal False;
     UpdateBrokerFlowState A 0 None;
     State_Monad.return (session_pi b)
   }"

definition handle_failure ::
    "'w os_api \<Rightarrow> bool \<Rightarrow> PipeReadResult \<Rightarrow> (('w, 'x) sess_scheme, reply) state" where
  "handle_failure A hasText readResult = do {
     failedPi \<leftarrow> detach_session A;
     LogBrokerExitCodeIfAvailable A failedPi;
     if readResult = ReadBrokerExited \<or> readResult = ReadFailed then do {
       _ \<leftarrow> WaitAndCloseBrokerProcess A failedPi 0;
       ArmForceNextAutoSubmit;
       gen \<leftarrow> GetBrokerSessionGeneration;
       RequestCredentialsChangedAsync A 50 gen;
       ReturnNoCredentialNotFinishedNoCleanup A hasText None
         (Some ''broker exited/disconnected -> auto recover'')
     } else
       ReturnNoCredentialNotFinished A failedPi hasText (Some (ReadFailureStatusText readResult))
         (Some (ReadFailureLogText readResult)) 1000
   }"

definition handle_message ::
    "'w os_api \<Rightarrow> bool \<Rightarrow> CPUS \<Rightarrow> string \<Rightarrow> (('w, 'x) sess_scheme, reply) state" where
  "handle_message A hasText cpus msgJson =
     (case fst (ParseJsonLine msgJson empty_msg) of (ok, m) \<Rightarrow>
        if \<not> ok then do {
          ResetBrokerSession A 0;
          SetBrokerAwaitingFinal False;
          UpdateBrokerFlowState A 0 None;
          ReturnNoCredentialNotFinishedNoCleanup A hasText (Some ''response parse failed'')
            (Some ''response parse failed'')
        } else if mtype m = ''AUTH_PENDING'' then do {
          SetBrokerAwaitingFinal True;
          UpdateBrokerFlowState A 1 (Some ''AUTH_PENDING -> waiting final response'');
          gen \<leftarrow> GetBrokerSessionGeneration;
          RequestCredentialsChangedAsync A 300 gen;
          ReturnNoCredentialNotFinishedNoCleanup A hasText None None
        } else if mtype m = ''AUTH_IDLE'' then do {
          SetBrokerAwaitingFinal False;
          UpdateBrokerFlowState A 2 (Some ''AUTH_IDLE -> broker idle'');
          gen \<leftarrow> GetBrokerSessionGeneration;
          RequestCredentialsChangedAsync A 2500 gen;
          ReturnNoCredentialNotFinishedNoCleanup A hasText None None
        } else do {
          terminalPi \<leftarrow> detach_session A;
          HandleParsedBrokerMessage A m cpus terminalPi hasText
        })"

definition handle_read ::
    "'w os_api \<Rightarrow> bool \<Rightarrow> CPUS \<Rightarrow> PipeReadResult \<Rightarrow> string \<Rightarrow> (('w, 'x) sess_scheme, reply) state" where
  "handle_read A hasText cpus readResult msgJson =
     (if readResult = ReadTimeout then do {
        sessionGeneration \<leftarrow> GetBrokerSessionGeneration;
        awaiting \<leftarrow> IsBrokerAwaitingFinal;
        RequestCredentialsChangedAsync A (if awaiting then 300 else 2500) sessionGeneration;
        ReturnNoCredentialNotFinishedNoCleanup A hasText None None
      } else if readResult \<noteq> ReadOk \<or> msgJson = [] then handle_failure A hasText readResult
      else handle_message A hasText cpus msgJson)"

definition no_reply :: reply where
  "no_reply = \<lparr>response = None, serialization = None, status_out = None\<rparr>"

text \<open>
  \<open>None\<close> is a call that never returns.  The destructors run last: the guard wipes the message
  and the JSON text, then the lock is released.
\<close>

definition GetSerialization ::
    "'w os_api \<Rightarrow> gs_args \<Rightarrow> CPUS \<Rightarrow> ('w, 'x) sess_scheme \<Rightarrow> ((HRESULT \<times> reply) \<times> ('w, 'x) sess_scheme) option"
where
  "GetSerialization A args cpus s =
     (if \<not> has_response args \<or> \<not> has_serialization args then Some ((E_POINTER, no_reply), s)
      else
        (case run_state (do { LockBrokerSessionExclusive A; start_session A (has_status args) }) s of
           (Some r, s) \<Rightarrow> Some (run_state (do { UnlockBrokerSessionExclusive A; State_Monad.return (S_OK, r) }) s)
         | (None, s) \<Rightarrow>
             (case ReadPipeMessageUntilDone A (hPipe (g_session s)) (hProcess (session_pi (g_session s))) 250 1200 s of
                None \<Rightarrow> None
              | Some ((readResult, msgJson), s) \<Rightarrow>
                  Some (run_state (do {
                    r \<leftarrow> handle_read A (has_status args) cpus readResult msgJson;
                    emit A WipedMessage;
                    UnlockBrokerSessionExclusive A;
                    State_Monad.return (S_OK, r)
                  }) s))))"

text \<open>What \<open>*pcpsi\<close> is set to: the same on every path that gets past the check of the pointers.\<close>

datatype STATUS_ICON = CPSI_NONE | CPSI_ERROR | CPSI_WARNING | CPSI_SUCCESS

definition GetSerialization_icon :: "gs_args \<Rightarrow> STATUS_ICON option" where
  "GetSerialization_icon args =
     (if \<not> has_response args \<or> \<not> has_serialization args then None
      else if has_icon args then Some CPSI_NONE else None)"

section \<open>The calls, as rules that show the state they end in\<close>

lemma wp_sys:
  fixes m :: "(('w, 'x) sys_scheme, 'a) state"
  assumes "wp m (\<lambda>r s'. sys.more s' = sys.more s \<and> P r (trace s')) s"
    and "\<And>r w es. P r es \<Longrightarrow> Q r (s\<lparr>world := w, trace := es\<rparr>)"
  shows "wp m Q s"
proof (rule wp_mono [OF assms(1)])
  fix r and s' :: "('w, 'x) sys_scheme"
  assume "sys.more s' = sys.more s \<and> P r (trace s')"
  moreover have "sys.more s' = sys.more s \<Longrightarrow> s' = s\<lparr>world := world s', trace := trace s'\<rparr>"
    by (cases s; cases s') simp
  ultimately show "Q r s'" using assms(2) [of r "trace s'" "world s'"] by metis
qed

definition es_text :: "ev list \<Rightarrow> wstring option \<Rightarrow> ev list \<Rightarrow> bool" where
  "es_text es r es' \<longleftrightarrow> silent es es' \<and> mem_net es' = mem_net es + of_bool (r \<noteq> None)"

definition es_frame :: "ev list \<Rightarrow> ev list \<Rightarrow> bool" where
  "es_frame es es' \<longleftrightarrow> silent es es' \<and> mem_net es' = mem_net es"

lemmas es_defs = es_text_def es_frame_def es_closes_def

lemma wp_SetOptionalStatusText [wp_intro]:
  assumes "\<And>r w es. es_text (trace s) r es \<Longrightarrow> r \<in> {None, map_option wide text} \<Longrightarrow>
    Q r (s\<lparr>world := w, trace := es\<rparr>)"
  shows "wp (SetOptionalStatusText A hasText text) Q s"
proof (rule wp_sys [where P = "\<lambda>r es. es_text (trace s) r es \<and> r \<in> {None, map_option wide text}"])
  show "wp (SetOptionalStatusText A hasText text) (\<lambda>r s'. sys.more s' = sys.more s \<and>
      es_text (trace s) r (trace s') \<and> r \<in> {None, map_option wide text}) s"
    unfolding SetOptionalStatusText_def
    by (intro wp_intro wp_mono [OF DupSysAlloc_frame]) (auto simp: text_frame_def es_text_def)
qed (use assms in blast)

lemma wp_frame_rule:
  assumes "wp m (\<lambda>_ s'. os_frame s s') s"
    and "\<And>r w es. es_frame (trace s) es \<Longrightarrow> Q r (s\<lparr>world := w, trace := es\<rparr>)"
  shows "wp m Q s"
  by (rule wp_sys [where P = "\<lambda>_ es. es_frame (trace s) es"])
     (rule wp_mono [OF assms(1)], simp add: os_frame_def es_frame_def, rule assms(2))

lemma wp_closes_rule:
  assumes "wp m (\<lambda>r s'. closes (f r) s s') s"
    and "\<And>r w es. es_closes (f r) (trace s) es \<Longrightarrow> Q r (s\<lparr>world := w, trace := es\<rparr>)"
  shows "wp m Q s"
  by (rule wp_sys [where P = "\<lambda>r es. es_closes (f r) (trace s) es"])
     (rule wp_mono [OF assms(1)], simp add: closes_def es_closes_def, rule assms(2))

lemma LogBrokerExitCode_frame: "wp (LogBrokerExitCodeIfAvailable A p) (\<lambda>_ s'. os_frame s s') s"
  unfolding LogBrokerExitCodeIfAvailable_def by (intro wp_intro) (auto simp: os_frame_def)

lemma log_opt_frame: "wp (log_opt A l) (\<lambda>_ s'. os_frame s s') s"
  unfolding log_opt_def by (intro wp_intro) (auto simp: os_frame_def)

lemmas [wp_intro] =
  wp_frame_rule [OF MakePipeName_frame] wp_frame_rule [OF connect_frame]
  wp_frame_rule [OF LogBrokerExitCode_frame] wp_frame_rule [OF log_opt_frame]
  wp_frame_rule [OF Widen_frame]
  wp_closes_rule [OF CreateRestrictedPipeServer_spec]

definition owned_texts :: "reply \<Rightarrow> int" where
  "owned_texts r = of_bool (status_out r \<noteq> None) + of_bool (serialization r \<noteq> None)"

text \<open>A way to return that closes the process handles \<open>p\<close>.\<close>

definition returns :: "PROCESS_INFORMATION \<Rightarrow> ev list \<Rightarrow> reply \<Rightarrow> ev list \<Rightarrow> bool" where
  "returns p es r es' \<longleftrightarrow> (\<forall>h. net h es' = net h es - pi_handles p h)
     \<and> (\<forall>l. holds l es' = holds l es) \<and> (\<forall>h. lsa_net h es' = lsa_net h es)
     \<and> (\<forall>h. sink_net h es' = sink_net h es) \<and> mem_net es' = mem_net es + owned_texts r"

lemma wp_ReturnNotFinished [wp_intro]:
  assumes "\<And>r w es. returns p (trace s) r es \<Longrightarrow>
      response r = Some CPGSR_NO_CREDENTIAL_NOT_FINISHED \<Longrightarrow> serialization r = None \<Longrightarrow>
      Q r (s\<lparr>world := w, trace := es\<rparr>)"
  shows "wp (ReturnNoCredentialNotFinished A p hasText st lg waitMs) Q s"
  unfolding ReturnNoCredentialNotFinished_def
  by (intro wp_intro; simp, rule assms) (auto simp: returns_def es_defs owned_texts_def)

lemma wp_ReturnFinished [wp_intro]:
  assumes "\<And>r w es. returns p (trace s) r es \<Longrightarrow>
      response r = Some CPGSR_NO_CREDENTIAL_FINISHED \<Longrightarrow> serialization r = None \<Longrightarrow> status_out r = None \<Longrightarrow>
      Q r (s\<lparr>world := w, trace := es\<rparr>)"
  shows "wp (ReturnNoCredentialFinished A p lg waitMs) Q s"
  unfolding ReturnNoCredentialFinished_def
  by (intro wp_intro; simp, rule assms) (auto simp: returns_def es_defs owned_texts_def)

lemma wp_ReturnNoCleanup [wp_intro]:
  assumes "\<And>r w es. returns zero_pi (trace s) r es \<Longrightarrow> (st = None \<longrightarrow> status_out r = None) \<Longrightarrow>
      response r = Some CPGSR_NO_CREDENTIAL_NOT_FINISHED \<Longrightarrow> serialization r = None \<Longrightarrow>
      Q r (s\<lparr>world := w, trace := es\<rparr>)"
  shows "wp (ReturnNoCredentialNotFinishedNoCleanup A hasText st lg) Q s"
  unfolding ReturnNoCredentialNotFinishedNoCleanup_def
  by (intro wp_intro; simp, rule assms) (auto simp: returns_def es_defs owned_texts_def)

section \<open>Starting a session\<close>

text \<open>A started process has a handle.\<close>

definition process_law :: "'w os_api \<Rightarrow> bool" where
  "process_law A \<longleftrightarrow>
     (\<forall>cmd flags env w p. fst (os_CreateProcess A cmd flags env w) = Some p \<longrightarrow> hProcess p \<noteq> NULL_HANDLE)"

text \<open>The invariant while the session lock is held.\<close>

definition broker_core :: "('w, 'x) sess_scheme \<Rightarrow> bool" where
  "broker_core s \<longleftrightarrow> prov_wf s \<and> (\<forall>h. net h (trace s) = session_handles (g_session s) h)
     \<and> session_shape (g_session s) \<and> flags_wf s"

text \<open>
  What a phase keeps: the layers above, the locks and the LSA connections; and the memory it
  allocated is what its reply hands out.
\<close>

definition phase_frame :: "int \<Rightarrow> ('w, 'x) sess_scheme \<Rightarrow> ('w, 'x) sess_scheme \<Rightarrow> bool" where
  "phase_frame owned s s' \<longleftrightarrow> sess.more s' = sess.more s
     \<and> (\<forall>l. holds l (trace s') = holds l (trace s)) \<and> (\<forall>h. lsa_net h (trace s') = lsa_net h (trace s))
     \<and> mem_net (trace s') = mem_net (trace s) + owned"
lemma CreateProcessW_law:
  "process_law A \<Longrightarrow> wp (CreateProcessW A c f e) (\<lambda>r s'.
     closes (\<lambda>k. - (case r of None \<Rightarrow> 0 | Some p \<Rightarrow> pi_handles p k)) s s'
     \<and> (\<forall>p. r = Some p \<longrightarrow> hProcess p \<noteq> NULL_HANDLE)) s"
  by (rule wp_conj [OF CreateProcessW_spec])
     (auto simp: CreateProcessW_def wp_simps process_law_def own_def split: option.split)

lemma LaunchBroker_law:
  assumes "process_law A"
  shows "wp (LaunchBroker A n) (\<lambda>r s'. closes (\<lambda>k. - (case r of None \<Rightarrow> 0 | Some p \<Rightarrow> pi_handles p k)) s s'
     \<and> (\<forall>p. r = Some p \<longrightarrow> hProcess p \<noteq> NULL_HANDLE)) s"
  unfolding LaunchBroker_def BuildChildEnvironmentWithPipe_def Let_def
  by (intro wp_intro wp_mono [OF CreateProcessW_law [OF assms]]) (auto simp: closes_def)

lemma wp_LaunchBroker:
  assumes "process_law A"
    and "\<And>r w es. es_closes (\<lambda>k. - (case r of None \<Rightarrow> 0 | Some p \<Rightarrow> pi_handles p k)) (trace s) es \<Longrightarrow>
      (\<And>p. r = Some p \<Longrightarrow> hProcess p \<noteq> NULL_HANDLE) \<Longrightarrow> Q r (s\<lparr>world := w, trace := es\<rparr>)"
  shows "wp (LaunchBroker A n) Q s"
  by (rule wp_sys [where P = "\<lambda>r es. es_closes (\<lambda>k. - (case r of None \<Rightarrow> 0 | Some p \<Rightarrow> pi_handles p k))
        (trace s) es \<and> (\<forall>p. r = Some p \<longrightarrow> hProcess p \<noteq> NULL_HANDLE)"])
     (rule wp_mono [OF LaunchBroker_law [OF assms(1)]], simp add: closes_def es_closes_def, rule assms(2), auto)

definition started :: "('w, 'x) sess_scheme \<Rightarrow> reply option \<Rightarrow> ('w, 'x) sess_scheme \<Rightarrow> bool" where
  "started s r s' \<longleftrightarrow> broker_core s'
     \<and> (case r of
          None \<Rightarrow> phase_frame 0 s s' \<and> connected (g_session s')
        | Some rep \<Rightarrow> phase_frame (owned_texts rep) s s' \<and> \<not> connected (g_session s')
            \<and> response rep = Some CPGSR_NO_CREDENTIAL_NOT_FINISHED \<and> serialization rep = None)"

lemmas core_defs = broker_core_def prov_wf_defs flags_wf_def session_shape_def session_handles_def
  phase_frame_def started_def returns_def es_defs

lemma core_idle:
  assumes "broker_core s"
    and "hPipe (g_session s) = INVALID_HANDLE_VALUE \<or> hProcess (session_pi (g_session s)) = NULL_HANDLE"
  shows "g_session s = no_session \<and> g_brokerSessionActive s = 0 \<and> g_brokerAwaitingFinal s = 0
    \<and> g_lastBrokerFlowState s = 0 \<and> prov_wf s \<and> (\<forall>h. net h (trace s) = 0)"
  using assms by (auto simp: broker_core_def session_shape_def flags_wf_def session_handles_def split: if_splits)

lemma core_busy:
  assumes "broker_core s"
    and "hPipe (g_session s) \<noteq> INVALID_HANDLE_VALUE \<and> hProcess (session_pi (g_session s)) \<noteq> NULL_HANDLE"
  shows "started s None s"
  using assms by (auto simp: started_def phase_frame_def broker_core_def session_shape_def split: if_splits)

lemma start_session_spec:
  assumes law: "process_law A" and core: "broker_core s"
  shows "wp (start_session A hasText) (\<lambda>r s'. started s r s') s"
  unfolding start_session_def session_defs flag_defs option.case
  apply (intro wp_intro wp_LaunchBroker [OF assms(1)] wp_mono [OF ResetBrokerSession_spec])
                      apply simp_all
  apply (use core_busy [OF core] in simp)
  apply (use core_idle [OF core] in \<open>auto simp: core_defs ended_defs owned_texts_def\<close>)[]
  apply (use core_idle [OF core] in \<open>auto simp: core_defs ended_defs\<close>)[]
  apply (use core_idle [OF core] in \<open>auto simp: core_defs\<close>)[]
  apply (use core_idle [OF core] in \<open>auto simp: core_defs\<close>)[]
  done
section \<open>Acting on a message\<close>

text \<open>What the reply to a terminal message may be.\<close>

definition terminal_reply :: "string \<Rightarrow> reply \<Rightarrow> bool" where
  "terminal_reply t r \<longleftrightarrow>
     response r =
       Some (if t = ''AUTH_FALLBACK'' then CPGSR_NO_CREDENTIAL_FINISHED
             else if serialization r = None then CPGSR_NO_CREDENTIAL_NOT_FINISHED
             else CPGSR_RETURN_CREDENTIAL_FINISHED)
     \<and> (serialization r \<noteq> None \<longrightarrow> t = ''AUTH_SUCCESS'' \<and> status_out r = None)
     \<and> (\<forall>c. serialization r = Some c \<longrightarrow> ulAuthenticationPackage c \<noteq> 0
          \<and> clsidCredentialProvider c = CLSID_testCPProvider)"

lemma auth_state:
  fixes s s' :: "('w, 'x) auth_scheme"
  assumes "auth.more s' = auth.more s"
  shows "s' = s\<lparr>world := world s', trace := trace s', g_cachedKerberosPkg := g_cachedKerberosPkg s',
    g_cachedMsvPkg := g_cachedMsvPkg s'\<rparr>"
  using assms by (cases s; cases s') simp

lemma wp_auth:
  fixes m :: "(('w, 'x) auth_scheme, 'a) state"
  assumes "wp m (\<lambda>r s'. auth.more s' = auth.more s \<and> P r (trace s')) s"
    and "\<And>r w es c d. P r es \<Longrightarrow>
      Q r (s\<lparr>world := w, trace := es, g_cachedKerberosPkg := c, g_cachedMsvPkg := d\<rparr>)"
  shows "wp m Q s"
proof (rule wp_mono [OF assms(1)])
  fix r and s' :: "('w, 'x) auth_scheme"
  assume a: "auth.more s' = auth.more s \<and> P r (trace s')"
  show "Q r s'"
    using assms(2) [where r = r and es = "trace s'" and w = "world s'"
        and c = "g_cachedKerberosPkg s'" and d = "g_cachedMsvPkg s'"] a auth_state [of s' s]
    by metis
qed

definition es_packed :: "ev list \<Rightarrow> Packed option \<Rightarrow> ev list \<Rightarrow> bool" where
  "es_packed es r es' \<longleftrightarrow> silent es es' \<and> mem_net es' = mem_net es + (if r = None then 0 else 1)
     \<and> (\<forall>p. r = Some p \<longrightarrow> packed_authPkg p \<noteq> 0)"

lemma wp_PackAutoEx [wp_intro]:
  assumes "\<And>r w es c d. es_packed (trace s) r es \<Longrightarrow>
      Q r (s\<lparr>world := w, trace := es, g_cachedKerberosPkg := c, g_cachedMsvPkg := d\<rparr>)"
  shows "wp (PackAutoEx A domn user pass scen) Q s"
  by (rule wp_auth [where P = "es_packed (trace s)"])
     (rule wp_mono [OF auto_packer.pack_contract], auto simp: pack_keeps_def es_packed_def intro: assms)

lemma wide_eq_Nil [simp]: "wide s = [] \<longleftrightarrow> s = []"
  by (simp add: wide_def)

lemma HandleAuthSuccess_spec:
  "wp (HandleAuthSuccessMessage A m cpus p hasText) (\<lambda>r s'. auth.more s' = auth.more s
     \<and> returns p (trace s) r (trace s') \<and> terminal_reply ''AUTH_SUCCESS'' r) s"
  unfolding HandleAuthSuccessMessage_def Let_def
  by (intro wp_intro)
     (auto simp: returns_def es_defs es_packed_def owned_texts_def terminal_reply_def)

lemma HandleParsed_spec:
  "wp (HandleParsedBrokerMessage A m cpus p hasText) (\<lambda>r s'. auth.more s' = auth.more s
     \<and> returns p (trace s) r (trace s') \<and> terminal_reply (mtype m) r) s"
  unfolding HandleParsedBrokerMessage_def
  by (intro wp_intro wp_mono [OF HandleAuthSuccess_spec]) (auto simp: terminal_reply_def)

lemma wp_HandleParsed [wp_intro]:
  assumes "\<And>r w es c d. returns p (trace s) r es \<Longrightarrow> terminal_reply (mtype m) r \<Longrightarrow>
      Q r (s\<lparr>world := w, trace := es, g_cachedKerberosPkg := c, g_cachedMsvPkg := d\<rparr>)"
  shows "wp (HandleParsedBrokerMessage A m cpus p hasText) Q s"
  by (rule wp_auth [where P = "\<lambda>r es. returns p (trace s) r es \<and> terminal_reply (mtype m) r"])
     (rule HandleParsed_spec, use assms in blast)
text \<open>The session is over, except that its process handles are still open and in the result.\<close>

definition detached :: "('w, 'x) sess_scheme \<Rightarrow> ('w, 'x) sess_scheme \<Rightarrow> bool" where
  "detached s s' \<longleftrightarrow>
     g_session s' = no_session \<and> g_lastBrokerFlowState s' = 0
     \<and> g_brokerSessionActive s' = 0 \<and> g_brokerAwaitingFinal s' = 0 \<and> g_brokerSessionAutoSubmitTick s' = 0
     \<and> g_brokerSessionGeneration s' = g_brokerSessionGeneration s + 1
     \<and> sess.more s' = sess.more s \<and> same_refresh s s'
     \<and> es_closes (pipe_handles (hPipe (g_session s))) (trace s) (trace s')"

lemma no_session_update' [simp]:
  "b\<lparr>session_pi := zero_pi, hPipe := INVALID_HANDLE_VALUE, connected := False\<rparr> = no_session"
  by (cases b) simp

lemma detach_session_spec:
  "wp (detach_session A) (\<lambda>p s'. p = session_pi (g_session s) \<and> detached s s') s"
  unfolding detach_session_def session_defs flag_defs option.case
  by (intro wp_intro) (auto simp: detached_def same_refresh_def es_defs)

lemmas detached_defs = detached_def same_refresh_def

text \<open>What a phase does to the state that the next call sees.\<close>

definition keeps_session :: "('w, 'x) sess_scheme \<Rightarrow> ('w, 'x) sess_scheme \<Rightarrow> bool" where
  "keeps_session s s' \<longleftrightarrow> g_session s' = g_session s
     \<and> g_brokerSessionGeneration s' = g_brokerSessionGeneration s
     \<and> g_forceNextAutoSubmit s' = g_forceNextAutoSubmit s"

definition drops_session :: "('w, 'x) sess_scheme \<Rightarrow> ('w, 'x) sess_scheme \<Rightarrow> bool" where
  "drops_session s s' \<longleftrightarrow> g_session s' = no_session
     \<and> g_brokerSessionGeneration s' = g_brokerSessionGeneration s + 1
     \<and> g_brokerSessionAutoSubmitTick s' = 0"

lemma prov_frame_sess:
  fixes s s' :: "('w, 'x) sess_scheme"
  assumes "prov_frame s s'"
  shows "g_session s' = g_session s" and "g_lastBrokerFlowState s' = g_lastBrokerFlowState s"
    and "sess.more s' = sess.more s" and "quiet (trace s) (trace s')"
    and "mem_net (trace s') = mem_net (trace s)"
  using assms by (cases s; cases s'; auto simp: prov_frame_def)+

definition sess_request_keeps :: "('w, 'x) sess_scheme \<Rightarrow> ('w, 'x) sess_scheme \<Rightarrow> bool" where
  "sess_request_keeps s s' \<longleftrightarrow> g_brokerSessionActive s' = g_brokerSessionActive s
     \<and> g_brokerAwaitingFinal s' = g_brokerAwaitingFinal s
     \<and> g_brokerSessionAutoSubmitTick s' = g_brokerSessionAutoSubmitTick s
     \<and> g_forceNextAutoSubmit s' = g_forceNextAutoSubmit s
     \<and> g_brokerSessionGeneration s' = g_brokerSessionGeneration s
     \<and> g_session s' = g_session s \<and> g_lastBrokerFlowState s' = g_lastBrokerFlowState s
     \<and> sess.more s' = sess.more s \<and> quiet (trace s) (trace s') \<and> mem_net (trace s') = mem_net (trace s)"

lemma sess_request:
  fixes s :: "('w, 'x) sess_scheme"
  assumes "prov_wf s"
    and "\<And>s'. prov_wf s' \<Longrightarrow> sess_request_keeps s s' \<Longrightarrow> Q () s'"
  shows "wp (RequestCredentialsChangedAsync A d g) Q s"
  by (rule wp_mono [OF request_safe [OF assms(1)]])
     (use assms(2) in \<open>auto simp: request_keeps_def sess_request_keeps_def prov_frame_sess\<close>)

lemma handle_failure_spec:
  assumes "broker_core s"
  shows "wp (handle_failure A hasText res) (\<lambda>r s'. broker_core s' \<and> phase_frame (owned_texts r) s s'
    \<and> drops_session s s' \<and> response r = Some CPGSR_NO_CREDENTIAL_NOT_FINISHED \<and> serialization r = None
    \<and> (res \<in> {ReadBrokerExited, ReadFailed} \<longrightarrow> g_forceNextAutoSubmit s' = 1 \<and> status_out r = None)) s"
  unfolding handle_failure_def session_defs flag_defs option.case
  by (intro wp_intro wp_mono [OF detach_session_spec] sess_request)
     (use assms in \<open>auto simp: core_defs detached_defs drops_session_def sess_request_keeps_def\<close>)

text \<open>What each message does.\<close>

definition acts_on :: "bool \<Rightarrow> Msg \<Rightarrow> ('w, 'x) sess_scheme \<Rightarrow> reply \<Rightarrow> ('w, 'x) sess_scheme \<Rightarrow> bool" where
  "acts_on ok m s r s' \<longleftrightarrow>
     (if \<not> ok then drops_session s s' \<and> response r = Some CPGSR_NO_CREDENTIAL_NOT_FINISHED
        \<and> serialization r = None
      else if mtype m = ''AUTH_PENDING'' then keeps_session s s' \<and> g_brokerAwaitingFinal s' = 1
        \<and> g_lastBrokerFlowState s' = 1 \<and> g_brokerSessionAutoSubmitTick s' = 0
        \<and> response r = Some CPGSR_NO_CREDENTIAL_NOT_FINISHED \<and> serialization r = None
      else if mtype m = ''AUTH_IDLE'' then keeps_session s s' \<and> g_brokerAwaitingFinal s' = 0
        \<and> g_lastBrokerFlowState s' = 2
        \<and> response r = Some CPGSR_NO_CREDENTIAL_NOT_FINISHED \<and> serialization r = None
      else drops_session s s' \<and> terminal_reply (mtype m) r)"

lemmas act_defs = acts_on_def drops_session_def keeps_session_def sess_request_keeps_def

lemma handle_message_spec:
  assumes "broker_core s" and "connected (g_session s)"
    and "fst (ParseJsonLine msgJson empty_msg) = (ok, m)"
  shows "wp (handle_message A hasText cpus msgJson) (\<lambda>r s'. broker_core s'
    \<and> phase_frame (owned_texts r) s s' \<and> acts_on ok m s r s') s"
  unfolding handle_message_def assms(3) prod.case session_defs flag_defs option.case
  by (intro wp_intro wp_mono [OF detach_session_spec] wp_mono [OF ResetBrokerSession_spec] sess_request)
     (use assms(1,2) in \<open>auto simp: core_defs ended_defs detached_defs act_defs\<close>)

text \<open>What a whole read does; \<open>msgJson\<close> is empty only when the read failed.\<close>

definition read_outcome ::
    "PipeReadResult \<Rightarrow> string \<Rightarrow> ('w, 'x) sess_scheme \<Rightarrow> reply \<Rightarrow> ('w, 'x) sess_scheme \<Rightarrow> bool" where
  "read_outcome res msgJson s r s' \<longleftrightarrow>
     (if res = ReadTimeout then keeps_session s s' \<and> g_brokerAwaitingFinal s' = g_brokerAwaitingFinal s
        \<and> response r = Some CPGSR_NO_CREDENTIAL_NOT_FINISHED \<and> serialization r = None
        \<and> status_out r = None
      else if res \<noteq> ReadOk then drops_session s s' \<and> g_forceNextAutoSubmit s' = 1 \<and> status_out r = None
        \<and> response r = Some CPGSR_NO_CREDENTIAL_NOT_FINISHED \<and> serialization r = None
      else (case fst (ParseJsonLine msgJson empty_msg) of (ok, m) \<Rightarrow> acts_on ok m s r s'))"

lemma handle_read_spec:
  assumes core: "broker_core s" and conn: "connected (g_session s)" and ok: "res = ReadOk \<Longrightarrow> msgJson \<noteq> []"
  shows "wp (handle_read A hasText cpus res msgJson) (\<lambda>r s'. broker_core s'
    \<and> phase_frame (owned_texts r) s s' \<and> read_outcome res msgJson s r s') s"
proof (cases "res = ReadTimeout")
  case True
  then show ?thesis
    unfolding handle_read_def flag_defs
    by (simp, intro wp_intro sess_request)
       (use core conn in \<open>auto simp: core_defs act_defs read_outcome_def\<close>)
next
  case False
  show ?thesis
  proof (cases "res = ReadOk")
    case True
    obtain b m where p: "fst (ParseJsonLine msgJson empty_msg) = (b, m)" by fastforce
    show ?thesis
      using True ok handle_message_spec [OF core conn p] p
      by (simp add: handle_read_def read_outcome_def)
  next
    case notok: False
    then have "res \<in> {ReadBrokerExited, ReadFailed}" using False by (cases res) auto
    then show ?thesis
      unfolding handle_read_def read_outcome_def using False notok
      by (simp, intro wp_mono [OF handle_failure_spec [OF core]]) auto
  qed
qed

section \<open>The whole call\<close>

lemma core_iff: "broker_wf s \<longleftrightarrow> broker_core s \<and> holds SessionLock (trace s) = Some False"
  by (auto simp: broker_wf_def broker_core_def)

lemma core_emit:
  assumes "e = Acquire SessionLock \<or> e = Release SessionLock \<or> e = WipedMessage"
  shows "broker_core (s\<lparr>world := w, trace := e # trace s\<rparr>) = broker_core s"
proof -
  have n: "net h (e # trace s) = net h (trace s)" "sink_net h (e # trace s) = sink_net h (trace s)" for h
    using assms by auto
  have "holds EventsLock (e # trace s) = holds EventsLock (trace s)"
    using assms by auto
  with n show ?thesis
    by (simp add: broker_core_def prov_wf_defs flags_wf_def del: net.simps sink_net.simps holds.simps)
qed

lemma core_end:
  "broker_core (s\<lparr>world := w, trace := Release SessionLock # WipedMessage # trace s\<rparr>) = broker_core s"
  using core_emit [of "Release SessionLock" "s\<lparr>world := w, trace := WipedMessage # trace s\<rparr>" w]
    core_emit [of WipedMessage s w] by simp

text \<open>
  The first phase takes the lock, the last releases it.  What the call promises its caller:
  the invariant, the locks and LSA connections as before, and that every block of memory it
  allocated is in an out-parameter.
\<close>

definition call_frame :: "reply \<Rightarrow> ('w, 'x) sess_scheme \<Rightarrow> ('w, 'x) sess_scheme \<Rightarrow> bool" where
  "call_frame r s s' \<longleftrightarrow> broker_wf s' \<and> phase_frame (owned_texts r) s s'"

lemma locked_start:
  assumes "process_law A" and "broker_wf s"
  shows "wp (do { LockBrokerSessionExclusive A; start_session A hasText }) (\<lambda>r s'.
    broker_core s' \<and> holds SessionLock (trace s') = Some True
    \<and> (\<forall>l. l \<noteq> SessionLock \<longrightarrow> holds l (trace s') = holds l (trace s))
    \<and> sess.more s' = sess.more s \<and> (\<forall>h. lsa_net h (trace s') = lsa_net h (trace s))
    \<and> (case r of None \<Rightarrow> mem_net (trace s') = mem_net (trace s) \<and> connected (g_session s')
       | Some rep \<Rightarrow> mem_net (trace s') = mem_net (trace s) + owned_texts rep
           \<and> \<not> connected (g_session s')
           \<and> response rep = Some CPGSR_NO_CREDENTIAL_NOT_FINISHED \<and> serialization rep = None)) s"
  using assms(2) unfolding LockBrokerSessionExclusive_def
  by (intro wp_intro wp_mono [OF start_session_spec [OF assms(1)]])
     (auto simp: core_emit core_iff started_def phase_frame_def split: option.splits)

lemma unlocked_core:
  assumes "broker_core s" and "holds SessionLock (trace s) = Some True"
  shows "wp (do { UnlockBrokerSessionExclusive A; State_Monad.return (S_OK, r) }) (\<lambda>(h, r') s'.
    h = S_OK \<and> r' = r \<and> broker_wf s' \<and> (\<forall>l. l \<noteq> SessionLock \<longrightarrow> holds l (trace s') = holds l (trace s))
    \<and> s' = s\<lparr>world := world s', trace := Release SessionLock # trace s\<rparr>) s"
  using assms unfolding UnlockBrokerSessionExclusive_def
  by (intro wp_intro) (auto simp: core_emit core_iff)
text \<open>
  A call that returns: it was refused, or no session could be started, or a message was read
  in state \<open>t\<close> with the session up, and acted on in state \<open>u\<close>.
\<close>

definition ran ::
    "'w os_api \<Rightarrow> HRESULT \<Rightarrow> reply \<Rightarrow> ('w, 'x) sess_scheme \<Rightarrow> bool" where
  "ran A h r s' \<longleftrightarrow>
     (h = E_POINTER \<and> r = no_reply)
     \<or> (h = S_OK \<and> \<not> connected (g_session s') \<and> response r = Some CPGSR_NO_CREDENTIAL_NOT_FINISHED
         \<and> serialization r = None)
     \<or> (h = S_OK \<and> (\<exists>t u res msgJson. connected (g_session t) \<and> sess.more t = sess.more u
         \<and> g_session u = g_session t
         \<and> ReadPipeMessageUntilDone A (hPipe (g_session t)) (hProcess (session_pi (g_session t))) 250 1200 t
             = Some ((res, msgJson), u)
         \<and> read_outcome res msgJson u r s'))"

lemma os_frame_sess:
  fixes s s' :: "('w, 'x) sess_scheme"
  assumes "os_frame s s'"
  shows "s' = s\<lparr>world := world s', trace := trace s'\<rparr>" and "silent (trace s) (trace s')"
    and "mem_net (trace s') = mem_net (trace s)"
  using assms by (cases s; cases s'; auto simp: os_frame_def)+

lemma core_os_frame:
  fixes s s' :: "('w, 'x) sess_scheme"
  assumes "os_frame s s'" and "broker_core s"
  shows "broker_core s'"
  by (subst os_frame_sess(1) [OF assms(1)])
     (use assms(2) os_frame_sess(2) [OF assms(1)] in \<open>simp add: broker_core_def prov_wf_defs flags_wf_def\<close>)

lemma read_outcome_trace:
  "read_outcome res msg s r (s'\<lparr>world := w, trace := es\<rparr>) = read_outcome res msg s r s'"
  by (simp add: read_outcome_def acts_on_def keeps_session_def drops_session_def)

lemma GetSerialization_run:
  assumes law: "process_law A" and wf: "broker_wf s"
    and run: "GetSerialization A args cpus s = Some ((h, r), s')"
  shows "call_frame r s s' \<and> ran A h r s'"
proof (cases "has_response args \<and> has_serialization args")
  case False
  then show ?thesis
    using run wf by (auto simp: GetSerialization_def call_frame_def phase_frame_def owned_texts_def no_reply_def ran_def)
next
  case True
  obtain r0 t where st: "run_state (do { LockBrokerSessionExclusive A; start_session A (has_status args) }) s = (r0, t)"
    by fastforce
  note S = wp_run [OF st locked_start [OF law wf]]
  have free: "holds SessionLock (trace s) = Some False" using wf by (simp add: broker_wf_def)
  show ?thesis
  proof (cases r0)
    case (Some rep)
    then have u: "run_state (do { UnlockBrokerSessionExclusive A; State_Monad.return (S_OK, rep) }) t = ((h, r), s')"
      using run True st by (simp add: GetSerialization_def)
    have core: "broker_core t" "holds SessionLock (trace t) = Some True" using S by auto
    note U = wp_run [OF u unlocked_core [OF core]]
    obtain w where s': "s' = t\<lparr>world := w, trace := Release SessionLock # trace t\<rparr>" using U by blast
    have "holds l (trace s') = holds l (trace s)" for l
      using S free by (cases "l = SessionLock") (simp_all add: s')
    moreover have "call_frame r s s' \<longleftrightarrow> (\<forall>l. holds l (trace s') = holds l (trace s))"
      using S U Some by (simp add: call_frame_def phase_frame_def s')
    moreover have "ran A h r s'" using S U Some by (simp add: ran_def s')
    ultimately show ?thesis by simp
  next
    case None
    obtain res msgJson u
      where rd: "ReadPipeMessageUntilDone A (hPipe (g_session t)) (hProcess (session_pi (g_session t))) 250 1200 t
          = Some ((res, msgJson), u)"
      and fin: "run_state (do { r \<leftarrow> handle_read A (has_status args) cpus res msgJson; emit A WipedMessage;
          UnlockBrokerSessionExclusive A; State_Monad.return (S_OK, r) }) u = ((h, r), s')"
      using run True st None by (auto simp: GetSerialization_def split: option.splits)
    have fr: "os_frame t u" by (rule pipe.recv_frame [OF rd])
    note F = os_frame_sess [OF fr]
    have core: "broker_core u" using core_os_frame [OF fr] S by blast
    have more: "g_session u = g_session t" "sess.more u = sess.more t"
      by (subst F(1), simp)+
    have conn: "connected (g_session u)" using more S None by simp
    have ok: "res = ReadOk \<Longrightarrow> msgJson \<noteq> []" using pipe.recv_ok rd by blast
    have "wp (do { r \<leftarrow> handle_read A (has_status args) cpus res msgJson; emit A WipedMessage;
          UnlockBrokerSessionExclusive A; State_Monad.return (S_OK, r) })
        (\<lambda>(h, r) s'. h = S_OK \<and> broker_core s' \<and> read_outcome res msgJson u r s'
          \<and> sess.more s' = sess.more u \<and> (\<forall>h. lsa_net h (trace s') = lsa_net h (trace u))
          \<and> mem_net (trace s') = mem_net (trace u) + owned_texts r
          \<and> (\<forall>l. holds l (trace s') = (if l = SessionLock then
              (if holds l (trace u) = Some True then Some False else None) else holds l (trace u)))) u"
      unfolding UnlockBrokerSessionExclusive_def
      by (intro wp_intro wp_mono [OF handle_read_spec [OF core conn ok]])
         (auto simp: core_end read_outcome_trace phase_frame_def)
    note H = wp_run [OF fin this]
    have "holds l (trace s') = holds l (trace s)" for l
      using S H F(2) free None by (cases "l = SessionLock") auto
    moreover have "broker_wf s'" using calculation H free by (simp add: core_iff)
    moreover have "mem_net (trace s') = mem_net (trace s) + owned_texts r"
      "sess.more s' = sess.more s" "\<forall>k. lsa_net k (trace s') = lsa_net k (trace s)"
      using S H F None more by auto
    ultimately have "call_frame r s s'" by (simp add: call_frame_def phase_frame_def)
    moreover have "ran A h r s'"
    proof -
      have "h = S_OK" "read_outcome res msgJson u r s'" "connected (g_session t)"
        using H conn more by auto
      then show ?thesis
        unfolding ran_def
        by (intro disjI2 conjI exI [of _ t] exI [of _ u] exI [of _ res] exI [of _ msgJson])
           (simp_all add: rd more)
    qed
    ultimately show ?thesis by simp
  qed
qed

end
