(* ===== verification/Serialization_Facts.thy ===== *)
theory Serialization_Facts
  imports Get_Serialization
begin

text \<open>
  What \<open>GetSerialization\<close> guarantees its caller, over the model and the rules of
  \<^theory_text>\<open>Get_Serialization\<close>, with the runs on concrete worlds that witness it.
\<close>

section \<open>Properties\<close>

text \<open>
  C4: \<open>GetSerialization\<close>, however the broker and Windows behave, ends with every handle the
  provider still has open accounted for by the session (and the session whole or absent), with
  the flags telling the truth about it, with both locks free, with no LSA connection left, and
  with each block of memory it allocated handed to the caller in an out-parameter.
\<close>

theorem GetSerialization_safe:
  assumes "process_law A" and "broker_wf s"
    and "GetSerialization A args cpus s = Some ((h, r), s')"
  shows "broker_wf s' \<and> (\<forall>k. net k (trace s') = session_handles (g_session s') k)
    \<and> holds SessionLock (trace s') = Some False \<and> holds EventsLock (trace s') = Some False
    \<and> (\<forall>k. lsa_net k (trace s') = lsa_net k (trace s))
    \<and> mem_net (trace s') = mem_net (trace s) + owned_texts r"
proof -
  note run = GetSerialization_run [OF assms, unfolded call_frame_def phase_frame_def]
  then have "broker_wf s'" by blast
  then have "(\<forall>k. net k (trace s') = session_handles (g_session s') k)
    \<and> holds SessionLock (trace s') = Some False \<and> holds EventsLock (trace s') = Some False"
    by (simp add: broker_wf_def prov_wf_def events_free_def)
  with run show ?thesis by blast
qed


lemma GetSerialization_terminates:
  fixes A :: "'w os_api" and s :: "('w, 'x) sess_scheme"
  assumes "clock_law A clk"
  shows "\<exists>h r s'. GetSerialization A args cpus s = Some ((h, r), s')"
proof (cases "GetSerialization A args cpus s")
  case None
  then obtain t :: "('w, 'x) sess_scheme" where t: "ReadPipeMessageUntilDone A (hPipe (g_session t)) (hProcess (session_pi (g_session t))) 250 1200 t = None"
    by (auto simp: GetSerialization_def split: option.splits prod.splits if_splits)
  have "(1200 :: DWORD) \<noteq> INFINITE" by simp
  from until_done_returns [OF assms this] t show ?thesis by (metis option.distinct(1))
qed auto



text \<open>
  While the broker says \<open>AUTH_PENDING\<close> the session is kept, nothing is reported, and the next
  automatic submit is due at once.
\<close>

theorem pending_keeps_session:
  assumes "broker_core s" and "connected (g_session s)"
    and "fst (ParseJsonLine line empty_msg) = (True, m)" and "mtype m = ''AUTH_PENDING''"
    and "run_state (handle_message A hasText cpus line) s = (r, s')"
  shows "g_session s' = g_session s \<and> g_brokerSessionGeneration s' = g_brokerSessionGeneration s
    \<and> g_brokerAwaitingFinal s' = 1 \<and> g_brokerSessionAutoSubmitTick s' = 0
    \<and> response r = Some CPGSR_NO_CREDENTIAL_NOT_FINISHED \<and> serialization r = None"
  using wp_run [OF assms(5) handle_message_spec [OF assms(1-3)]] assms(4)
  by (simp add: acts_on_def keeps_session_def)

text \<open>
  C21: an \<open>AUTH_FAIL\<close> message ends the session: the pipe is closed and the process, which is
  terminated if it does not exit by itself, is let go, although the broker may still show its
  window for another attempt.
\<close>

theorem auth_fail_ends_session:
  assumes "broker_core s" and "connected (g_session s)"
    and "fst (ParseJsonLine line empty_msg) = (True, m)" and "mtype m = ''AUTH_FAIL''"
    and "run_state (handle_message A hasText cpus line) s = (r, s')"
  shows "g_session s' = no_session \<and> response r = Some CPGSR_NO_CREDENTIAL_NOT_FINISHED
    \<and> serialization r = None \<and> (\<forall>h. net h (trace s') = 0)"
proof -
  have post: "broker_core s'" "acts_on True m s r s'"
    using wp_run [OF assms(5) handle_message_spec [OF assms(1-3)]] by auto
  then have "g_session s' = no_session \<and> terminal_reply (mtype m) r"
    using assms(4) by (simp add: acts_on_def drops_session_def)
  with post(1) assms(4) show ?thesis
    by (auto simp: terminal_reply_def broker_core_def session_handles_def)
qed

text \<open>
  C22: when the read fails, the session is dropped, the next selection submits by itself, and
  the user is told nothing: no status text is set, whatever \<open>ReadFailureStatusText\<close> would say.
\<close>

theorem read_failure_recovers_silently:
  assumes "broker_core s" and "connected (g_session s)" and "res \<in> {ReadBrokerExited, ReadFailed}"
    and "run_state (handle_read A hasText cpus res line) s = (r, s')"
  shows "g_session s' = no_session \<and> g_forceNextAutoSubmit s' = 1 \<and> status_out r = None
    \<and> response r = Some CPGSR_NO_CREDENTIAL_NOT_FINISHED"
proof -
  have "res = ReadOk \<Longrightarrow> line \<noteq> []" using assms(3) by auto
  from wp_run [OF assms(4) handle_read_spec [OF assms(1,2) this]] assms(3)
  show ?thesis by (auto simp: read_outcome_def drops_session_def)
qed

section \<open>Witnesses\<close>

definition start_sess :: "ULONGLONG sess" where
  "start_sess = prov.extend start_prov \<lparr>g_lastBrokerFlowState = 0, g_session = no_session\<rparr>"

text \<open>A session is up: a pipe, a process and a thread.\<close>

definition up_sess :: "ULONGLONG sess" where
  "up_sess = start_sess\<lparr>g_brokerSessionActive := 1, trace := [Opened 0x40, Opened 0x30, Opened 0x20],
     g_session := \<lparr>hPipe = 0x20, session_pi = \<lparr>hProcess = 0x30, hThread = 0x40, dwProcessId = 9\<rparr>,
       connected = True\<rparr>\<rparr>"

lemmas sess_start_defs = start_sess_def start_defs sess.defs

lemma sess_start_wf: "broker_wf start_sess" "broker_wf up_sess" "broker_core up_sess"
  by (auto simp: broker_wf_def broker_core_def prov_wf_defs flags_wf_def session_shape_def session_handles_def
      pi_handles_def pipe_handles_def up_sess_def sess_start_defs)

lemma demo_process_law: "process_law (demo_api reply err)"
  by (simp add: process_law_def demo_defs)

lemma GetSerialization_safe_witness:
  "\<exists>h r s'. GetSerialization silent_api \<lparr>has_response = True, has_serialization = True, has_status = True, has_icon = True\<rparr>
      CPUS_LOGON up_sess = Some ((h, r), s') \<and> broker_wf s'"
proof -
  obtain h r s' where run: "GetSerialization silent_api \<lparr>has_response = True, has_serialization = True, has_status = True, has_icon = True\<rparr>
      CPUS_LOGON up_sess = Some ((h, r), s')"
    using GetSerialization_terminates [OF silent_laws(2)] by blast
  from GetSerialization_safe [OF _ sess_start_wf(2) run] run show ?thesis
    by (auto simp: silent_api_def demo_process_law)
qed


lemma parse_encoded: "mtype m \<noteq> [] \<Longrightarrow> fst (ParseJsonLine (message_line m) m0) = (True, m)"
  using ParseJsonLine_accepts [OF object_message_line, of m m0] by (simp add: fields_message)

lemma parse_type:
  "t \<noteq> [] \<Longrightarrow>
   fst (ParseJsonLine (message_line (empty_msg\<lparr>mtype := t\<rparr>)) empty_msg) = (True, empty_msg\<lparr>mtype := t\<rparr>)"
  by (rule parse_encoded) simp

lemma pending_keeps_session_witness:
  "g_session (snd (run_state (handle_message silent_api True CPUS_LOGON
     (message_line (empty_msg\<lparr>mtype := ''AUTH_PENDING''\<rparr>))) up_sess)) = g_session up_sess"
proof -
  obtain r s' where "run_state (handle_message silent_api True CPUS_LOGON
     (message_line (empty_msg\<lparr>mtype := ''AUTH_PENDING''\<rparr>))) up_sess = (r, s')" by fastforce
  from pending_keeps_session [OF sess_start_wf(3) _ parse_type _ this] this
  show ?thesis by (simp add: up_sess_def)
qed

lemma auth_fail_ends_session_witness:
  "g_session (snd (run_state (handle_message silent_api True CPUS_LOGON
     (message_line (empty_msg\<lparr>mtype := ''AUTH_FAIL''\<rparr>))) up_sess)) = no_session"
proof -
  obtain r s' where "run_state (handle_message silent_api True CPUS_LOGON
     (message_line (empty_msg\<lparr>mtype := ''AUTH_FAIL''\<rparr>))) up_sess = (r, s')" by fastforce
  from auth_fail_ends_session [OF sess_start_wf(3) _ parse_type _ this] this
  show ?thesis by (simp add: up_sess_def)
qed

lemma read_failure_recovers_silently_witness:
  "status_out (fst (run_state (handle_read silent_api True CPUS_LOGON ReadBrokerExited []) up_sess)) = None"
proof -
  obtain r s' where "run_state (handle_read silent_api True CPUS_LOGON ReadBrokerExited []) up_sess = (r, s')"
    by fastforce
  from read_failure_recovers_silently [OF sess_start_wf(3) _ _ this] this
  show ?thesis by (simp add: up_sess_def)
qed

text \<open>A broker whose next message is in the pipe already: one read delivers it whole.\<close>

lemma mem_read_write: "mem_read (mem_write buf data) (length data) = data"
  by (rule nth_equalityI) (simp_all add: mem_read_def mem_write_def)

lemma talking_simps:
  "os_note (talking_api msg) x w = w" "os_CreateEvent (talking_api msg) w = (0x10, w)"
  "os_ReadFile (talking_api msg) p e n w = (says msg, w)"
  "os_GetTickCount64 (talking_api msg) w = (w, w)"
  by (simp_all add: talking_api_def demo_api_def demo_process_def demo_pipe_def demo_sync_def
      sync_api.defs pipe_api.defs process_api.defs)

lemma demo_read_once:
  assumes "msg \<noteq> []" and "length msg < 4096"
  shows "run_state (ReadPipeMessageWithTimeout (talking_api msg) p b t) s
    = ((ReadOk, msg), s\<lparr>trace := Closed 0x10 # Opened 0x10 # trace s\<rparr>)"
proof -
  have n: "(of_nat (length msg) :: DWORD) \<noteq> 0" "unat (of_nat (length msg) :: DWORD) = length msg"
    using assms unat_of_nat_len [where 'a = 32, of "length msg"] by (auto simp: word_unat_eq_iff)
  show ?thesis
    using assms n
    by (simp add: ReadPipeMessageWithTimeout_def read_loop.simps [of "talking_api msg"] read_defs
        run_ask talking_simps emit_def CloseHandle_def says_def Let_def mem_read_write when_do_def
        kMaxMsgBytes_def)
qed

lemma demo_read:
  assumes "msg \<noteq> []" and "length msg < 4096"
  shows "ReadPipeMessageUntilDone (talking_api msg) p b 250 1200 s
    = Some ((ReadOk, msg), s\<lparr>trace := Closed 0x10 # Opened 0x10 # trace s\<rparr>)"
  by (simp add: until_done_eq until_loop.simps [of "talking_api msg"] talking_simps demo_read_once [OF assms])

definition success_msg :: Msg where
  "success_msg = \<lparr>mtype = ''AUTH_SUCCESS'', sam = ''kim'', password = ''pw'', reason = []\<rparr>"

definition success_line :: string where
  "success_line = message_line success_msg"

lemma success_line_short: "success_line \<noteq> [] \<and> length success_line < 4096"
  by code_simp

lemma success_parse: "fst (ParseJsonLine success_line empty_msg) = (True, success_msg)"
  unfolding success_line_def by (rule parse_encoded) (simp add: success_msg_def)

lemma success_handled:
  "response (fst (run_state (handle_read (talking_api success_line) True CPUS_LOGON ReadOk success_line) (up_sess\<lparr>trace := es\<rparr>)))
   = Some CPGSR_RETURN_CREDENTIAL_FINISHED"
  using success_line_short
  by (simp add: handle_read_def handle_message_def success_parse success_msg_def detach_session_def session_defs
      flag_defs when_do_def ClosePipeHandle_def CloseHandle_def emit_def HandleParsedBrokerMessage_def
      HandleAuthSuccessMessage_def Widen_def run_ask Let_def CpLog_def CpLogText_def WaitAndCloseBrokerProcess_def
      PackAutoEx_def PackMsv_def ResolveMsv_def ResolvePkgCached_def ResolvePkgA_def closeLsa_def
      CoAllocZero_def CoTaskMemAlloc_def up_sess_def sess_start_defs talking_api_def demo_defs wide_def)

lemma up_session_lock:
  "run_state (LockBrokerSessionExclusive (talking_api msg)) s = ((), s\<lparr>trace := Acquire SessionLock # trace s\<rparr>)"
  by (simp add: LockBrokerSessionExclusive_def emit_def talking_simps)

lemma up_session_start:
  "run_state (start_session (talking_api msg) t) (up_sess\<lparr>trace := es\<rparr>) = (None, up_sess\<lparr>trace := es\<rparr>)"
  by (simp add: start_session_def session_defs up_sess_def)

lemma credential_run:
  "\<exists>h r s'. GetSerialization (talking_api success_line)
      \<lparr>has_response = True, has_serialization = True, has_status = True, has_icon = True\<rparr> CPUS_LOGON up_sess = Some ((h, r), s')
    \<and> response r = Some CPGSR_RETURN_CREDENTIAL_FINISHED"
proof -
  let ?A = "talking_api success_line" and ?es = "Closed 0x10 # Opened 0x10 # Acquire SessionLock # trace up_sess"
  obtain r t where h: "run_state (handle_read ?A True CPUS_LOGON ReadOk success_line) (up_sess\<lparr>trace := ?es\<rparr>) = (r, t)"
    by fastforce
  have rd: "ReadPipeMessageUntilDone ?A p b 250 1200 (up_sess\<lparr>trace := Acquire SessionLock # trace up_sess\<rparr>)
      = Some ((ReadOk, success_line), up_sess\<lparr>trace := ?es\<rparr>)" for p b
    using success_line_short by (simp add: demo_read)
  have "response r = Some CPGSR_RETURN_CREDENTIAL_FINISHED"
    using success_handled [of ?es] h by simp
  then show ?thesis
    using h by (simp add: GetSerialization_def up_session_lock up_session_start rd split_def)
qed


end
