(* ===== verification/Session_Protocol.thy ===== *)
theory Session_Protocol
  imports Serialization_Facts
begin

text \<open>
  The protocol of section 4 of the README as an abstract machine of four phases, and the proof
  that \<open>GetSerialization\<close> implements it.
\<close>

section \<open>The abstract machine\<close>

datatype phase = Down | Up | Awaiting | Idle

datatype broker_event = Silence | Gone | Garbage | Said string

text \<open>
  \<open>protocol p e g q\<close>: in phase \<open>p\<close>, on the event \<open>e\<close>, LogonUI is answered \<open>g\<close> and the phase is
  \<open>q\<close> afterwards.  A success whose credential cannot be built is answered like a failure.
\<close>

inductive protocol :: "phase \<Rightarrow> broker_event \<Rightarrow> GSR \<Rightarrow> phase \<Rightarrow> bool" where
  silence: "p \<noteq> Down \<Longrightarrow> protocol p Silence CPGSR_NO_CREDENTIAL_NOT_FINISHED p"
| gone: "p \<noteq> Down \<Longrightarrow> protocol p Gone CPGSR_NO_CREDENTIAL_NOT_FINISHED Down"
| garbage: "p \<noteq> Down \<Longrightarrow> protocol p Garbage CPGSR_NO_CREDENTIAL_NOT_FINISHED Down"
| pending: "p \<noteq> Down \<Longrightarrow> protocol p (Said ''AUTH_PENDING'') CPGSR_NO_CREDENTIAL_NOT_FINISHED Awaiting"
| idle: "p \<noteq> Down \<Longrightarrow> protocol p (Said ''AUTH_IDLE'') CPGSR_NO_CREDENTIAL_NOT_FINISHED Idle"
| success: "p \<noteq> Down \<Longrightarrow> protocol p (Said ''AUTH_SUCCESS'') CPGSR_RETURN_CREDENTIAL_FINISHED Down"
| unpacked: "p \<noteq> Down \<Longrightarrow> protocol p (Said ''AUTH_SUCCESS'') CPGSR_NO_CREDENTIAL_NOT_FINISHED Down"
| fallback: "p \<noteq> Down \<Longrightarrow> protocol p (Said ''AUTH_FALLBACK'') CPGSR_NO_CREDENTIAL_FINISHED Down"
| refused: "p \<noteq> Down \<Longrightarrow> t \<notin> {''AUTH_PENDING'', ''AUTH_IDLE'', ''AUTH_SUCCESS'', ''AUTH_FALLBACK''} \<Longrightarrow>
    protocol p (Said t) CPGSR_NO_CREDENTIAL_NOT_FINISHED Down"

inductive_simps protocol_Down [simp]: "protocol Down e g q"

text \<open>One call: it may fail to start a broker; otherwise it reads one event.\<close>

definition opened :: "phase \<Rightarrow> phase" where
  "opened p = (if p = Down then Up else p)"

inductive call :: "phase \<Rightarrow> GSR \<Rightarrow> phase \<Rightarrow> bool" where
  no_broker: "call Down CPGSR_NO_CREDENTIAL_NOT_FINISHED Down"
| read: "protocol (opened p) e g q \<Longrightarrow> call p g q"

section \<open>The abstraction\<close>

definition phase_of :: "('w, 'x) sess_scheme \<Rightarrow> phase" where
  "phase_of s = (if \<not> connected (g_session s) then Down
     else if g_lastBrokerFlowState s = 1 then Awaiting
     else if g_lastBrokerFlowState s = 2 then Idle
     else Up)"

definition event_of :: "PipeReadResult \<Rightarrow> string \<Rightarrow> broker_event" where
  "event_of res line =
     (if res = ReadTimeout then Silence
      else if res \<noteq> ReadOk \<or> line = [] then Gone
      else (case fst (ParseJsonLine line empty_msg) of (ok, m) \<Rightarrow> if ok then Said (mtype m) else Garbage))"

lemma phase_of_no_session [simp]: "g_session s = no_session \<Longrightarrow> phase_of s = Down"
  by (simp add: phase_of_def)

lemma phase_of_Down: "phase_of s = Down \<longleftrightarrow> \<not> connected (g_session s)"
  by (simp add: phase_of_def)

lemma phase_of_log [simp]: "phase_of (s\<lparr>world := w, trace := es\<rparr>) = phase_of s"
  by (simp add: phase_of_def)

section \<open>A read implements one step of the protocol\<close>

lemma timeout_phase:
  assumes "broker_core s"
  shows "wp (handle_read A hasText cpus ReadTimeout line) (\<lambda>r s'.
    response r = Some CPGSR_NO_CREDENTIAL_NOT_FINISHED \<and> phase_of s' = phase_of s) s"
  unfolding handle_read_def flag_defs simp_thms if_True
  by (intro wp_intro sess_request)
     (use assms in \<open>auto simp: broker_core_def sess_request_keeps_def phase_of_def\<close>)

lemma message_phase:
  assumes core: "broker_core s" and conn: "connected (g_session s)"
    and parsed: "fst (ParseJsonLine line empty_msg) = (ok, m)"
  shows "wp (handle_message A hasText cpus line) (\<lambda>r s'. \<exists>g. response r = Some g
    \<and> protocol (phase_of s) (if ok then Said (mtype m) else Garbage) g (phase_of s')) s"
proof (rule wp_mono [OF handle_message_spec [OF core conn parsed]])
  fix r s'
  assume a: "broker_core s' \<and> phase_frame (owned_texts r) s s' \<and> acts_on ok m s r s'"
  have up: "phase_of s \<noteq> Down" using conn by (simp add: phase_of_Down)
  consider "\<not> ok" | "ok" "mtype m = ''AUTH_PENDING''" | "ok" "mtype m = ''AUTH_IDLE''"
    | "ok" "mtype m \<noteq> ''AUTH_PENDING''" "mtype m \<noteq> ''AUTH_IDLE''" by blast
  then show "\<exists>g. response r = Some g
    \<and> protocol (phase_of s) (if ok then Said (mtype m) else Garbage) g (phase_of s')"
  proof cases
    case 1
    then show ?thesis using a up by (auto simp: acts_on_def drops_session_def intro: protocol.intros)
  next
    case 2
    then have "phase_of s' = Awaiting" "response r = Some CPGSR_NO_CREDENTIAL_NOT_FINISHED"
      using a conn by (simp_all add: acts_on_def keeps_session_def phase_of_def)
    then show ?thesis using 2 up by (simp add: protocol.pending)
  next
    case 3
    then have "phase_of s' = Idle" "response r = Some CPGSR_NO_CREDENTIAL_NOT_FINISHED"
      using a conn by (simp_all add: acts_on_def keeps_session_def phase_of_def)
    then show ?thesis using 3 up by (simp add: protocol.idle)
  next
    case 4
    then have "phase_of s' = Down" and t: "terminal_reply (mtype m) r"
      using a by (simp_all add: acts_on_def drops_session_def)
    then show ?thesis
      using 4 up by (cases "mtype m \<in> {''AUTH_SUCCESS'', ''AUTH_FALLBACK''}")
        (auto simp: terminal_reply_def intro: protocol.intros)
  qed
qed

lemma read_phase:
  assumes "broker_core s" and "connected (g_session s)"
  shows "wp (handle_read A hasText cpus res line) (\<lambda>r s'. \<exists>g. response r = Some g
    \<and> protocol (phase_of s) (event_of res line) g (phase_of s')) s"
proof -
  have up: "phase_of s \<noteq> Down" using assms(2) by (simp add: phase_of_Down)
  consider "res = ReadTimeout" | "res \<noteq> ReadTimeout" "res \<noteq> ReadOk \<or> line = []" | "res = ReadOk" "line \<noteq> []"
    by blast
  then show ?thesis
  proof cases
    case 1
    with up show ?thesis
      by (simp add: event_of_def) (rule wp_mono [OF timeout_phase [OF assms(1)]], auto intro: protocol.silence)
  next
    case 2
    with up show ?thesis
      by (simp add: handle_read_def event_of_def)
        (rule wp_mono [OF handle_failure_spec [OF assms(1)]], auto simp: drops_session_def intro: protocol.gone)
  next
    case 3
    obtain ok m where p: "fst (ParseJsonLine line empty_msg) = (ok, m)" by fastforce
    show ?thesis
      using 3 message_phase [OF assms p] by (simp add: handle_read_def event_of_def p)
  qed
qed

section \<open>A call implements one step of the calls\<close>

definition start_post :: "phase \<Rightarrow> reply option \<Rightarrow> ('w, 'x) sess_scheme \<Rightarrow> bool" where
  "start_post p r s' \<longleftrightarrow> (case r of None \<Rightarrow> phase_of s' = opened p
     | Some x \<Rightarrow> phase_of s' = Down \<and> p = Down \<and> response x = Some CPGSR_NO_CREDENTIAL_NOT_FINISHED)"

lemma start_phase:
  assumes law: "process_law A" and core: "broker_core s"
  shows "wp (start_session A hasText) (\<lambda>r s'. start_post (phase_of s) r s') s"
  unfolding start_session_def session_defs flag_defs option.case
  apply (intro wp_intro wp_LaunchBroker [OF law] wp_mono [OF ResetBrokerSession_spec])
                      apply simp_all
  apply (use core in \<open>auto simp: start_post_def opened_def phase_of_Down broker_core_def session_shape_def split: if_splits\<close>)[]
  apply (use core_idle [OF core] in \<open>simp add: start_post_def phase_of_def\<close>)[]
  apply (use core_idle [OF core] in \<open>simp add: start_post_def phase_of_def ended_defs\<close>)[]
  apply (use core_idle [OF core] in \<open>simp add: start_post_def phase_of_def\<close>)[]
  apply (use core_idle [OF core] in \<open>simp add: start_post_def phase_of_def opened_def\<close>)[]
  done

text \<open>The ways a call can go, taken apart once.\<close>

lemma GetSerialization_cases:
  assumes "GetSerialization A args cpus s = Some ((h, r), s')"
  obtains (refused) "h = E_POINTER" "r = no_reply" "s' = s"
  | (start) t u where "h = S_OK" "run_state (do { LockBrokerSessionExclusive A; start_session A (has_status args) }) s = (Some r, t)"
      "run_state (UnlockBrokerSessionExclusive A) t = (u, s')"
  | (read) t res line u v where "h = S_OK"
      "run_state (do { LockBrokerSessionExclusive A; start_session A (has_status args) }) s = (None, t)"
      "ReadPipeMessageUntilDone A (hPipe (g_session t)) (hProcess (session_pi (g_session t))) 250 1200 t
         = Some ((res, line), u)"
      "run_state (handle_read A (has_status args) cpus res line) u = (r, v)"
      "s' = snd (run_state (do { emit A WipedMessage; UnlockBrokerSessionExclusive A }) v)"
  using assms
  by (auto simp: GetSerialization_def split: if_splits option.splits prod.splits)

lemma lock_phase:
  assumes "process_law A" and "broker_wf s"
  shows "wp (do { LockBrokerSessionExclusive A; start_session A hasText })
    (\<lambda>r s'. broker_core s' \<and> start_post (phase_of s) r s') s"
  using assms(2) unfolding LockBrokerSessionExclusive_def
  by (intro wp_intro wp_mono [OF wp_conj [OF start_session_spec [OF assms(1)] start_phase [OF assms(1)]]])
     (auto simp: core_emit core_iff started_def)

lemma end_phase:
  "phase_of (snd (run_state (do { emit A WipedMessage; UnlockBrokerSessionExclusive A }) v)) = phase_of v"
  "run_state (UnlockBrokerSessionExclusive A) t = (x, t') \<Longrightarrow> phase_of t' = phase_of t"
  by (auto simp: UnlockBrokerSessionExclusive_def emit_def)

lemma call_phase:
  assumes law: "process_law A" and wf: "broker_wf s"
    and run: "GetSerialization A args cpus s = Some ((S_OK, r), s')"
  shows "\<exists>g. response r = Some g \<and> call (phase_of s) g (phase_of s')"
  using run
proof (cases rule: GetSerialization_cases)
  case refused
  then show ?thesis by simp
next
  case (start t u)
  then show ?thesis
    using wp_run [OF start(2) lock_phase [OF law wf]] end_phase(2) [OF start(3)] call.no_broker
    by (auto simp: start_post_def)
next
  case (read t res line u v)
  note S = wp_run [OF read(2) lock_phase [OF law wf]]
  have fr: "os_frame t u" by (rule pipe.recv_frame [OF read(3)])
  have core: "broker_core u" using core_os_frame [OF fr] S by blast
  have ph: "phase_of u = opened (phase_of s)"
    using S by (subst os_frame_sess(1) [OF fr]) (simp add: start_post_def)
  then have "connected (g_session u)" using phase_of_Down [of u] by (auto simp: opened_def split: if_splits)
  from wp_run [OF read(4) read_phase [OF core this]] ph show ?thesis
    using call.read end_phase(1) [of A v] read(5) by auto
qed

section \<open>Properties\<close>

text \<open>
  One read and the reaction to it implement the protocol: whatever the broker sends, or does
  not send, the answer to LogonUI and the phase afterwards are those of one step of the abstract
  machine.
\<close>

theorem read_refines_protocol:
  assumes "broker_core s" and "connected (g_session s)"
    and "run_state (handle_read A hasText cpus res line) s = (r, s')"
  shows "\<exists>g. response r = Some g \<and> protocol (phase_of s) (event_of res line) g (phase_of s')"
  using wp_run [OF assms(3) read_phase [OF assms(1,2)]] by simp


section \<open>Witnesses\<close>

lemma read_refines_protocol_witness:
  "\<exists>r s' g. run_state (handle_read silent_api True CPUS_LOGON ReadTimeout []) up_sess = (r, s')
     \<and> protocol Up Silence g (phase_of s')"
proof -
  obtain r s' where run: "run_state (handle_read silent_api True CPUS_LOGON ReadTimeout []) up_sess = (r, s')"
    by fastforce
  have "connected (g_session up_sess)" "phase_of up_sess = Up" "event_of ReadTimeout [] = Silence"
    by (simp_all add: up_sess_def phase_of_def event_of_def sess_start_defs)
  from read_refines_protocol [OF sess_start_wf(3) this(1) run] this run show ?thesis by auto
qed


end
