(* ===== verification/Provider_Core.thy ===== *)
theory Provider_Core
  imports Get_Serialization
begin

text \<open>
  \<open>src/src/core/ProviderCore.cpp\<close>: the provider and the credential object.  Objects live in a
  store from addresses to their fields; a method takes the address of \<open>this\<close>.  A pointer
  parameter that may be null is a flag beside the call, an out-parameter is a result.
\<close>

section \<open>Objects\<close>

datatype IID =
    IID_IUnknown | IID_IClassFactory | IID_ICredentialProvider | IID_ICredentialProviderCredential
  | IID_other "128 word"

record testCPProvider =
  p_ref :: LONG
  p_cpus :: CPUS

record testCPCredential =
  c_ref :: LONG
  c_cpus :: CPUS

record 'w dll = "'w sess" +
  g_lastSetSelectedDecision :: LONG
  g_hInst :: HANDLE
  g_LockCount :: LONG
  providers :: "HANDLE \<Rightarrow> testCPProvider option"
  credentials :: "HANDLE \<Rightarrow> testCPCredential option"
  factories :: "HANDLE \<Rightarrow> LONG option"

section \<open>Reference counts\<close>

text \<open>\<open>InterlockedIncrement\<close> and \<open>InterlockedDecrement\<close> of a field; at zero the object is deleted.\<close>

definition provider_AddRef :: "HANDLE \<Rightarrow> (('w, 'x) dll_scheme, LONG) state" where
  "provider_AddRef this = do {
     st \<leftarrow> gets providers;
     (case st this of
        None \<Rightarrow> State_Monad.return 0
      | Some p \<Rightarrow> do {
          modify (\<lambda>s. s\<lparr>providers := (providers s)(this \<mapsto> p\<lparr>p_ref := p_ref p + 1\<rparr>)\<rparr>);
          State_Monad.return (p_ref p + 1)
        })
   }"

definition provider_Release :: "HANDLE \<Rightarrow> (('w, 'x) dll_scheme, LONG) state" where
  "provider_Release this = do {
     st \<leftarrow> gets providers;
     (case st this of
        None \<Rightarrow> State_Monad.return 0
      | Some p \<Rightarrow> do {
          let c = p_ref p - 1;
          modify (\<lambda>s. s\<lparr>providers := (providers s)(this := if c = 0 then None else Some (p\<lparr>p_ref := c\<rparr>))\<rparr>);
          State_Monad.return c
        })
   }"

definition provider_QueryInterface ::
    "HANDLE \<Rightarrow> IID \<Rightarrow> bool \<Rightarrow> (('w, 'x) dll_scheme, HRESULT \<times> HANDLE option) state" where
  "provider_QueryInterface this riid hasPpv =
     (if \<not> hasPpv then State_Monad.return (E_POINTER, None)
      else if riid = IID_IUnknown \<or> riid = IID_ICredentialProvider then do {
        _ \<leftarrow> provider_AddRef this;
        State_Monad.return (S_OK, Some this)
      } else State_Monad.return (E_NOINTERFACE, None))"

definition credential_AddRef :: "HANDLE \<Rightarrow> (('w, 'x) dll_scheme, LONG) state" where
  "credential_AddRef this = do {
     st \<leftarrow> gets credentials;
     (case st this of
        None \<Rightarrow> State_Monad.return 0
      | Some p \<Rightarrow> do {
          modify (\<lambda>s. s\<lparr>credentials := (credentials s)(this \<mapsto> p\<lparr>c_ref := c_ref p + 1\<rparr>)\<rparr>);
          State_Monad.return (c_ref p + 1)
        })
   }"

definition credential_Release :: "HANDLE \<Rightarrow> (('w, 'x) dll_scheme, LONG) state" where
  "credential_Release this = do {
     st \<leftarrow> gets credentials;
     (case st this of
        None \<Rightarrow> State_Monad.return 0
      | Some p \<Rightarrow> do {
          let c = c_ref p - 1;
          modify (\<lambda>s. s\<lparr>credentials := (credentials s)(this := if c = 0 then None else Some (p\<lparr>c_ref := c\<rparr>))\<rparr>);
          State_Monad.return c
        })
   }"

definition credential_QueryInterface ::
    "HANDLE \<Rightarrow> IID \<Rightarrow> bool \<Rightarrow> (('w, 'x) dll_scheme, HRESULT \<times> HANDLE option) state" where
  "credential_QueryInterface this riid hasPpv =
     (if \<not> hasPpv then State_Monad.return (E_POINTER, None)
      else if riid = IID_IUnknown \<or> riid = IID_ICredentialProviderCredential then do {
        _ \<leftarrow> credential_AddRef this;
        State_Monad.return (S_OK, Some this)
      } else State_Monad.return (E_NOINTERFACE, None))"

section \<open>The provider\<close>

definition new_provider :: "'w os_api \<Rightarrow> (('w, 'x) dll_scheme, HANDLE) state" where
  "new_provider A = do {
     p \<leftarrow> ask (os_new_object A);
     when_do (p \<noteq> NULL_HANDLE)
       (modify (\<lambda>s. s\<lparr>providers := (providers s)(p \<mapsto> \<lparr>p_ref = 1, p_cpus = CPUS_INVALID\<rparr>)\<rparr>));
     State_Monad.return p
   }"

definition set_cpus :: "HANDLE \<Rightarrow> CPUS \<Rightarrow> (('w, 'x) dll_scheme, unit) state" where
  "set_cpus this c = modify (\<lambda>s. s\<lparr>providers := (providers s)(this := map_option (\<lambda>p. p\<lparr>p_cpus := c\<rparr>) (providers s this))\<rparr>)"

definition SetUsageScenario :: "'w os_api \<Rightarrow> HANDLE \<Rightarrow> CPUS \<Rightarrow> (('w, 'x) dll_scheme, HRESULT) state" where
  "SetUsageScenario A this cpus =
     (if cpus = CPUS_LOGON then do {
        set_cpus this cpus;
        active \<leftarrow> IsBrokerSessionActive;
        (if \<not> active then do {
           CloseBrokerSessionNow A 0 (Some ''SetUsageScenario: LOGON init -> close stale broker session'');
           ResetForceNextAutoSubmit;
           SetBrokerSessionActive False;
           SetBrokerAwaitingFinal False
         } else CpLog A ''SetUsageScenario: LOGON re-enter with active broker -> keep current session'' []);
        CpLog A ''SetUsageScenario: LOGON supported'' [];
        State_Monad.return S_OK
      } else do {
        set_cpus this CPUS_INVALID;
        ResetForceNextAutoSubmit;
        CloseBrokerSessionNow A 0 (Some ''SetUsageScenario: non-LOGON -> close broker session'');
        SetBrokerSessionActive False;
        SetBrokerAwaitingFinal False;
        when_do (cpus = CPUS_UNLOCK_WORKSTATION) (CpLog A ''SetUsageScenario: UNLOCK not supported'' []);
        State_Monad.return E_NOTIMPL
      })"

definition SetSerialization :: HRESULT where "SetSerialization = E_NOTIMPL"

definition provider_Advise :: "'w os_api \<Rightarrow> HANDLE \<Rightarrow> 64 word \<Rightarrow> (('w, 'x) dll_scheme, HRESULT) state" where
  "provider_Advise A pcpe upAdviseContext = do {
     SetProviderEvents A pcpe upAdviseContext;
     State_Monad.return S_OK
   }"

definition provider_UnAdvise :: "'w os_api \<Rightarrow> (('w, 'x) dll_scheme, HRESULT) state" where
  "provider_UnAdvise A = do { ClearProviderEvents A; State_Monad.return S_OK }"

abbreviation "FI_TITLE \<equiv> 0 :: DWORD"
abbreviation "FI_SUBMIT \<equiv> 1 :: DWORD"
abbreviation "FI_NUM_FIELDS \<equiv> 2 :: DWORD"

definition kCpTitleText :: wstring where
  "kCpTitleText = wide (''Network sign-in'' @ [CHR 0x0A] @ ''(Press ESC to use local account)'')"

definition kCpSubmitLabel :: wstring where "kCpSubmitLabel = wide ''Retry / Sign in''"

datatype FIELD_TYPE = CPFT_LARGE_TEXT | CPFT_SUBMIT_BUTTON

record FIELD_DESCRIPTOR =
  fd_dwFieldID :: DWORD
  fd_cpft :: FIELD_TYPE
  fd_pszLabel :: "wstring option"

definition g_fields_template :: "FIELD_DESCRIPTOR list" where
  "g_fields_template =
     [\<lparr>fd_dwFieldID = FI_TITLE, fd_cpft = CPFT_LARGE_TEXT, fd_pszLabel = None\<rparr>,
      \<lparr>fd_dwFieldID = FI_SUBMIT, fd_cpft = CPFT_SUBMIT_BUTTON, fd_pszLabel = None\<rparr>]"

text \<open>The error, or the label (a null source gives a null label).\<close>

definition AllocLabelCopy ::
    "'w os_api \<Rightarrow> wstring option \<Rightarrow> (('w, 'x) sys_scheme, HRESULT \<times> wstring option) state" where
  "AllocLabelCopy A src =
     (case src of
        None \<Rightarrow> State_Monad.return (S_OK, None)
      | Some t \<Rightarrow> do {
          buf \<leftarrow> CoTaskMemAlloc A ((length t + 1) * 2);
          State_Monad.return (if buf = NULL_HANDLE then (E_OUTOFMEMORY, None) else (S_OK, Some t))
        })"

definition GetFieldDescriptorCount :: "bool \<Rightarrow> HRESULT \<times> DWORD option" where
  "GetFieldDescriptorCount hasCount = (if \<not> hasCount then (E_POINTER, None) else (S_OK, Some FI_NUM_FIELDS))"

definition GetFieldDescriptorAt ::
    "'w os_api \<Rightarrow> nat \<Rightarrow> DWORD \<Rightarrow> bool \<Rightarrow> (('w, 'x) sys_scheme, HRESULT \<times> FIELD_DESCRIPTOR option) state"
where
  "GetFieldDescriptorAt A sizeofDescriptor dwIndex hasOut =
     (if \<not> hasOut then State_Monad.return (E_POINTER, None)
      else if dwIndex \<ge> FI_NUM_FIELDS then State_Monad.return (E_INVALIDARG, None)
      else do {
        pfd \<leftarrow> CoTaskMemAlloc A sizeofDescriptor;
        if pfd = NULL_HANDLE then State_Monad.return (E_OUTOFMEMORY, None)
        else do {
          let d = g_fields_template ! unat dwIndex;
          let label = (if dwIndex = FI_TITLE then Some kCpTitleText
                       else if dwIndex = FI_SUBMIT then Some kCpSubmitLabel else None);
          (hr, l) \<leftarrow> AllocLabelCopy A label;
          if sint hr < 0 then do {
            emit A (MemFree pfd);
            State_Monad.return (hr, None)
          } else State_Monad.return (S_OK, Some (d\<lparr>fd_pszLabel := l\<rparr>))
        }
      })"

abbreviation "CREDENTIAL_PROVIDER_NO_DEFAULT \<equiv> 0xFFFFFFFF :: DWORD"

text \<open>The count, the default credential and whether to log on with it at once.\<close>

definition GetCredentialCount :: "CPUS \<Rightarrow> bool \<Rightarrow> HRESULT \<times> (DWORD \<times> DWORD \<times> bool) option" where
  "GetCredentialCount cpus hasOuts =
     (if \<not> hasOuts then (E_POINTER, None)
      else if cpus \<noteq> CPUS_LOGON then (S_OK, Some (0, CREDENTIAL_PROVIDER_NO_DEFAULT, False))
      else (S_OK, Some (1, 0, False)))"

definition GetCredentialAt ::
    "'w os_api \<Rightarrow> HANDLE \<Rightarrow> DWORD \<Rightarrow> bool \<Rightarrow> (('w, 'x) dll_scheme, HRESULT \<times> HANDLE option) state" where
  "GetCredentialAt A this dwIndex hasOut =
     (if \<not> hasOut then State_Monad.return (E_POINTER, None)
      else if dwIndex \<noteq> 0 then State_Monad.return (E_INVALIDARG, None)
      else do {
        st \<leftarrow> gets providers;
        let cpus = (case st this of Some p \<Rightarrow> p_cpus p | None \<Rightarrow> CPUS_INVALID);
        cred \<leftarrow> ask (os_new_object A);
        if cred = NULL_HANDLE then State_Monad.return (E_OUTOFMEMORY, None)
        else do {
          modify (\<lambda>s. s\<lparr>credentials := (credentials s)(cred \<mapsto> \<lparr>c_ref = 1, c_cpus = cpus\<rparr>)\<rparr>);
          State_Monad.return (S_OK, Some cred)
        }
      })"

section \<open>The credential\<close>

text \<open>The decision of \<open>SetSelected\<close>: submit automatically, and whether that was forced.\<close>

definition kMinSubmitIntervalMs :: DWORD where "kMinSubmitIntervalMs = 2500"

definition decide_submit ::
    "'w os_api \<Rightarrow> bool \<Rightarrow> bool \<Rightarrow> bool \<Rightarrow> (('w, 'x) prov_scheme, bool \<times> bool) state" where
  "decide_submit A isLogonScenario brokerActive awaitingFinal =
     (if isLogonScenario then
        (if brokerActive then
           (if awaitingFinal then State_Monad.return (True, False)
            else do {
              w \<leftarrow> TryAcquireAutoSubmitWindow A kMinSubmitIntervalMs;
              State_Monad.return (w, False)
            })
         else do {
           forceConsumed \<leftarrow> ConsumeForceNextAutoSubmit;
           if forceConsumed then do {
             MarkAutoSubmitTickNow A;
             State_Monad.return (True, True)
           } else do {
             w \<leftarrow> TryAcquireAutoSubmitWindow A kMinSubmitIntervalMs;
             State_Monad.return (w, False)
           }
         })
      else State_Monad.return (False, False))"

definition log_code :: "bool \<Rightarrow> bool \<Rightarrow> bool \<Rightarrow> bool \<Rightarrow> bool \<Rightarrow> LONG" where
  "log_code isLogonScenario brokerActive awaitingFinal forceConsumed shouldAutoSubmit =
     (if isLogonScenario then 0x01 else 0) OR (if brokerActive then 0x02 else 0)
     OR (if awaitingFinal then 0x04 else 0) OR (if forceConsumed then 0x08 else 0)
     OR (if shouldAutoSubmit then 0x10 else 0)"

text \<open>The result is \<open>*pbAutoLogon\<close>, written when the pointer is not null.\<close>

definition SetSelected ::
    "'w os_api \<Rightarrow> CPUS \<Rightarrow> bool \<Rightarrow> (('w, 'x) dll_scheme, HRESULT \<times> bool option) state" where
  "SetSelected A cpus hasAutoLogon = do {
     let isLogonScenario = (cpus = CPUS_LOGON);
     brokerActive \<leftarrow> IsBrokerSessionActive;
     awaitingFinal \<leftarrow> IsBrokerAwaitingFinal;
     (shouldAutoSubmit, forceConsumed) \<leftarrow> decide_submit A isLogonScenario brokerActive awaitingFinal;
     let logCode = log_code isLogonScenario brokerActive awaitingFinal forceConsumed shouldAutoSubmit;
     prior \<leftarrow> gets g_lastSetSelectedDecision;
     modify (\<lambda>s. s\<lparr>g_lastSetSelectedDecision := logCode\<rparr>);
     when_do (prior \<noteq> logCode)
       (CpLog A ''SetSelected: logon=%d active=%d awaiting=%d force=%d autoSubmit=%d''
         [of_bool isLogonScenario, of_bool brokerActive, of_bool awaitingFinal, of_bool forceConsumed,
          of_bool shouldAutoSubmit]);
     State_Monad.return (S_OK, if hasAutoLogon then Some shouldAutoSubmit else None)
   }"

definition SetDeselected :: "'w os_api \<Rightarrow> CPUS \<Rightarrow> (('w, 'x) dll_scheme, HRESULT) state" where
  "SetDeselected A cpus = do {
     active \<leftarrow> IsBrokerSessionActive;
     when_do (cpus = CPUS_LOGON \<and> active) (do {
       CloseBrokerSessionNow A 0 (Some ''SetDeselected: closing broker session (tile deselected/unloaded)'');
       ArmForceNextAutoSubmit
     });
     State_Monad.return S_OK
   }"

definition credential_Advise :: HRESULT where "credential_Advise = S_OK"
definition credential_UnAdvise :: HRESULT where "credential_UnAdvise = S_OK"

text \<open>The number of a usage scenario, as the log prints it.\<close>

definition cpus_code :: "CPUS \<Rightarrow> int" where
  "cpus_code c =
     (case c of CPUS_INVALID \<Rightarrow> 0 | CPUS_LOGON \<Rightarrow> 1 | CPUS_UNLOCK_WORKSTATION \<Rightarrow> 2
      | CPUS_CHANGE_PASSWORD \<Rightarrow> 3 | CPUS_CREDUI \<Rightarrow> 4 | CPUS_PLAP \<Rightarrow> 5)"

text \<open>The optional status text and the icon, each if its pointer is not null.\<close>

definition ReportResult ::
    "'w os_api \<Rightarrow> CPUS \<Rightarrow> 32 word \<Rightarrow> 32 word \<Rightarrow> bool \<Rightarrow> bool
     \<Rightarrow> (('w, 'x) sys_scheme, HRESULT \<times> wstring option \<times> STATUS_ICON option) state" where
  "ReportResult A cpus ntsStatus ntsSubstatus hasText hasIcon = do {
     let icon = (if hasIcon then Some CPSI_ERROR else None);
     text \<leftarrow> (if hasText then do {
         t \<leftarrow> NtStatusToText A ntsStatus ntsSubstatus;
         (case t of
            Some x \<Rightarrow> State_Monad.return (Some x)
          | None \<Rightarrow> DupSysAlloc A (Some logon_failed_text))
       } else State_Monad.return None);
     CpLog A ''ReportResult: NT=0x%08X, Sub=0x%08X (cpus=%d)''
       [uint ntsStatus, uint ntsSubstatus, cpus_code cpus];
     State_Monad.return (S_OK, text, icon)
   }"

section \<open>Every method keeps the invariant\<close>

text \<open>
  A method at the level of the session: it ends in a well-formed state whenever it starts in
  one, with the memory it allocated in its result.
\<close>

locale session_method =
  fixes opn :: "(('w, 'x) sess_scheme, 'a) state" and owns :: "'a \<Rightarrow> int"
  assumes method_wf: "broker_wf s \<Longrightarrow> wp opn (\<lambda>_ s'. broker_wf s') s"
    and method_mem: "broker_wf s \<Longrightarrow> wp opn (\<lambda>r s'. mem_net (trace s') = mem_net (trace s) + owns r) s"
begin

lemma method_safe:
  assumes "broker_wf s" and "run_state opn s = (r, s')"
  shows "broker_wf s' \<and> mem_net (trace s') = mem_net (trace s) + owns r"
  using wp_run [OF assms(2) method_wf [OF assms(1)]] wp_run [OF assms(2) method_mem [OF assms(1)]] by simp

lemma method_locks:
  "broker_wf s \<Longrightarrow> run_state opn s = (r, s') \<Longrightarrow> holds SessionLock (trace s') = Some False"
  using method_safe [of s r s'] by (simp add: broker_wf_def)

lemma method_handles:
  "broker_wf s \<Longrightarrow> run_state opn s = (r, s') \<Longrightarrow> net h (trace s') = session_handles (g_session s') h"
  using method_safe [of s r s'] by (simp add: broker_wf_def)

end

lemma flags_idle: "broker_wf s \<Longrightarrow> g_brokerSessionActive s = 0 \<Longrightarrow> g_session s = no_session"
  by (auto simp: broker_wf_def flags_wf_def session_shape_def)

lemmas method_defs = broker_wf_def prov_wf_defs flags_wf_def session_shape_def session_handles_def

lemma CloseNow_rule:
  fixes s :: "('w, 'x) sess_scheme"
  assumes "broker_wf s" and "\<And>s'. session_ended s s' \<Longrightarrow> broker_wf s' \<Longrightarrow> Q () s'"
  shows "wp (CloseBrokerSessionNow A w l) Q s"
  by (rule wp_mono [OF CloseBrokerSessionNow_spec [OF assms(1)]])
     (use assms session_ended_wf [OF assms(1)] in auto)

lemma dll_wf [simp]:
  "broker_wf (s\<lparr>providers := x\<rparr>) = broker_wf s" "broker_wf (s\<lparr>g_lastSetSelectedDecision := l\<rparr>) = broker_wf s"
  "broker_wf (s\<lparr>credentials := y\<rparr>) = broker_wf s" "broker_wf (s\<lparr>g_LockCount := l\<rparr>) = broker_wf s"
  "broker_wf (s\<lparr>factories := z\<rparr>) = broker_wf s" "broker_wf (s\<lparr>g_hInst := h\<rparr>) = broker_wf s"
  by (simp_all add: method_defs)

lemma SetUsageScenario_wf:
  "broker_wf s \<Longrightarrow> wp (SetUsageScenario A this cpus) (\<lambda>r s'. broker_wf s'
     \<and> mem_net (trace s') = mem_net (trace s)
     \<and> (cpus \<noteq> CPUS_LOGON \<longrightarrow> r = E_NOTIMPL \<and> g_session s' = no_session \<and> g_forceNextAutoSubmit s' = 0)
     \<and> (cpus = CPUS_LOGON \<longrightarrow> r = S_OK \<and> (g_brokerSessionActive s \<noteq> 0 \<longrightarrow> g_session s' = g_session s))) s"
  unfolding SetUsageScenario_def set_cpus_def flag_defs
  by (intro wp_intro CloseNow_rule) (auto simp: method_defs ended_defs)

lemma wf_mem:
  assumes "\<And>s. broker_wf s \<Longrightarrow> wp m (\<lambda>r s'. broker_wf s' \<and> mem_net (trace s') = mem_net (trace s) + owns r) s"
  shows "session_method m owns"
  by unfold_locales (rule wp_mono [OF assms], assumption, simp)+

interpretation set_usage: session_method "SetUsageScenario A this cpus" "\<lambda>_. 0" for A this cpus
  by (rule wf_mem, rule wp_mono [OF SetUsageScenario_wf]) auto

interpretation close_now: session_method "CloseBrokerSessionNow A waitMs reasonLog" "\<lambda>_. 0" for A waitMs reasonLog
  by (rule wf_mem, rule CloseNow_rule) (auto simp: ended_defs)

lemma SetSelected_wf:
  "broker_wf s \<Longrightarrow> wp (SetSelected A cpus hasAuto) (\<lambda>r s'. broker_wf s' \<and> mem_net (trace s') = mem_net (trace s)
     \<and> g_session s' = g_session s) s"
  unfolding SetSelected_def decide_submit_def flag_defs Let_def
  by (intro wp_intro) (auto simp: method_defs)

interpretation set_selected: session_method "SetSelected A cpus hasAuto" "\<lambda>_. 0" for A cpus hasAuto
  by (rule wf_mem, rule wp_mono [OF SetSelected_wf]) auto

lemma SetDeselected_wf:
  "broker_wf s \<Longrightarrow> wp (SetDeselected A cpus) (\<lambda>r s'. broker_wf s' \<and> mem_net (trace s') = mem_net (trace s)
     \<and> (if cpus = CPUS_LOGON \<and> g_brokerSessionActive s \<noteq> 0
        then g_session s' = no_session \<and> g_forceNextAutoSubmit s' = 1 else s' = s)) s"
  unfolding SetDeselected_def flag_defs
  by (intro wp_intro CloseNow_rule) (auto simp: method_defs ended_defs)

interpretation set_deselected: session_method "SetDeselected A cpus" "\<lambda>_. 0" for A cpus
  by (rule wf_mem, rule wp_mono [OF SetDeselected_wf]) auto

text \<open>The operations of \<open>Provider.cpp\<close> do not see the session, so they keep its invariant too.\<close>

definition same_flags :: "('w, 'x) prov_scheme \<Rightarrow> ('w, 'x) prov_scheme \<Rightarrow> bool" where
  "same_flags s s' \<longleftrightarrow> g_brokerSessionActive s' = g_brokerSessionActive s
     \<and> g_brokerAwaitingFinal s' = g_brokerAwaitingFinal s"

lemma broker_wf_prov:
  fixes s s' :: "('w, 'x) sess_scheme"
  assumes "broker_wf s" and "prov_wf s'" and "prov_frame s s'" and "same_flags s s'"
  shows "broker_wf s'"
  using assms prov_frame_sess [OF assms(3)]
  by (simp add: broker_wf_def flags_wf_def same_flags_def)

lemma prov_method:
  fixes m :: "(('w, 'x) sess_scheme, 'a) state"
  assumes "\<And>s. prov_wf s \<Longrightarrow> wp m (\<lambda>_ s'. prov_wf s' \<and> prov_frame s s') s"
    and "\<And>s. wp m (\<lambda>_ s'. same_flags s s') s"
  shows "session_method m (\<lambda>_. 0)"
proof (rule wf_mem)
  fix s :: "('w, 'x) sess_scheme"
  assume "broker_wf s"
  then have "prov_wf s" by (simp add: broker_wf_def)
  from wp_conj [OF assms(1) [OF this] assms(2)]
  show "wp m (\<lambda>r s'. broker_wf s' \<and> mem_net (trace s') = mem_net (trace s) + 0) s"
    by (rule wp_mono) (use \<open>broker_wf s\<close> broker_wf_prov prov_frame_sess(5) in auto)
qed

interpretation request_method: session_method "RequestCredentialsChangedAsync A d g" "\<lambda>_. 0" for A d g
proof (rule prov_method, rule request.op_safe, assumption)
  show "wp (RequestCredentialsChangedAsync A d g) (\<lambda>_ s'. same_flags s s') s" for s
    unfolding RequestCredentialsChangedAsync_def clear_pending_def flag_defs
    by (intro wp_intro) (auto simp: same_flags_def)
qed

interpretation notify_method: session_method "callback_notify A ctx" "\<lambda>_. 0" for A ctx
proof (rule prov_method, rule notify.op_safe, assumption)
  show "wp (callback_notify A ctx) (\<lambda>_ s'. same_flags s s') s" for s
    unfolding callback_notify_def flag_defs by (intro wp_intro) (auto simp: same_flags_def)
qed

interpretation advise_method: session_method "provider_Advise A e c" "\<lambda>_. 0" for A e c
proof (rule prov_method, unfold provider_Advise_def, goal_cases)
  case (1 s)
  then show ?case by (intro wp_intro wp_mono [OF set_events.op_safe])
next
  case (2 s)
  show ?case unfolding SetProviderEvents_def by (intro wp_intro) (auto simp: same_flags_def)
qed

interpretation unadvise_method: session_method "provider_UnAdvise A" "\<lambda>_. 0" for A
proof (rule prov_method, unfold provider_UnAdvise_def, goal_cases)
  case (1 s)
  then show ?case by (intro wp_intro wp_mono [OF clear_events.op_safe])
next
  case (2 s)
  show ?case unfolding ClearProviderEvents_def by (intro wp_intro) (auto simp: same_flags_def)
qed

end
