(* ===== verification/Core_Facts.thy ===== *)
theory Core_Facts
  imports Provider_Core Serialization_Facts
begin

text \<open>
  What the methods of the provider and of the credential promise LogonUI, over the model of
  \<^theory_text>\<open>Provider_Core\<close>, and how they work together with \<open>GetSerialization\<close>.
\<close>

section \<open>Selecting the tile\<close>

text \<open>
  When a selection submits: the reference the code's nested tests are compared with.
\<close>

definition window_open :: "'w os_api \<Rightarrow> ('w, 'x) prov_scheme \<Rightarrow> bool" where
  "window_open A s \<longleftrightarrow> g_brokerSessionAutoSubmitTick s = 0
     \<or> kMinSubmitIntervalMs \<le> fst (os_GetTickCount A (world s)) - g_brokerSessionAutoSubmitTick s"

definition submits :: "'w os_api \<Rightarrow> CPUS \<Rightarrow> ('w, 'x) prov_scheme \<Rightarrow> bool" where
  "submits A cpus s \<longleftrightarrow> cpus = CPUS_LOGON
     \<and> (window_open A s
        \<or> (if g_brokerSessionActive s \<noteq> 0 then g_brokerAwaitingFinal s \<noteq> 0 else g_forceNextAutoSubmit s = 1))"

definition forced :: "CPUS \<Rightarrow> ('w, 'x) prov_scheme \<Rightarrow> bool" where
  "forced cpus s \<longleftrightarrow> cpus = CPUS_LOGON \<and> g_brokerSessionActive s = 0 \<and> g_forceNextAutoSubmit s = 1"

lemma wp_window:
  assumes "\<And>w t. Q (window_open A s) (s\<lparr>world := w, g_brokerSessionAutoSubmitTick := t\<rparr>)"
  shows "wp (TryAcquireAutoSubmitWindow A kMinSubmitIntervalMs) Q s"
proof -
  have "s\<lparr>world := w\<rparr> = s\<lparr>world := w, g_brokerSessionAutoSubmitTick := g_brokerSessionAutoSubmitTick s\<rparr>" for w
    by (cases s) simp
  then have "Q (window_open A s) (s\<lparr>world := w\<rparr>)" for w
    using assms by metis
  with assms show ?thesis
    by (cases "window_open A s") (simp_all add: TryAcquireAutoSubmitWindow_def wp_simps Let_def flip: window_open_def)
qed

lemma SetSelected_run:
  "wp (SetSelected A cpus hasAuto) (\<lambda>(hr, auto) s'. hr = S_OK
     \<and> auto = (if hasAuto then Some (submits A cpus s) else None)
     \<and> g_forceNextAutoSubmit s' = (if forced cpus s then 0 else g_forceNextAutoSubmit s)
     \<and> g_brokerSessionActive s' = g_brokerSessionActive s \<and> g_brokerAwaitingFinal s' = g_brokerAwaitingFinal s
     \<and> g_session s' = g_session s) s"
  unfolding SetSelected_def decide_submit_def flag_defs(1-9) MarkAutoSubmitTickNow_def Let_def
  by (intro wp_intro wp_window) (auto simp: submits_def forced_def)

lemma broker_wf_force [simp]: "broker_wf (s\<lparr>g_forceNextAutoSubmit := x\<rparr>) = broker_wf s"
  by (simp add: method_defs)

text \<open>What lies above the session is untouched by it.\<close>

lemma sess_more_dll:
  fixes s s' :: "('w, 'x) dll_scheme"
  assumes "sess.more s' = sess.more s"
  shows "providers s' = providers s \<and> credentials s' = credentials s \<and> factories s' = factories s
    \<and> g_LockCount s' = g_LockCount s"
  using assms by (cases s; cases s') auto

section \<open>Properties\<close>

text \<open>
  C11: a selection of the tile submits at once exactly for the logon scenario when the rate limit
  allows it, or, while a session is up, when the broker's final answer is awaited, or, while none
  is, when a submit was forced; the forced submit is used up only then, and the session stays as
  it is.
\<close>

theorem selection_decides:
  "case run_state (SetSelected A cpus True) s of ((hr, auto), s') \<Rightarrow> hr = S_OK
     \<and> auto = Some (submits A cpus s)
     \<and> g_forceNextAutoSubmit s' = (if forced cpus s then 0 else g_forceNextAutoSubmit s)
     \<and> g_session s' = g_session s"
  using SetSelected_run [of A cpus True s] by (simp add: wp_def split: prod.splits)

lemma SetSelected_submits:
  assumes "submits A cpus s"
  shows "fst (run_state (SetSelected A cpus True) s) = (S_OK, Some True)"
  using SetSelected_run [of A cpus True s] assms by (simp add: wp_def split: prod.splits)

text \<open>
  C20: after a terminal message, the success that logs the user on included, the tile submits
  again as soon as LogonUI selects it, whatever the clock says and no matter when the last submit
  was: ending the session resets the rate limit, so nothing keeps a new broker from being started.
\<close>

theorem terminal_message_resubmits:
  assumes "broker_core s" and "connected (g_session s)"
    and "fst (ParseJsonLine line empty_msg) = (True, m)"
    and "mtype m \<noteq> ''AUTH_PENDING''" and "mtype m \<noteq> ''AUTH_IDLE''"
    and "run_state (handle_message A hasText cpus line) s = (r, s')"
  shows "fst (run_state (SetSelected B CPUS_LOGON True) s') = (S_OK, Some True)"
proof (rule SetSelected_submits)
  have "g_brokerSessionAutoSubmitTick s' = 0"
    using wp_run [OF assms(6) handle_message_spec [OF assms(1-3)]] assms(4,5)
    by (simp add: acts_on_def drops_session_def)
  then show "submits B CPUS_LOGON s'" by (simp add: submits_def window_open_def)
qed

text \<open>
  C18: for any scenario but logon the provider refuses, closes the session with all its handles,
  offers no tile, and makes every refresh that is still armed stale.
\<close>

theorem other_scenario_closes:
  assumes "broker_wf s" and "cpus \<noteq> CPUS_LOGON"
    and "run_state (SetUsageScenario A this cpus) s = (hr, s')"
  shows "hr = E_NOTIMPL \<and> broker_wf s' \<and> g_session s' = no_session \<and> (\<forall>h. net h (trace s') = 0)
    \<and> g_brokerSessionGeneration s' = g_brokerSessionGeneration s + 2
    \<and> (case providers s' this of Some p \<Rightarrow>
          GetCredentialCount (p_cpus p) True = (S_OK, Some (0, CREDENTIAL_PROVIDER_NO_DEFAULT, False)) | None \<Rightarrow> providers s this = None)"
proof -
  have "wp (SetUsageScenario A this cpus) (\<lambda>_ s'. g_brokerSessionGeneration s' = g_brokerSessionGeneration s + 2
      \<and> providers s' this = map_option (\<lambda>p. p\<lparr>p_cpus := CPUS_INVALID\<rparr>) (providers s this)) s"
    using assms(1,2) unfolding SetUsageScenario_def set_cpus_def flag_defs
    by (intro wp_intro CloseNow_rule) (auto simp: ended_defs dest: sess_more_dll)
  note P = wp_run [OF assms(3) this]
  note W = wp_run [OF assms(3) SetUsageScenario_wf [OF assms(1)]]
  have s': "broker_wf s'" "g_session s' = no_session" "hr = E_NOTIMPL" using W assms(2) by blast+
  then have "net h (trace s') = 0" for h by (simp add: broker_wf_def session_handles_def)
  with s' P show ?thesis by (cases "providers s this") (simp_all add: GetCredentialCount_def)
qed

text \<open>
  C19: deselecting the tile while a session is up closes the session and makes the next selection
  submit by itself, and only the next: the one after is subject to the rate limit again.
\<close>

theorem deselect_then_select:
  assumes "broker_wf s" and "g_brokerSessionActive s \<noteq> 0"
    and "run_state (SetDeselected A CPUS_LOGON) s = (hr, t)"
    and "run_state (SetSelected A CPUS_LOGON True) t = (r, u)"
  shows "g_session t = no_session \<and> (\<forall>h. net h (trace t) = 0) \<and> r = (S_OK, Some True)
    \<and> g_forceNextAutoSubmit u = 0 \<and> submits A CPUS_LOGON u = window_open A u"
proof -
  have t: "broker_wf t" "g_session t = no_session" "g_forceNextAutoSubmit t = 1"
    using wp_run [OF assms(3) SetDeselected_wf [OF assms(1)]] assms(2) by auto
  then have "g_brokerSessionActive t = 0" by (simp add: broker_wf_def flags_wf_def)
  with t show ?thesis
    using wp_run [OF assms(4) SetSelected_run]
    by (auto simp: submits_def forced_def broker_wf_def session_handles_def)
qed

text \<open>
  A field descriptor costs the caller two blocks, itself and its label, and is returned
  whole or not at all: a failure leaves no block behind.
\<close>

theorem descriptor_memory:
  "case run_state (GetFieldDescriptorAt A n i True) s of ((hr, d), s') \<Rightarrow>
     mem_net (trace s') = mem_net (trace s) + (if d = None then 0 else 2)
     \<and> (d \<noteq> None \<longleftrightarrow> hr = S_OK)
     \<and> (case d of None \<Rightarrow> hr \<in> {E_INVALIDARG, E_OUTOFMEMORY}
        | Some f \<Rightarrow> i < FI_NUM_FIELDS \<and> fd_dwFieldID f = i \<and> fd_pszLabel f \<noteq> None)"
proof -
  have i: "i = FI_TITLE \<or> i = FI_SUBMIT \<or> i \<ge> FI_NUM_FIELDS"
    by unat_arith
  have "wp (GetFieldDescriptorAt A n i True) (\<lambda>(hr, d) s'.
      mem_net (trace s') = mem_net (trace s) + (if d = None then 0 else 2)
      \<and> (d \<noteq> None \<longleftrightarrow> hr = S_OK)
      \<and> (case d of None \<Rightarrow> hr \<in> {E_INVALIDARG, E_OUTOFMEMORY}
         | Some f \<Rightarrow> i < FI_NUM_FIELDS \<and> fd_dwFieldID f = i \<and> fd_pszLabel f \<noteq> None)) s"
    unfolding GetFieldDescriptorAt_def AllocLabelCopy_def CoTaskMemAlloc_def Let_def
    using i by (intro wp_intro) (auto simp: g_fields_template_def)
  then show ?thesis by (simp add: wp_def split_def)
qed

text \<open>
  C17: closing the session from any well-formed state leaves no session and no handle, resets the
  flags and the rate limit, makes armed refreshes stale, and releases the lock.
\<close>

theorem close_session_frees:
  assumes "broker_wf s" and "run_state (CloseBrokerSessionNow A waitMs reasonLog) s = ((), s')"
  shows "g_session s' = no_session \<and> (\<forall>h. net h (trace s') = 0) \<and> broker_wf s'
    \<and> g_brokerSessionActive s' = 0 \<and> g_brokerAwaitingFinal s' = 0 \<and> g_brokerSessionAutoSubmitTick s' = 0
    \<and> g_brokerSessionGeneration s' = g_brokerSessionGeneration s + 1
    \<and> holds SessionLock (trace s') = Some False"
proof -
  have e: "session_ended s s'" by (rule wp_run [OF assms(2) CloseBrokerSessionNow_spec [OF assms(1)]])
  moreover from session_ended_wf [OF assms(1) e] have "broker_wf s'" .
  ultimately show ?thesis by (simp add: ended_defs broker_wf_def session_handles_def)
qed

text \<open>
  C14: the polling loop goes on: when the broker has said nothing in time, no refresh is pending,
  and LogonUI has advised, then one timer of the current generation is armed, and when it fires
  LogonUI is told to enumerate again, so that it asks for the credential once more.
\<close>

theorem timeout_schedules_poll:
  assumes "broker_core s" and "g_refreshPending s = 0" and "g_cpEvents s \<noteq> NULL_HANDLE"
    and "\<And>w. fst (os_new A w)" and "\<And>w. fst (os_CreateThreadpoolTimer A w) \<noteq> NULL_HANDLE"
    and "run_state (handle_read A hasText cpus ReadTimeout line) s = (r, t)"
  shows "\<exists>ctx. timers t = [ctx] \<and> ctx_events ctx = g_cpEvents s
    \<and> (\<forall>B. hd (trace (snd (run_state (callback_notify B ctx) (fire ctx t))))
         = SinkChanged (g_cpEvents s) (g_cpEventsContext s))"
proof -
  have none: "timers s = []" using assms(1,2) by (simp add: broker_core_def prov_wf_defs)
  have "wp (handle_read A hasText cpus ReadTimeout line) (\<lambda>_ t. \<exists>tm. timers t =
      [\<lparr>ctx_events = g_cpEvents s, ctx_context = g_cpEventsContext s,
        ctx_sessionGeneration = g_brokerSessionGeneration s, ctx_timer = tm\<rparr>]
      \<and> g_brokerSessionGeneration t = g_brokerSessionGeneration s) s"
    using assms(2-5) none
    by (auto simp: handle_read_def RequestCredentialsChangedAsync_def flag_defs wp_simps
        ReturnNoCredentialNotFinishedNoCleanup_def SetOptionalStatusText_def DupSysAlloc_def log_opt_def)
  from wp_run [OF assms(6) this] show ?thesis
    by (auto simp: callback_notify_def flag_defs fire_def emit_def when_do_def)
qed

text \<open>
  C15: a timer left over from a session that has ended swallows the first refresh of the next one:
  the request is dropped because one is pending, and when that one fires it is stale and tells
  LogonUI nothing.  No timer is armed afterwards, so LogonUI does not ask again.
\<close>

theorem stale_timer_swallows_refresh:
  assumes "prov_wf s" and "ctx \<in> set (timers s)"
    and "ctx_sessionGeneration ctx \<noteq> g_brokerSessionGeneration s"
    and "run_state (RequestCredentialsChangedAsync A delayMs gen) s = ((), t)"
    and "run_state (callback_notify A ctx) (fire ctx t) = ((), u)"
    and "run_state (callback_finish A ctx) u = ((), v)"
  shows "t = s \<and> u = fire ctx s \<and> timers v = [] \<and> callbacks v = []"
proof -
  have "g_refreshPending s \<noteq> 0" using assms(1,2) by (auto simp: prov_wf_defs split: if_splits)
  then have t: "t = s"
    using assms(4) by (simp add: RequestCredentialsChangedAsync_def flag_defs split: if_splits)
  then have u: "u = fire ctx s"
    using assms(3,5) by (simp add: callback_notify_def flag_defs when_do_def fire_def)
  have "prov_wf (fire ctx s)" "ctx \<in> set (callbacks (fire ctx s))"
    using fire_wf [OF assms(1,2)] by auto
  from wp_run [OF assms(6) callback_finish_wf [OF this, folded u]] t u show ?thesis by simp
qed

section \<open>Witnesses\<close>

text \<open>The library with one provider and one credential, without and with a session.\<close>

definition dll_of :: "ULONGLONG sess \<Rightarrow> ULONGLONG dll" where
  "dll_of s = sess.extend s \<lparr>g_lastSetSelectedDecision = - 1, g_hInst = 0, g_LockCount = 0,
     providers = [0x2000 \<mapsto> \<lparr>p_ref = 1, p_cpus = CPUS_LOGON\<rparr>],
     credentials = [0x3000 \<mapsto> \<lparr>c_ref = 1, c_cpus = CPUS_LOGON\<rparr>], factories = Map.empty\<rparr>"

lemma dll_of_wf: "broker_wf s \<Longrightarrow> broker_wf (dll_of s)" "broker_core s \<Longrightarrow> broker_core (dll_of s)"
  by (simp_all add: broker_wf_def broker_core_def prov_wf_defs flags_wf_def dll_of_def sess.defs)

lemma up_dll: "connected (g_session (dll_of up_sess))" "g_brokerSessionActive (dll_of up_sess) = 1"
  by (simp_all add: dll_of_def up_sess_def sess.defs)

lemma terminal_message_resubmits_witness:
  "fst (run_state (SetSelected silent_api CPUS_LOGON True)
     (snd (run_state (handle_message silent_api True CPUS_LOGON success_line) (dll_of up_sess)))) = (S_OK, Some True)"
proof -
  obtain r s' where run: "run_state (handle_message silent_api True CPUS_LOGON success_line) (dll_of up_sess) = (r, s')"
    by fastforce
  from terminal_message_resubmits [OF dll_of_wf(2) [OF sess_start_wf(3)] up_dll(1) success_parse _ _ run] run
  show ?thesis by (simp add: success_msg_def)
qed

lemma other_scenario_closes_witness:
  "\<exists>hr s'. run_state (SetUsageScenario silent_api 0x2000 CPUS_UNLOCK_WORKSTATION) (dll_of up_sess) = (hr, s')
     \<and> hr = E_NOTIMPL \<and> (\<forall>h. net h (trace s') = 0)"
proof -
  obtain hr s' where run: "run_state (SetUsageScenario silent_api 0x2000 CPUS_UNLOCK_WORKSTATION) (dll_of up_sess) = (hr, s')"
    by fastforce
  from other_scenario_closes [OF dll_of_wf(1) [OF sess_start_wf(2)] _ run] run show ?thesis by simp
qed

lemma deselect_then_select_witness:
  "\<exists>hr t r u. run_state (SetDeselected silent_api CPUS_LOGON) (dll_of up_sess) = (hr, t)
     \<and> run_state (SetSelected silent_api CPUS_LOGON True) t = (r, u) \<and> r = (S_OK, Some True)"
proof -
  obtain hr t where t: "run_state (SetDeselected silent_api CPUS_LOGON) (dll_of up_sess) = (hr, t)" by fastforce
  obtain r u where u: "run_state (SetSelected silent_api CPUS_LOGON True) t = (r, u)" by fastforce
  from deselect_then_select [OF dll_of_wf(1) [OF sess_start_wf(2)] _ t u] t u show ?thesis
    by (simp add: up_dll)
qed

lemma close_session_frees_witness:
  "\<exists>s'. run_state (CloseBrokerSessionNow silent_api 0 None) up_sess = ((), s') \<and> (\<forall>h. net h (trace s') = 0)"
proof -
  obtain s' where run: "run_state (CloseBrokerSessionNow silent_api 0 None) up_sess = ((), s')"
    by (metis surj_pair unit_eq)
  from close_session_frees [OF sess_start_wf(2) run] run show ?thesis by blast
qed

text \<open>LogonUI has advised; a session is up.\<close>

definition advised_sess :: "ULONGLONG sess" where
  "advised_sess = up_sess\<lparr>g_cpEvents := 0x80, g_cpEventsContext := 3, trace := SinkAddRef 0x80 # trace up_sess\<rparr>"

lemma advised_wf: "broker_core advised_sess" "g_refreshPending advised_sess = 0" "g_cpEvents advised_sess = 0x80"
  using sess_start_wf(3) by (auto simp: broker_core_def prov_wf_defs flags_wf_def advised_sess_def up_sess_def sess_start_defs)

lemma timeout_schedules_poll_witness:
  "\<exists>r t ctx. run_state (handle_read silent_api True CPUS_LOGON ReadTimeout []) advised_sess = (r, t)
     \<and> timers t = [ctx] \<and> ctx_events ctx = 0x80"
proof -
  obtain r t where run: "run_state (handle_read silent_api True CPUS_LOGON ReadTimeout []) advised_sess = (r, t)"
    by fastforce
  from timeout_schedules_poll [OF advised_wf(1,2) _ _ _ run] run show ?thesis
    by (simp add: advised_wf(3) silent_api_def demo_defs) blast
qed

text \<open>The session whose refresh is armed has ended.\<close>

lemma stale_timer_swallows_refresh_witness:
  "\<exists>v. timers v = [] \<and> run_state (callback_finish silent_api demo_ctx)
     (fire demo_ctx (armed_prov\<lparr>g_brokerSessionGeneration := 2\<rparr>)) = ((), v)"
proof -
  let ?s = "armed_prov\<lparr>g_brokerSessionGeneration := 2\<rparr>"
  obtain t where t: "run_state (RequestCredentialsChangedAsync silent_api 300 2) ?s = ((), t)"
    by (metis surj_pair unit_eq)
  obtain u where u: "run_state (callback_notify silent_api demo_ctx) (fire demo_ctx t) = ((), u)"
    by (metis surj_pair unit_eq)
  obtain v where v: "run_state (callback_finish silent_api demo_ctx) u = ((), v)"
    by (metis surj_pair unit_eq)
  have "prov_wf ?s" using start_wf(2) by (simp add: prov_wf_defs)
  from stale_timer_swallows_refresh [OF this _ _ t u v] v show ?thesis
    by (auto simp: armed_prov_def demo_ctx_def)
qed

end
