(* ===== verification/Com_Server.thy ===== *)
theory Com_Server
  imports Core_Facts
begin

text \<open>
  \<open>src/src/com/ClassFactory.cpp\<close> and \<open>dllmain.cpp\<close>: the class factory, the exports of the
  library and its entries in the registry.  \<open>g_LockCount\<close> counts the factories that are alive
  and the locks of \<open>LockServer\<close>, and decides whether the library may be unloaded.
\<close>

section \<open>The class factory\<close>

definition add_lock :: "LONG \<Rightarrow> (('w, 'x) dll_scheme, unit) state" where
  "add_lock d = modify (\<lambda>s. s\<lparr>g_LockCount := g_LockCount s + d\<rparr>)"

definition put_factory :: "HANDLE \<Rightarrow> LONG option \<Rightarrow> (('w, 'x) dll_scheme, unit) state" where
  "put_factory this r = modify (\<lambda>s. s\<lparr>factories := (factories s)(this := r)\<rparr>)"

definition new_factory :: "'w os_api \<Rightarrow> (('w, 'x) dll_scheme, HANDLE) state" where
  "new_factory A = do {
     cf \<leftarrow> ask (os_new_object A);
     when_do (cf \<noteq> NULL_HANDLE) (do {
       put_factory cf (Some 1);
       add_lock 1
     });
     State_Monad.return cf
   }"

definition factory_AddRef :: "HANDLE \<Rightarrow> (('w, 'x) dll_scheme, LONG) state" where
  "factory_AddRef this = do {
     st \<leftarrow> gets factories;
     (case st this of
        None \<Rightarrow> State_Monad.return 0
      | Some r \<Rightarrow> do {
          put_factory this (Some (r + 1));
          State_Monad.return (r + 1)
        })
   }"

definition factory_Release :: "HANDLE \<Rightarrow> (('w, 'x) dll_scheme, LONG) state" where
  "factory_Release this = do {
     st \<leftarrow> gets factories;
     (case st this of
        None \<Rightarrow> State_Monad.return 0
      | Some r \<Rightarrow> do {
          let c = r - 1;
          (if c = 0 then do {
             add_lock (- 1);
             put_factory this None
           } else put_factory this (Some c));
          State_Monad.return c
        })
   }"

definition factory_QueryInterface ::
    "HANDLE \<Rightarrow> IID \<Rightarrow> bool \<Rightarrow> (('w, 'x) dll_scheme, HRESULT \<times> HANDLE option) state" where
  "factory_QueryInterface this riid hasPpv =
     (if \<not> hasPpv then State_Monad.return (E_POINTER, None)
      else if riid = IID_IUnknown \<or> riid = IID_IClassFactory then do {
        _ \<leftarrow> factory_AddRef this;
        State_Monad.return (S_OK, Some this)
      } else State_Monad.return (E_NOINTERFACE, None))"

definition CreateInstance ::
    "'w os_api \<Rightarrow> bool \<Rightarrow> IID \<Rightarrow> bool \<Rightarrow> (('w, 'x) dll_scheme, HRESULT \<times> HANDLE option) state" where
  "CreateInstance A hasUnkOuter riid hasOut =
     (if hasUnkOuter then State_Monad.return (CLASS_E_NOAGGREGATION, None)
      else if \<not> hasOut then State_Monad.return (E_POINTER, None)
      else do {
        prov \<leftarrow> new_provider A;
        if prov = NULL_HANDLE then State_Monad.return (E_OUTOFMEMORY, None)
        else do {
          r \<leftarrow> provider_QueryInterface prov riid True;
          _ \<leftarrow> provider_Release prov;
          State_Monad.return r
        }
      })"

definition LockServer :: "bool \<Rightarrow> (('w, 'x) dll_scheme, HRESULT) state" where
  "LockServer fLock = do {
     (if fLock then add_lock 1 else add_lock (- 1));
     State_Monad.return S_OK
   }"

section \<open>Exports\<close>

datatype attach_reason =
    DLL_PROCESS_ATTACH | DLL_PROCESS_DETACH | DLL_THREAD_ATTACH | DLL_THREAD_DETACH

definition DllMain :: "'w os_api \<Rightarrow> HANDLE \<Rightarrow> attach_reason \<Rightarrow> (('w, 'x) dll_scheme, bool) state" where
  "DllMain A hInstance dwReason = do {
     when_do (dwReason = DLL_PROCESS_ATTACH) (do {
       modify (\<lambda>s. s\<lparr>g_hInst := hInstance\<rparr>);
       emit A (ThreadCallsOff hInstance)
     });
     State_Monad.return True
   }"

definition DllGetClassObject ::
    "'w os_api \<Rightarrow> 128 word \<Rightarrow> IID \<Rightarrow> bool \<Rightarrow> (('w, 'x) dll_scheme, HRESULT \<times> HANDLE option) state" where
  "DllGetClassObject A rclsid riid hasPpv =
     (if \<not> hasPpv then State_Monad.return (E_POINTER, None)
      else if rclsid = CLSID_testCPProvider then do {
        cf \<leftarrow> new_factory A;
        if cf = NULL_HANDLE then State_Monad.return (E_OUTOFMEMORY, None)
        else do {
          r \<leftarrow> factory_QueryInterface cf riid True;
          _ \<leftarrow> factory_Release cf;
          State_Monad.return r
        }
      } else State_Monad.return (CLASS_E_CLASSNOTAVAILABLE, None))"

definition DllCanUnloadNow :: "(('w, 'x) dll_scheme, HRESULT) state" where
  "DllCanUnloadNow = gets (\<lambda>s. if g_LockCount s = 0 then S_OK else S_FALSE)"

section \<open>The registry\<close>

definition guid_string :: string where "guid_string = ''{7C5B9DC9-3FAE-4E3C-8B1F-2B4B530A1D77}''"

definition clsid_key :: string where
  "clsid_key = ''HKEY_CLASSES_ROOT'' @ [bslash] @ ''CLSID'' @ [bslash] @ guid_string"

definition inproc_key :: string where
  "inproc_key = clsid_key @ [bslash] @ ''InprocServer32''"

definition provider_key :: string where
  "provider_key = ''HKEY_LOCAL_MACHINE'' @ [bslash] @ ''SOFTWARE'' @ [bslash] @ ''Microsoft'' @ [bslash]
     @ ''Windows'' @ [bslash] @ ''CurrentVersion'' @ [bslash] @ ''Authentication'' @ [bslash]
     @ ''Credential Providers'' @ [bslash] @ guid_string"

text \<open>The value is written with its terminating null; its result is not looked at.\<close>

definition reg_set :: "'w os_api \<Rightarrow> HANDLE \<Rightarrow> string \<Rightarrow> wstring \<Rightarrow> (('w, 'x) sys_scheme, unit) state" where
  "reg_set A key name text = emit A (RegSet key name (text @ [0]))"

definition reg_create :: "'w os_api \<Rightarrow> string \<Rightarrow> (('w, 'x) sys_scheme, HANDLE option) state" where
  "reg_create A path = do {
     h \<leftarrow> ask (os_RegCreateKeyEx A path);
     (case h of None \<Rightarrow> State_Monad.return () | Some k \<Rightarrow> emit A (Opened k));
     State_Monad.return h
   }"

definition DllRegisterServer :: "'w os_api \<Rightarrow> (('w, 'x) dll_scheme, HRESULT) state" where
  "DllRegisterServer A = do {
     inst \<leftarrow> gets g_hInst;
     m \<leftarrow> ask (os_GetModuleFileName A inst);
     (case m of
        None \<Rightarrow> State_Monad.return SELFREG_E_CLASS
      | Some modulePath \<Rightarrow> do {
          h \<leftarrow> reg_create A inproc_key;
          (case h of
             None \<Rightarrow> State_Monad.return SELFREG_E_CLASS
           | Some hInproc \<Rightarrow> do {
               reg_set A hInproc [] modulePath;
               reg_set A hInproc ''ThreadingModel'' (wide ''Apartment'');
               CloseHandle A hInproc;
               h \<leftarrow> reg_create A provider_key;
               (case h of
                  None \<Rightarrow> State_Monad.return SELFREG_E_CLASS
                | Some hKey \<Rightarrow> do {
                    reg_set A hKey [] (wide ''Dot1xCP'');
                    CloseHandle A hKey;
                    State_Monad.return S_OK
                  })
             })
        })
   }"

definition DllUnregisterServer :: "'w os_api \<Rightarrow> (('w, 'x) sys_scheme, HRESULT) state" where
  "DllUnregisterServer A = do {
     emit A (RegDeleted inproc_key);
     emit A (RegDeleted clsid_key);
     emit A (RegDeleted provider_key);
     State_Monad.return S_OK
   }"

section \<open>What the operations keep\<close>

text \<open>
  \<open>com_wf n s\<close>: \<open>g_LockCount\<close> is the number of living factories and of the \<open>n\<close> locks the
  client holds.
\<close>

definition com_wf :: "nat \<Rightarrow> ('w, 'x) dll_scheme \<Rightarrow> bool" where
  "com_wf n s \<longleftrightarrow> finite (dom (factories s)) \<and> g_LockCount s = of_nat (card (dom (factories s)) + n)"

text \<open>What an operation of the session, of the provider or of the credential leaves alone.\<close>

definition com_frame :: "('w, 'x) dll_scheme \<Rightarrow> ('w, 'x) dll_scheme \<Rightarrow> bool" where
  "com_frame s s' \<longleftrightarrow> factories s' = factories s \<and> g_LockCount s' = g_LockCount s"

text \<open>What an operation on the objects and on the registry leaves alone.\<close>

definition below_frame :: "('w, 'x) dll_scheme \<Rightarrow> ('w, 'x) dll_scheme \<Rightarrow> bool" where
  "below_frame s s' \<longleftrightarrow> (broker_wf s \<longrightarrow> broker_wf s') \<and> g_session s' = g_session s
     \<and> g_lastBrokerFlowState s' = g_lastBrokerFlowState s"

lemma com_wf_frame: "com_wf n s \<Longrightarrow> com_frame s s' \<Longrightarrow> com_wf n s'"
  by (simp add: com_wf_def com_frame_def)

lemma card_dom_minus_1:
  assumes "finite (dom m)" and "m k = Some v"
  shows "(of_nat (card (dom m) - Suc 0) :: LONG) = of_nat (card (dom m)) - 1"
proof -
  have "card (dom m) > 0" using assms by (metis card_gt_0_iff domI empty_iff)
  then show ?thesis by (cases "card (dom m)") simp_all
qed

lemma dom_diff_None: "m k = None \<Longrightarrow> dom m - {k} = dom m"
  by auto

lemma card_dom_insert: "finite (dom m) \<Longrightarrow> m k = None \<Longrightarrow> card (insert k (dom m)) = Suc (card (dom m))"
  by (simp add: card_insert_if domIff)

lemmas card_dom_simps = card_dom_minus_1 dom_diff_None card_dom_insert domI insert_absorb dom_fun_upd

lemma broker_wf_log [simp]:
  "broker_wf (s\<lparr>world := w\<rparr>) = broker_wf s"
  "broker_wf (s\<lparr>world := w, trace := ThreadCallsOff h # trace s\<rparr>) = broker_wf s"
  by (simp_all add: method_defs)

lemmas factory_defs = factory_AddRef_def factory_Release_def factory_QueryInterface_def new_factory_def
  put_factory_def add_lock_def

lemmas object_defs = provider_AddRef_def provider_Release_def provider_QueryInterface_def new_provider_def
  credential_AddRef_def credential_Release_def credential_QueryInterface_def

text \<open>A method that changes reference counts: the invariant of the session does not see it.\<close>

locale com_method =
  fixes opn :: "(('w, 'x) dll_scheme, 'a) state" and locks :: "nat \<Rightarrow> nat" and pre :: "nat \<Rightarrow> ('w, 'x) dll_scheme \<Rightarrow> bool"
  assumes method_com: "com_wf n s \<Longrightarrow> pre n s \<Longrightarrow> wp opn (\<lambda>_ s'. com_wf (locks n) s') s"
    and method_below: "wp opn (\<lambda>_ s'. below_frame s s') s"
begin

lemma method_keeps:
  assumes "broker_wf s" and "com_wf n s" and "pre n s" and "run_state opn s = (r, s')"
  shows "broker_wf s' \<and> com_wf (locks n) s' \<and> g_session s' = g_session s
    \<and> g_lastBrokerFlowState s' = g_lastBrokerFlowState s"
  using wp_run [OF assms(4) method_com [OF assms(2,3)]] wp_run [OF assms(4) method_below] assms(1)
  by (simp add: below_frame_def)

end

text \<open>A new object does not stand where a living one does.\<close>

definition fresh_object :: "'w os_api \<Rightarrow> ('w, 'x) dll_scheme \<Rightarrow> bool" where
  "fresh_object A s \<longleftrightarrow> (let p = fst (os_new_object A (world s)) in
     factories s p = None \<and> providers s p = None \<and> credentials s p = None)"

lemmas com_defs = com_wf_def below_frame_def factory_defs wp_simps Let_def card_dom_simps

interpretation factory_add: com_method "factory_AddRef this" "\<lambda>n. n" "\<lambda>_ _. True" for this
  by unfold_locales (auto simp: com_defs split: option.split)

interpretation factory_rel: com_method "factory_Release this" "\<lambda>n. n" "\<lambda>_ _. True" for this
  by unfold_locales (auto simp: com_defs split: option.split)

interpretation factory_query: com_method "factory_QueryInterface this riid b" "\<lambda>n. n" "\<lambda>_ _. True" for this riid b
  by unfold_locales (auto simp: com_defs split: option.split)

interpretation class_object: com_method "DllGetClassObject A c riid b" "\<lambda>n. n" "\<lambda>_. fresh_object A" for A c riid b
  by unfold_locales (auto simp: DllGetClassObject_def fresh_object_def com_defs split: option.split)

interpretation lock: com_method "LockServer True" Suc "\<lambda>_ _. True"
  by unfold_locales (auto simp: LockServer_def com_defs)

interpretation unlock: com_method "LockServer False" "\<lambda>n. n - 1" "\<lambda>n _. 0 < n"
  by unfold_locales (auto simp: LockServer_def com_defs)

interpretation create_instance: com_method "CreateInstance A outer riid b" "\<lambda>n. n" "\<lambda>_ _. True" for A outer riid b
  by unfold_locales (auto simp: CreateInstance_def object_defs com_defs split: option.split)

interpretation provider_add: com_method "provider_AddRef this" "\<lambda>n. n" "\<lambda>_ _. True" for this
  by unfold_locales (auto simp: object_defs com_defs split: option.split)

interpretation provider_rel: com_method "provider_Release this" "\<lambda>n. n" "\<lambda>_ _. True" for this
  by unfold_locales (auto simp: object_defs com_defs split: option.split)

interpretation credential_add: com_method "credential_AddRef this" "\<lambda>n. n" "\<lambda>_ _. True" for this
  by unfold_locales (auto simp: object_defs com_defs split: option.split)

interpretation credential_rel: com_method "credential_Release this" "\<lambda>n. n" "\<lambda>_ _. True" for this
  by unfold_locales (auto simp: object_defs com_defs split: option.split)

interpretation credential_at: com_method "GetCredentialAt A this i b" "\<lambda>n. n" "\<lambda>_ _. True" for A this i b
  by unfold_locales (auto simp: GetCredentialAt_def com_defs split: option.split)

interpretation attach: com_method "DllMain A h why" "\<lambda>n. n" "\<lambda>_ _. True" for A h why
  by unfold_locales (auto simp: DllMain_def com_defs method_defs)

section \<open>Properties\<close>

text \<open>
  The provider that \<open>CreateInstance\<close> returns is referenced once, by the caller; when it
  returns an error instead, no provider is left behind.
\<close>

theorem create_instance_counts:
  assumes "providers s (fst (os_new_object A (world s))) = None"
  shows "case run_state (CreateInstance A outer riid hasOut) s of
      ((hr, Some p), s') \<Rightarrow> hr = S_OK \<and> \<not> outer
        \<and> providers s' = (providers s)(p \<mapsto> \<lparr>p_ref = 1, p_cpus = CPUS_INVALID\<rparr>)
    | ((hr, None), s') \<Rightarrow> hr \<noteq> S_OK \<and> providers s' = providers s"
proof -
  have "wp (CreateInstance A outer riid hasOut) (\<lambda>(hr, q) s'. case q of
      Some p \<Rightarrow> hr = S_OK \<and> \<not> outer
        \<and> providers s' = (providers s)(p \<mapsto> \<lparr>p_ref = 1, p_cpus = CPUS_INVALID\<rparr>)
    | None \<Rightarrow> hr \<noteq> S_OK \<and> providers s' = providers s) s"
    using assms by (auto simp: CreateInstance_def object_defs wp_simps Let_def fun_upd_idem)
  then show ?thesis by (auto simp: wp_def split: prod.splits option.splits)
qed

text \<open>What \<open>CoCreateInstance\<close> does with the library: get the factory, make the object, let the factory go.\<close>

definition activate :: "'w os_api \<Rightarrow> (('w, 'x) dll_scheme, HRESULT \<times> HANDLE option) state" where
  "activate A = do {
     (hr, cf) \<leftarrow> DllGetClassObject A CLSID_testCPProvider IID_IClassFactory True;
     (case cf of
        None \<Rightarrow> State_Monad.return (hr, None)
      | Some f \<Rightarrow> do {
          r \<leftarrow> CreateInstance A False IID_ICredentialProvider True;
          _ \<leftarrow> factory_Release f;
          State_Monad.return r
        })
   }"

text \<open>
  C37: the library reports that it may be unloaded while a provider it made is alive and in use:
  \<open>g_LockCount\<close> counts factories and locks, but neither providers nor credentials nor armed
  timers.
\<close>

theorem unload_ignores_providers:
  assumes "com_wf 0 s" and "factories s = Map.empty"
    and "run_state (activate A) s = ((S_OK, Some p), s')"
  shows "\<exists>r. providers s' p = Some r \<and> p_ref r = 1 \<and> fst (run_state DllCanUnloadNow s') = S_OK"
proof -
  have "wp (activate A) (\<lambda>(hr, q) s'. hr = S_OK \<longrightarrow> (case q of None \<Rightarrow> True
      | Some p \<Rightarrow> (\<exists>r. providers s' p = Some r \<and> p_ref r = 1) \<and> g_LockCount s' = 0)) s"
    using assms(1,2)
    by (auto simp: activate_def DllGetClassObject_def CreateInstance_def object_defs factory_defs com_wf_def
        wp_simps Let_def)
  from wp_run [OF assms(3) this] show ?thesis
    by (simp add: DllCanUnloadNow_def)
qed

text \<open>A class identifier as the registry writes it.\<close>

definition guid_text :: "128 word \<Rightarrow> wstring" where
  "guid_text c = (let h = hex_digits 32 (unat c); dash = wide ''-'' in
     wide ''{'' @ take 8 h @ dash @ take 4 (drop 8 h) @ dash @ take 4 (drop 12 h) @ dash
       @ take 4 (drop 16 h) @ dash @ drop 20 h @ wide ''}'')"

lemma guid_text_inject: "guid_text c = guid_text d \<longleftrightarrow> c = d"
proof
  assume eq: "guid_text c = guid_text d"
  let ?h = "\<lambda>c. hex_digits 32 (unat (c :: 128 word))"
  have split: "x = take 8 x @ take 4 (drop 8 x) @ take 4 (drop 12 x) @ take 4 (drop 16 x) @ drop 20 x" for x :: wstring
  proof -
    have "drop n x = take 4 (drop n x) @ drop (n + 4) x" for n
      by (metis append_take_drop_id drop_drop add.commute)
    from this [of 8] this [of 12] this [of 16] show ?thesis
      using append_take_drop_id [of 8 x] by simp
  qed
  have "?h c = ?h d"
    by (subst (1 2) split) (use eq in \<open>simp add: guid_text_def Let_def\<close>)
  moreover have "unat c < 16 ^ 32" "unat d < 16 ^ 32"
    using unsigned_less [of c] unsigned_less [of d] by simp_all
  ultimately show "c = d" using hex_digits_inject word_unat_inject by blast
qed simp

lemma hex_digits_numeral:
  "hex_digits (numeral k) n = hex_digits (pred_numeral k) (n div 16) @ [hex_wchar (n mod 16)]"
  by (simp only: numeral_eq_Suc hex_digits.simps)

lemma guid_text_CLSID: "guid_text CLSID_testCPProvider = wide guid_string"
  by (simp add: guid_text_def CLSID_testCPProvider_def hex_digits_numeral hex_wchar_def guid_string_def
      wide_def Let_def)


text \<open>
  Registration closes every key it opened, on every path; when it succeeds it has written
  the path of the library, its threading model and its name.
\<close>

theorem registration_closes_keys:
  "case run_state (DllRegisterServer A) s of (hr, s') \<Rightarrow>
     silent (trace s) (trace s') 
     \<and> (if hr = S_OK then (\<exists>path k l. {RegSet k [] (path @ [0]), RegSet k ''ThreadingModel'' (wide ''Apartment'' @ [0]),
          RegSet l [] (wide ''Dot1xCP'' @ [0])} \<subseteq> set (trace s')
          \<and> fst (os_GetModuleFileName A (g_hInst s) (world s)) = Some path)
        else hr = SELFREG_E_CLASS)"
proof -
  have "wp (DllRegisterServer A) (\<lambda>hr s'. silent (trace s) (trace s') 
     \<and> (if hr = S_OK then (\<exists>path k l. {RegSet k [] (path @ [0]), RegSet k ''ThreadingModel'' (wide ''Apartment'' @ [0]),
          RegSet l [] (wide ''Dot1xCP'' @ [0])} \<subseteq> set (trace s')
          \<and> fst (os_GetModuleFileName A (g_hInst s) (world s)) = Some path)
        else hr = SELFREG_E_CLASS)) s"
    by (auto simp: DllRegisterServer_def reg_create_def reg_set_def wp_simps split: option.split)
  then show ?thesis by (simp add: wp_def)
qed

section \<open>Witnesses\<close>

definition bare_dll :: "ULONGLONG dll" where
  "bare_dll = (dll_of start_sess)\<lparr>providers := Map.empty\<rparr>"

lemma bare_dll_wf: "com_wf 0 bare_dll" "factories bare_dll = Map.empty" "providers bare_dll p = None"
  by (simp_all add: com_wf_def bare_dll_def dll_of_def sess.defs)

lemma create_instance_counts_witness:
  "\<exists>p s'. run_state (CreateInstance silent_api False IID_ICredentialProvider True) bare_dll = ((S_OK, Some p), s')
     \<and> providers s' p = Some \<lparr>p_ref = 1, p_cpus = CPUS_INVALID\<rparr>"
proof -
  obtain s' where run: "run_state (CreateInstance silent_api False IID_ICredentialProvider True) bare_dll
      = ((S_OK, Some 0x2000), s')"
    by (simp add: CreateInstance_def object_defs run_ask when_do_def Let_def silent_api_def demo_defs)
  from create_instance_counts [where A = silent_api and outer = False and riid = IID_ICredentialProvider
      and hasOut = True, OF bare_dll_wf(3)] run
  show ?thesis by auto
qed

lemma unload_ignores_providers_witness:
  "\<exists>p s'. run_state (activate silent_api) bare_dll = ((S_OK, Some p), s')
     \<and> fst (run_state DllCanUnloadNow s') = S_OK \<and> providers s' p \<noteq> None"
proof -
  obtain s' where run: "run_state (activate silent_api) bare_dll = ((S_OK, Some 0x2000), s')"
    by (simp add: activate_def DllGetClassObject_def CreateInstance_def object_defs factory_defs run_ask
        when_do_def Let_def silent_api_def demo_defs)
  from unload_ignores_providers [OF bare_dll_wf(1,2) run] run show ?thesis by auto
qed

end
