(* ===== verification/Credential_Fields.thy ===== *)
theory Credential_Fields
  imports Provider_Core
begin

text \<open>
  \<open>src/src/core/ProviderCredentialFields.cpp\<close>: the fields of the tile.  Each method returns its
  code and what it wrote through its out-parameters: \<open>None\<close> where it wrote nothing or the
  pointer was null.
\<close>

section \<open>Methods\<close>

datatype FIELD_STATE =
    CPFS_HIDDEN | CPFS_DISPLAY_IN_SELECTED_TILE | CPFS_DISPLAY_IN_DESELECTED_TILE | CPFS_DISPLAY_IN_BOTH

datatype FIELD_INTERACTIVE_STATE = CPFIS_NONE | CPFIS_READONLY | CPFIS_DISABLED | CPFIS_FOCUSED

definition GetFieldState ::
    "DWORD \<Rightarrow> bool \<Rightarrow> bool \<Rightarrow> HRESULT \<times> (FIELD_STATE \<times> FIELD_INTERACTIVE_STATE) option" where
  "GetFieldState dwFieldID has_pcpfs has_pcpfis =
     (if \<not> has_pcpfs \<or> \<not> has_pcpfis then (E_POINTER, None)
      else if dwFieldID \<ge> FI_NUM_FIELDS then (E_INVALIDARG, None)
      else if dwFieldID = FI_TITLE then (S_OK, Some (CPFS_DISPLAY_IN_SELECTED_TILE, CPFIS_NONE))
      else if dwFieldID = FI_SUBMIT then (S_OK, Some (CPFS_HIDDEN, CPFIS_NONE))
      else (S_OK, Some (CPFS_HIDDEN, CPFIS_NONE)))"

definition GetStringValue ::
    "'w os_api \<Rightarrow> DWORD \<Rightarrow> bool \<Rightarrow> (('w, 'x) sys_scheme, HRESULT \<times> wstring option) state" where
  "GetStringValue A dwFieldID has_ppwsz =
     (if \<not> has_ppwsz then State_Monad.return (E_POINTER, None)
      else if dwFieldID = FI_TITLE then do {
        let cch = length kCpTitleText + 1;
        p \<leftarrow> CoTaskMemAlloc A (cch * 2);
        State_Monad.return (if p = NULL_HANDLE then (E_OUTOFMEMORY, None) else (S_OK, Some kCpTitleText))
      }
      else State_Monad.return (E_NOTIMPL, None))"

definition GetBitmapValue :: "bool \<Rightarrow> HRESULT \<times> HANDLE option" where
  "GetBitmapValue has_phbmp = (E_NOTIMPL, if has_phbmp then Some NULL_HANDLE else None)"

definition GetCheckboxValue :: "bool \<Rightarrow> bool \<Rightarrow> HRESULT \<times> bool option \<times> wstring option option" where
  "GetCheckboxValue has_pbChecked has_ppwszLabel =
     (E_NOTIMPL, if has_pbChecked then Some False else None, if has_ppwszLabel then Some None else None)"

definition GetSubmitButtonValue :: "DWORD \<Rightarrow> bool \<Rightarrow> HRESULT \<times> DWORD option" where
  "GetSubmitButtonValue dwFieldID has_pdwAdjacentTo =
     (if \<not> has_pdwAdjacentTo then (E_POINTER, None)
      else if dwFieldID = FI_SUBMIT then (S_OK, Some FI_TITLE)
      else (E_NOTIMPL, None))"

definition GetComboBoxValueCount :: "bool \<Rightarrow> bool \<Rightarrow> HRESULT \<times> DWORD option \<times> DWORD option" where
  "GetComboBoxValueCount has_pcItems has_pdwSelectedItem =
     (E_NOTIMPL, if has_pcItems then Some 0 else None, if has_pdwSelectedItem then Some 0 else None)"

definition GetComboBoxValueAt :: "bool \<Rightarrow> HRESULT \<times> wstring option option" where
  "GetComboBoxValueAt has_ppwszItem = (E_NOTIMPL, if has_ppwszItem then Some None else None)"

definition SetComboBoxSelectedValue :: HRESULT where "SetComboBoxSelectedValue = E_NOTIMPL"
definition SetStringValue :: HRESULT where "SetStringValue = E_NOTIMPL"
definition SetCheckboxValue :: HRESULT where "SetCheckboxValue = E_NOTIMPL"
definition CommandLinkClicked :: HRESULT where "CommandLinkClicked = E_NOTIMPL"

section \<open>Properties\<close>

lemma field_cases: "(i :: DWORD) < FI_NUM_FIELDS \<Longrightarrow> i = FI_TITLE \<or> i = FI_SUBMIT"
  by unat_arith

text \<open>
  What \<open>GetFieldDescriptorAt\<close> announces for a field and what the credential says of it.
\<close>

definition field_consistent :: "FIELD_DESCRIPTOR \<Rightarrow> bool" where
  "field_consistent d \<longleftrightarrow>
     (case fd_cpft d of
        CPFT_LARGE_TEXT \<Rightarrow>
          GetFieldState (fd_dwFieldID d) True True = (S_OK, Some (CPFS_DISPLAY_IN_SELECTED_TILE, CPFIS_NONE))
          \<and> fst (GetSubmitButtonValue (fd_dwFieldID d) True) = E_NOTIMPL
      | CPFT_SUBMIT_BUTTON \<Rightarrow>
          GetFieldState (fd_dwFieldID d) True True = (S_OK, Some (CPFS_HIDDEN, CPFIS_NONE))
          \<and> (\<exists>t. GetSubmitButtonValue (fd_dwFieldID d) True = (S_OK, Some t)
               \<and> GetFieldState t True True = (S_OK, Some (CPFS_DISPLAY_IN_SELECTED_TILE, CPFIS_NONE))))"

lemma descriptor_cases:
  "wp (GetFieldDescriptorAt A n i True) (\<lambda>(hr, d) s'. case d of
      None \<Rightarrow> True
    | Some f \<Rightarrow> i < FI_NUM_FIELDS \<and> fd_dwFieldID f = i
        \<and> fd_cpft f = (if i = FI_TITLE then CPFT_LARGE_TEXT else CPFT_SUBMIT_BUTTON)
        \<and> fd_pszLabel f = Some (if i = FI_TITLE then kCpTitleText else kCpSubmitLabel)) s"
  unfolding GetFieldDescriptorAt_def AllocLabelCopy_def CoTaskMemAlloc_def Let_def
  using field_cases [of i] by (intro wp_intro) (auto simp: g_fields_template_def not_le)

lemma string_value_cases:
  "wp (GetStringValue B i True) (\<lambda>(hr, t) _. case t of
      None \<Rightarrow> hr \<noteq> S_OK | Some x \<Rightarrow> i = FI_TITLE \<and> x = kCpTitleText) u"
  unfolding GetStringValue_def CoTaskMemAlloc_def Let_def by (intro wp_intro) auto

text \<open>
  C40: every field the provider announces is one the credential knows: the text is displayed, the
  submit button is hidden and stands beside a field that is displayed, and the text of a field
  that has one is the label announced for it.
\<close>

theorem fields_agree:
  "case run_state (GetFieldDescriptorAt A n i True) s of
     ((hr, Some d), s') \<Rightarrow> field_consistent d
       \<and> (case run_state (GetStringValue B (fd_dwFieldID d) True) u of
            ((hr, Some t), u') \<Rightarrow> fd_pszLabel d = Some t \<and> fd_cpft d = CPFT_LARGE_TEXT
          | ((hr, None), u') \<Rightarrow> hr \<noteq> S_OK)
   | ((hr, None), s') \<Rightarrow> hr \<noteq> S_OK"
proof -
  obtain hr d s' where run: "run_state (GetFieldDescriptorAt A n i True) s = ((hr, d), s')"
    by (metis surj_pair)
  have "wp (GetFieldDescriptorAt A n i True) (\<lambda>(hr, d) s'. d = None \<longrightarrow> hr \<noteq> S_OK) s"
    unfolding GetFieldDescriptorAt_def AllocLabelCopy_def CoTaskMemAlloc_def Let_def
    using field_cases [of i] by (intro wp_intro) (auto simp: not_le)
  from wp_run [OF run this] have none: "d = None \<Longrightarrow> hr \<noteq> S_OK" by simp
  show ?thesis
  proof (cases d)
    case (Some f)
    obtain hr2 t u' where sv: "run_state (GetStringValue B (fd_dwFieldID f) True) u = ((hr2, t), u')"
      by (metis surj_pair)
    have f: "fd_dwFieldID f = i" "i = FI_TITLE \<or> i = FI_SUBMIT"
      "fd_cpft f = (if i = FI_TITLE then CPFT_LARGE_TEXT else CPFT_SUBMIT_BUTTON)"
      "fd_pszLabel f = Some (if i = FI_TITLE then kCpTitleText else kCpSubmitLabel)"
      using wp_run [OF run descriptor_cases] Some field_cases [of i] by simp_all
    moreover have "\<not> FI_NUM_FIELDS \<le> FI_SUBMIT" by unat_arith
    ultimately have "field_consistent f"
      by (auto simp: field_consistent_def GetFieldState_def GetSubmitButtonValue_def)
    moreover have "case t of None \<Rightarrow> hr2 \<noteq> S_OK | Some x \<Rightarrow> fd_dwFieldID f = FI_TITLE \<and> x = kCpTitleText"
      using wp_run [OF sv string_value_cases] by simp
    ultimately show ?thesis
      using run sv Some f by (cases t) simp_all
  qed (use run none in simp)
qed

end
