(* ===== verification/System.thy ===== *)
theory System
  imports Session_Protocol Com_Server Credential_Fields
begin

text \<open>
  The library as a whole: the calls LogonUI, COM and the thread pool can make, as one labelled
  step relation, its invariant and its refinement of the abstract machine.  A step is a whole
  call; only the refresh callback, which calls out to LogonUI, is taken in its parts (start,
  notification, end), so that LogonUI can call back in between; a step may repeat the
  notification, which the code does once.  The environment may change the world at any time
  between two calls.
\<close>

section \<open>Steps\<close>

text \<open>What a step answers, where it answers a request for a credential.\<close>

datatype label = Answer GSR | Quiet

definition label_of :: "reply \<Rightarrow> label" where
  "label_of r = (case response r of None \<Rightarrow> Quiet | Some g \<Rightarrow> Answer g)"

text \<open>The state is that of the library and the number of locks its client holds on it.\<close>

type_synonym 'w host = "'w dll \<times> nat"

inductive step :: "'w os_api \<Rightarrow> 'w host \<Rightarrow> label \<Rightarrow> 'w host \<Rightarrow> bool" for A :: "'w os_api" where
  environment: "step A (s, n) Quiet (s\<lparr>world := w\<rparr>, n)"
| scenario: "run_state (SetUsageScenario A this cpus) s = (r, t) \<Longrightarrow> step A (s, n) Quiet (t, n)"
| advise: "run_state (provider_Advise A e c) s = (r, t) \<Longrightarrow> step A (s, n) Quiet (t, n)"
| unadvise: "run_state (provider_UnAdvise A) s = (r, t) \<Longrightarrow> step A (s, n) Quiet (t, n)"
| descriptor: "run_state (GetFieldDescriptorAt A sz i b) s = (r, t) \<Longrightarrow> step A (s, n) Quiet (t, n)"
| credential: "run_state (GetCredentialAt A this i b) s = (r, t) \<Longrightarrow> step A (s, n) Quiet (t, n)"
| string_value: "run_state (GetStringValue A i b) s = (r, t) \<Longrightarrow> step A (s, n) Quiet (t, n)"
| select: "credentials s this = Some c \<Longrightarrow> run_state (SetSelected A (c_cpus c) b) s = (r, t) \<Longrightarrow>
    step A (s, n) Quiet (t, n)"
| deselect: "credentials s this = Some c \<Longrightarrow> run_state (SetDeselected A (c_cpus c)) s = (r, t) \<Longrightarrow>
    step A (s, n) Quiet (t, n)"
| serialize: "credentials s this = Some c \<Longrightarrow> GetSerialization A args (c_cpus c) s = Some ((h, r), t) \<Longrightarrow>
    step A (s, n) (label_of r) (t, n)"
| report: "credentials s this = Some c \<Longrightarrow> run_state (ReportResult A (c_cpus c) st sub b d) s = (r, t) \<Longrightarrow>
    step A (s, n) Quiet (t, n)"
| timer: "ctx \<in> set (timers s) \<Longrightarrow> step A (s, n) Quiet (fire ctx s, n)"
| callback: "ctx \<in> set (callbacks s) \<Longrightarrow> run_state (callback_notify A ctx) s = (r, t) \<Longrightarrow>
    step A (s, n) Quiet (t, n)"
| callback_end: "ctx \<in> set (callbacks s) \<Longrightarrow> run_state (callback_finish A ctx) s = (r, t) \<Longrightarrow>
    step A (s, n) Quiet (t, n)"
| attach_dll: "run_state (DllMain A inst why) s = (r, t) \<Longrightarrow> step A (s, n) Quiet (t, n)"
| class_factory: "fresh_object A s \<Longrightarrow> run_state (DllGetClassObject A c riid b) s = (r, t) \<Longrightarrow>
    step A (s, n) Quiet (t, n)"
| new_instance: "run_state (CreateInstance A outer riid b) s = (r, t) \<Longrightarrow> step A (s, n) Quiet (t, n)"
| factory_ref: "run_state (factory_AddRef this) s = (r, t) \<Longrightarrow> step A (s, n) Quiet (t, n)"
| factory_unref: "run_state (factory_Release this) s = (r, t) \<Longrightarrow> step A (s, n) Quiet (t, n)"
| factory_face: "run_state (factory_QueryInterface this riid b) s = (r, t) \<Longrightarrow> step A (s, n) Quiet (t, n)"
| lock_server: "run_state (LockServer True) s = (r, t) \<Longrightarrow> step A (s, n) Quiet (t, Suc n)"
| unlock_server: "0 < n \<Longrightarrow> run_state (LockServer False) s = (r, t) \<Longrightarrow> step A (s, n) Quiet (t, n - 1)"
| provider_ref: "run_state (provider_AddRef this) s = (r, t) \<Longrightarrow> step A (s, n) Quiet (t, n)"
| provider_unref: "run_state (provider_Release this) s = (r, t) \<Longrightarrow> step A (s, n) Quiet (t, n)"
| credential_ref: "run_state (credential_AddRef this) s = (r, t) \<Longrightarrow> step A (s, n) Quiet (t, n)"
| credential_unref: "run_state (credential_Release this) s = (r, t) \<Longrightarrow> step A (s, n) Quiet (t, n)"
| register: "run_state (DllRegisterServer A) s = (r, t) \<Longrightarrow> step A (s, n) Quiet (t, n)"
| unregister: "run_state (DllUnregisterServer A) s = (r, t) \<Longrightarrow> step A (s, n) Quiet (t, n)"

text \<open>Runs of a labelled step relation.\<close>

inductive exec :: "('s \<Rightarrow> 'l \<Rightarrow> 's \<Rightarrow> bool) \<Rightarrow> 's \<Rightarrow> 'l list \<Rightarrow> 's \<Rightarrow> bool"
  for st :: "'s \<Rightarrow> 'l \<Rightarrow> 's \<Rightarrow> bool" where
  exec_nil: "exec st s [] s"
| exec_snoc: "exec st s ls t \<Longrightarrow> st t l u \<Longrightarrow> exec st s (ls @ [l]) u"

inductive_cases exec_snocE: "exec st s (ls @ [l]) u"

lemma exec_one: "st s l t \<Longrightarrow> exec st s [l] t"
  using exec_snoc [of st s "[]" s l t] by (simp add: exec_nil)

lemma exec_two: "st s k t \<Longrightarrow> st t l u \<Longrightarrow> exec st s [k, l] u"
  using exec_snoc [OF exec_one, of st s k t l u] by simp

section \<open>Invariants and simulations of step relations\<close>

locale preserved =
  fixes st :: "'s \<Rightarrow> 'l \<Rightarrow> 's \<Rightarrow> bool" and inv :: "'s \<Rightarrow> bool"
  assumes inv_step: "inv s \<Longrightarrow> st s l t \<Longrightarrow> inv t"
begin

lemma inv_exec: "exec st s ls t \<Longrightarrow> inv s \<Longrightarrow> inv t"
  by (induction rule: exec.induct) (auto dest: inv_step)

end

text \<open>A simulation: every step from a state with the invariant is a step of the abstract machine.\<close>

locale simulation = preserved st inv
  for st :: "'s \<Rightarrow> 'l \<Rightarrow> 's \<Rightarrow> bool" and inv :: "'s \<Rightarrow> bool" +
  fixes abs_st :: "'a \<Rightarrow> 'l \<Rightarrow> 'a \<Rightarrow> bool" and abs :: "'s \<Rightarrow> 'a"
  assumes sim_step: "inv s \<Longrightarrow> st s l t \<Longrightarrow> abs_st (abs s) l (abs t)"
begin

lemma sim_exec: "exec st s ls t \<Longrightarrow> inv s \<Longrightarrow> exec abs_st (abs s) ls (abs t)"
  by (induction rule: exec.induct) (auto intro: exec.intros sim_step inv_exec)

end

section \<open>What each call keeps\<close>

text \<open>The invariant of the session; the factories and locks; and no session is opened.\<close>

definition calm :: "'w dll \<Rightarrow> 'w dll \<Rightarrow> bool" where
  "calm s t \<longleftrightarrow> broker_wf t \<and> com_frame s t \<and> phase_of t \<in> {phase_of s, Down}"

lemma sess_more_frame: "sess.more t = sess.more s \<Longrightarrow> com_frame (s :: 'w dll) t"
  using sess_more_dll [of t s] by (simp add: com_frame_def)

lemma calm_prov:
  fixes s t :: "'w dll"
  assumes "broker_wf t" and "prov_frame s t"
  shows "calm s t"
  using assms prov_frame_sess [OF assms(2)] by (simp add: calm_def sess_more_frame phase_of_def)

lemma calm_sys:
  fixes s t :: "'w dll"
  assumes "broker_wf s" and "sys.more t = sys.more s" and "silent (trace s) (trace t)"
  shows "calm s t"
  using assms by (cases s; cases t) (simp add: calm_def com_frame_def phase_of_def method_defs)

lemma sys_call:
  fixes s t :: "'w dll"
  assumes "run_state m s = (r, t)" and "broker_wf s"
    and "wp m (\<lambda>_ t. sys.more t = sys.more s \<and> silent (trace s) (trace t)) s"
  shows "calm s t"
  using wp_run [OF assms(1,3)] calm_sys [OF assms(2)] by blast

lemma descriptor_calm:
  "broker_wf s \<Longrightarrow> run_state (GetFieldDescriptorAt A sz i b) s = (r, t) \<Longrightarrow> calm s t"
  by (rule sys_call, assumption+)
     (unfold GetFieldDescriptorAt_def AllocLabelCopy_def CoTaskMemAlloc_def Let_def, intro wp_intro, auto)

lemma string_value_calm:
  "broker_wf s \<Longrightarrow> run_state (GetStringValue A i b) s = (r, t) \<Longrightarrow> calm s t"
  by (rule sys_call, assumption+)
     (unfold GetStringValue_def CoTaskMemAlloc_def Let_def, intro wp_intro, auto)

lemma report_calm:
  "broker_wf s \<Longrightarrow> run_state (ReportResult A c st sub b d) s = (r, t) \<Longrightarrow> calm s t"
  by (rule sys_call, assumption+)
     (unfold ReportResult_def Let_def, intro wp_intro wp_mono [OF NtStatusToText_frame] wp_mono [OF DupSysAlloc_frame],
      auto simp: text_frame_def)

lemma register_calm:
  "broker_wf s \<Longrightarrow> run_state (DllRegisterServer A) s = (r, t) \<Longrightarrow> calm s t"
  by (rule sys_call, assumption+)
     (unfold DllRegisterServer_def reg_create_def reg_set_def, intro wp_intro, auto)

lemma unregister_calm:
  "broker_wf s \<Longrightarrow> run_state (DllUnregisterServer A) s = (r, t) \<Longrightarrow> calm s t"
  by (rule sys_call, assumption+) (unfold DllUnregisterServer_def, intro wp_intro, auto)

lemma prov_call:
  fixes s t :: "'w dll"
  assumes "run_state m s = (r, t)" and "broker_wf t" and "wp m (\<lambda>_ t. prov_frame s t) s"
  shows "calm s t"
  using calm_prov [OF assms(2)] wp_run [OF assms(1,3)] by simp

lemma advise_calm:
  assumes "broker_wf s" and "run_state (provider_Advise A e c) s = (r, t)"
  shows "calm s t"
proof (rule prov_call [OF assms(2)])
  show "broker_wf t" using advise_method.method_safe [OF assms] by simp
  show "wp (provider_Advise A e c) (\<lambda>_ t. prov_frame s t) s"
    unfolding provider_Advise_def
    by (intro wp_intro wp_mono [OF set_events.op_frame]) (use assms(1) in \<open>simp_all add: method_defs\<close>)
qed

lemma unadvise_calm:
  assumes "broker_wf s" and "run_state (provider_UnAdvise A) s = (r, t)"
  shows "calm s t"
proof (rule prov_call [OF assms(2)])
  show "broker_wf t" using unadvise_method.method_safe [OF assms] by simp
  show "wp (provider_UnAdvise A) (\<lambda>_ t. prov_frame s t) s"
    unfolding provider_UnAdvise_def
    by (intro wp_intro wp_mono [OF clear_events.op_frame]) (use assms(1) in \<open>simp_all add: method_defs\<close>)
qed

lemma callback_calm:
  assumes "broker_wf s" and "run_state (callback_notify A ctx) s = (r, t)"
  shows "calm s t"
proof (rule prov_call [OF assms(2)])
  show "broker_wf t" using notify_method.method_safe [OF assms] by simp
  show "wp (callback_notify A ctx) (\<lambda>_ t. prov_frame s t) s"
    by (rule notify.op_frame) (use assms(1) in \<open>simp add: method_defs\<close>)
qed

lemma timer_calm:
  assumes "broker_wf s" and "ctx \<in> set (timers s)"
  shows "calm s (fire ctx s)"
proof (rule calm_prov)
  have "prov_wf s" using assms(1) by (simp add: broker_wf_def)
  from broker_wf_prov [OF assms(1) conjunct1 [OF fire_wf [OF this assms(2)]]]
  show "broker_wf (fire ctx s)" by (simp add: same_flags_def fire_def prov_frame_def)
qed simp

lemma callback_end_calm:
  assumes wf: "broker_wf s" and "ctx \<in> set (callbacks s)" and run: "run_state (callback_finish A ctx) s = (r, t)"
  shows "calm s t"
proof (rule calm_prov)
  have "prov_wf s" using wf by (simp add: broker_wf_def)
  from wp_run [OF run callback_finish_wf [OF this assms(2)]]
  have t: "prov_wf t" "prov_frame s t" by auto
  have "wp (callback_finish A ctx) (\<lambda>_ t. same_flags s t) s"
    unfolding callback_finish_def clear_pending_def by (intro wp_intro) (auto simp: same_flags_def)
  from broker_wf_prov [OF wf t wp_run [OF run this]] t(2)
  show "broker_wf t" "prov_frame s t" by auto
qed

text \<open>Calls on the session.\<close>

lemma scenario_calm:
  assumes "broker_wf s" and "run_state (SetUsageScenario A this cpus) s = (r, t)"
  shows "calm s t"
proof -
  have "wp (SetUsageScenario A this cpus) (\<lambda>_ t. com_frame s t \<and> phase_of t \<in> {phase_of s, Down}) s"
    using assms(1) unfolding SetUsageScenario_def set_cpus_def flag_defs
    by (intro wp_intro CloseNow_rule)
       (auto simp: ended_defs com_frame_def phase_of_def flags_idle dest: sess_more_dll)
  from wp_run [OF assms(2) this] set_usage.method_safe [OF assms] show ?thesis by (simp add: calm_def)
qed

lemma select_calm:
  assumes "broker_wf s" and "run_state (SetSelected A cpus b) s = (r, t)"
  shows "calm s t"
proof -
  have "wp (SetSelected A cpus b) (\<lambda>_ t. com_frame s t \<and> phase_of t \<in> {phase_of s, Down}) s"
    unfolding SetSelected_def decide_submit_def flag_defs Let_def
    by (intro wp_intro) (auto simp: com_frame_def phase_of_def)
  from wp_run [OF assms(2) this] set_selected.method_safe [OF assms] show ?thesis by (simp add: calm_def)
qed

lemma deselect_calm:
  assumes "broker_wf s" and "run_state (SetDeselected A cpus) s = (r, t)"
  shows "calm s t"
proof -
  have "wp (SetDeselected A cpus) (\<lambda>_ t. com_frame s t \<and> phase_of t \<in> {phase_of s, Down}) s"
    using assms(1) unfolding SetDeselected_def flag_defs
    by (intro wp_intro CloseNow_rule)
       (auto simp: ended_defs com_frame_def phase_of_def dest: sess_more_dll)
  from wp_run [OF assms(2) this] set_deselected.method_safe [OF assms] show ?thesis by (simp add: calm_def)
qed

section \<open>The system\<close>

definition sys_wf :: "'w os_api \<Rightarrow> 'w host \<Rightarrow> bool" where
  "sys_wf A = (\<lambda>(s, n). process_law A \<and> broker_wf s \<and> com_wf n s)"

text \<open>The abstract machine: an answer is a call; between calls a session may only end.\<close>

inductive spec_step :: "phase \<Rightarrow> label \<Rightarrow> phase \<Rightarrow> bool" where
  spec_answer: "call p g q \<Longrightarrow> spec_step p (Answer g) q"
| spec_quiet: "spec_step p Quiet p"
| spec_close: "spec_step p Quiet Down"

definition host_phase :: "'w host \<Rightarrow> phase" where
  "host_phase c = phase_of (fst c)"

text \<open>What every step from a well-formed state achieves.\<close>

definition kept :: "'w host \<Rightarrow> label \<Rightarrow> 'w host \<Rightarrow> bool" where
  "kept c l d \<longleftrightarrow> broker_wf (fst d) \<and> com_wf (snd d) (fst d) \<and> spec_step (host_phase c) l (host_phase d)"

lemma calm_kept: "com_wf n s \<Longrightarrow> calm s t \<Longrightarrow> kept (s, n) Quiet (t, n)"
  by (auto simp: kept_def calm_def host_phase_def intro: spec_step.intros com_wf_frame)

lemma com_kept:
  fixes s t :: "'w dll"
  assumes "broker_wf t \<and> com_wf m t \<and> g_session t = g_session s
    \<and> g_lastBrokerFlowState t = g_lastBrokerFlowState s"
  shows "kept (s, n) Quiet (t, m)"
  using assms by (simp add: kept_def host_phase_def phase_of_def spec_quiet)

lemma serialize_kept:
  assumes "process_law A" and "broker_wf s" and "com_wf n s"
    and "GetSerialization A args cpus s = Some ((h, r), t)"
  shows "kept (s, n) (label_of r) (t, n)"
proof -
  have fr: "call_frame r s t" using GetSerialization_run [OF assms(1,2,4)] by simp
  then have t: "broker_wf t" "com_wf n t"
    using com_wf_frame [OF assms(3)] sess_more_frame [of t s]
    by (simp_all add: call_frame_def phase_frame_def)
  consider "h = S_OK" | "r = no_reply" "t = s"
    using assms(4) by (cases rule: GetSerialization_cases) auto
  then have "spec_step (phase_of s) (label_of r) (phase_of t)"
  proof cases
    case 1
    with assms(4) have "GetSerialization A args cpus s = Some ((S_OK, r), t)" by simp
    from call_phase [OF assms(1,2) this] show ?thesis
      by (auto simp: label_of_def intro: spec_answer)
  next
    case 2
    then show ?thesis by (simp add: label_of_def no_reply_def spec_quiet)
  qed
  with t show ?thesis by (simp add: kept_def host_phase_def)
qed

lemma environment_calm: "broker_wf s \<Longrightarrow> calm s (s\<lparr>world := w\<rparr>)" for s :: "'w dll"
  by (rule calm_sys) simp_all

lemmas calm_calls = environment_calm scenario_calm advise_calm unadvise_calm descriptor_calm string_value_calm
  select_calm deselect_calm report_calm timer_calm callback_calm callback_end_calm register_calm unregister_calm

lemmas com_calls = attach.method_keeps create_instance.method_keeps factory_add.method_keeps factory_rel.method_keeps
  factory_query.method_keeps provider_add.method_keeps provider_rel.method_keeps credential_add.method_keeps
  credential_rel.method_keeps credential_at.method_keeps

lemma step_kept:
  assumes "step A c l d" and "sys_wf A c"
  shows "kept c l d"
  using assms
proof (induction rule: step.induct)
  case (serialize s this c args h r t n)
  then show ?case using serialize_kept by (simp add: sys_wf_def) blast
next
  case (class_factory s c riid b r t n)
  then show ?case unfolding sys_wf_def prod.case by (intro com_kept class_object.method_keeps) auto
next
  case (lock_server s r t n)
  then show ?case unfolding sys_wf_def prod.case by (intro com_kept lock.method_keeps) auto
next
  case (unlock_server n s r t)
  then show ?case unfolding sys_wf_def prod.case by (intro com_kept unlock.method_keeps) auto
qed (unfold sys_wf_def prod.case,
    (elim conjE, ((rule calm_kept, assumption, rule calm_calls; assumption)
       | (rule com_kept, rule com_calls; (assumption | rule TrueI))))+)

lemma step_wf: "sys_wf A c \<Longrightarrow> step A c l d \<Longrightarrow> sys_wf A d"
  using step_kept [of A c l d] by (simp add: kept_def sys_wf_def split_def)

lemma step_spec: "sys_wf A c \<Longrightarrow> step A c l d \<Longrightarrow> spec_step (host_phase c) l (host_phase d)"
  using step_kept [of A c l d] by (simp add: kept_def)

interpretation sys: simulation "step A" "sys_wf A" spec_step host_phase for A :: "'w os_api"
  by unfold_locales (rule step_wf step_spec; assumption)+

section \<open>The library as it is loaded\<close>

text \<open>The values the static variables start with.\<close>

definition loaded :: "'w \<Rightarrow> 'w dll" where
  "loaded w = \<lparr>world = w, trace = [], g_cachedKerberosPkg = 0, g_cachedMsvPkg = 0,
     g_brokerSessionActive = 0, g_brokerAwaitingFinal = 0, g_refreshPending = 0,
     g_brokerSessionAutoSubmitTick = 0, g_forceNextAutoSubmit = 0, g_brokerSessionGeneration = 1,
     g_cpEvents = NULL_HANDLE, g_cpEventsContext = 0, timers = [], callbacks = [],
     g_lastBrokerFlowState = 0, g_session = no_session, g_lastSetSelectedDecision = - 1,
     g_hInst = NULL_HANDLE, g_LockCount = 0,
     providers = Map.empty, credentials = Map.empty, factories = Map.empty\<rparr>"

lemma loaded_wf: "process_law A \<Longrightarrow> sys_wf A (loaded w, 0)"
  by (simp add: sys_wf_def com_wf_def method_defs loaded_def pi_handles_def)

lemma loaded_phase: "host_phase (loaded w, 0) = Down"
  by (simp add: host_phase_def loaded_def)

text \<open>What every state is like that can be reached.\<close>

lemma reached_wf:
  assumes "process_law A" and "exec (step A) (loaded w, 0) ls (t, n)"
  shows "broker_wf t" and "com_wf n t"
  using sys.inv_exec [OF assms(2) loaded_wf [OF assms(1)]] by (simp_all add: sys_wf_def)

lemma reached_spec:
  assumes "process_law A" and "exec (step A) (loaded w, 0) ls (t, n)"
  shows "exec spec_step Down ls (phase_of t)"
  using sys.sim_exec [OF assms(2) loaded_wf [OF assms(1)]] loaded_phase [of w] by (simp add: host_phase_def)

section \<open>A run, for the witnesses\<close>

text \<open>A credential is made; it is asked to serialize; the broker starts, connects and reports success.\<close>

lemma talking_start:
  assumes "g_session s = no_session"
  shows "\<exists>es. run_state (start_session (talking_api msg) b) s =
    (None, s\<lparr>g_session := g_session up_sess, g_brokerSessionActive := 1,
       g_brokerAwaitingFinal := 0, g_lastBrokerFlowState := 0, trace := es\<rparr>)"
  using assms
  by (simp add: start_session_def session_defs flag_defs MakePipeName_def CreateRestrictedPipeServer_def
      make_pipe_def own_def LaunchBroker_def BuildChildEnvironmentWithPipe_def CreateProcessW_def
      WaitPipeClientConnect_def CreateEventW_def CloseHandle_def CpLog_def CpLogText_def emit_def run_ask when_do_def Let_def
      talking_api_def demo_defs up_sess_def)
     (rule exI, rule refl)

lemma talking_success:
  assumes "g_session s = g_session up_sess" and "g_cachedMsvPkg s = 0" and "cpus \<noteq> CPUS_UNLOCK_WORKSTATION"
  shows "response (fst (run_state (handle_read (talking_api success_line) b cpus ReadOk success_line) s))
    = Some CPGSR_RETURN_CREDENTIAL_FINISHED"
  using success_line_short assms
  by (simp add: handle_read_def handle_message_def success_parse success_msg_def detach_session_def session_defs
      flag_defs when_do_def ClosePipeHandle_def CloseHandle_def emit_def HandleParsedBrokerMessage_def
      HandleAuthSuccessMessage_def Widen_def run_ask Let_def CpLog_def CpLogText_def WaitAndCloseBrokerProcess_def
      PackAutoEx_def PackMsv_def ResolveMsv_def ResolvePkgCached_def ResolvePkgA_def closeLsa_def
      CoAllocZero_def CoTaskMemAlloc_def up_sess_def sess_start_defs talking_api_def demo_defs wide_def)

abbreviation all_outs :: gs_args where
  "all_outs \<equiv> \<lparr>has_response = True, has_serialization = True, has_status = True, has_icon = True\<rparr>"

lemma talking_call:
  assumes "g_session s = no_session" and "g_cachedMsvPkg s = 0" and "cpus \<noteq> CPUS_UNLOCK_WORKSTATION"
  shows "\<exists>r t. GetSerialization (talking_api success_line) all_outs cpus s = Some ((S_OK, r), t)
    \<and> response r = Some CPGSR_RETURN_CREDENTIAL_FINISHED"
proof -
  let ?A = "talking_api success_line"
  obtain es where st: "run_state (start_session ?A True) (s\<lparr>trace := Acquire SessionLock # trace s\<rparr>) =
    (None, s\<lparr>g_session := g_session up_sess, g_brokerSessionActive := 1,
       g_brokerAwaitingFinal := 0, g_lastBrokerFlowState := 0, trace := es\<rparr>)"
    using talking_start [of "s\<lparr>trace := Acquire SessionLock # trace s\<rparr>" success_line True] assms(1) by auto
  let ?u = "s\<lparr>g_session := g_session up_sess, g_brokerSessionActive := 1,
    g_brokerAwaitingFinal := 0, g_lastBrokerFlowState := 0, trace := Closed 0x10 # Opened 0x10 # es\<rparr>"
  obtain r v where h: "run_state (handle_read ?A True cpus ReadOk success_line) ?u = (r, v)" by fastforce
  have "response r = Some CPGSR_RETURN_CREDENTIAL_FINISHED"
    using talking_success [of ?u cpus True] assms(2,3) h by simp
  then show ?thesis
    using h success_line_short by (simp add: GetSerialization_def up_session_lock st demo_read split_def)
qed

text \<open>The run: two steps.\<close>

lemma demo_run:
  "\<exists>t. exec (step (talking_api success_line)) (loaded 1000, 0)
     [Quiet, Answer CPGSR_RETURN_CREDENTIAL_FINISHED] (t, 0)"
proof -
  let ?A = "talking_api success_line"
  let ?s = "(loaded 1000)\<lparr>credentials := [0x2000 \<mapsto> \<lparr>c_ref = 1, c_cpus = CPUS_INVALID\<rparr>]\<rparr>"
  have "run_state (GetCredentialAt ?A 0 0 True) (loaded 1000) = ((S_OK, Some 0x2000), ?s)"
    by (simp add: GetCredentialAt_def run_ask Let_def talking_api_def demo_defs loaded_def)
  then have one: "step ?A (loaded 1000, 0) Quiet (?s, 0)" by (rule step.credential)
  obtain r t where "GetSerialization ?A all_outs CPUS_INVALID ?s = Some ((S_OK, r), t)"
      and r: "response r = Some CPGSR_RETURN_CREDENTIAL_FINISHED"
    using talking_call [of ?s CPUS_INVALID] by (auto simp: loaded_def)
  then have "step ?A (?s, 0) (label_of r) (t, 0)"
    by (intro step.serialize [where this = "0x2000" and c = "\<lparr>c_ref = 1, c_cpus = CPUS_INVALID\<rparr>"]) simp_all
  with r have "step ?A (?s, 0) (Answer CPGSR_RETURN_CREDENTIAL_FINISHED) (t, 0)" by (simp add: label_of_def)
  from exec_two [of "step ?A", OF one this] show ?thesis by blast
qed

end
