(* ===== verification/Spec2Isabelle.thy ===== *)
theory Spec2Isabelle
  imports Json_String System
begin

text \<open>
  Dot1xCP: a Windows credential provider that leaves the network sign-in to a broker process.

  \<^bold>\<open>The program.\<close>  LogonUI loads the library, makes a provider and asks it for tiles
  (\<open>core/ProviderCore.cpp\<close>, \<open>core/ProviderCredentialFields.cpp\<close>; all paths under
  \<open>src/src\<close>).  When the tile is selected it may submit by itself; LogonUI then calls
  \<open>GetSerialization\<close> (\<open>broker/ProviderSerialization.cpp\<close>).  That starts the broker with a named
  pipe (\<open>broker/ProviderPipe.cpp\<close>, \<open>ProviderPipeTransport.cpp\<close>), reads one message from the pipe,
  parses it (\<open>broker/ProviderJson.cpp\<close>) and answers: not finished, finished, or a packed credential
  (\<open>auth/Serialization.cpp\<close>, \<open>SerializationAuth.cpp\<close>).  While the broker works, a thread-pool timer
  tells LogonUI to ask again (\<open>core/Provider.cpp\<close>).  The session with the broker and its lock are in
  \<open>broker/ProviderBrokerSession.cpp\<close>, the COM server in \<open>com\<close>.

  \<^bold>\<open>How it is modelled.\<close>  The static variables of the program are one record that grows with the
  layers: \<^typ>\<open>'w sys\<close> (world and trace), \<open>auth\<close>, \<open>prov\<close>, \<open>sess\<close>, \<open>dll\<close>; each operation is a
  function in the state monad over the layer it needs, so it says in its type what it cannot touch.
  Windows is a parameter, the record \<open>os_api\<close> of functions on an abstract world (\<^theory_text>\<open>Os\<close>): a call may
  answer anything unless a theorem names a law (\<open>process_law\<close>: a started process has a handle;
  \<open>transfer_law\<close>: no transfer is longer than the buffer; \<open>clock_law\<close>: a wait that times out moves the
  clock).  Calls that only have an effect are events of the trace, and ownership is read off it: \<open>net\<close> for handles,
  \<open>lsa_net\<close>, \<open>mem_net\<close>, \<open>sink_net\<close>, and \<open>holds\<close> for the locks.  Objects of COM live in a store
  from addresses to fields.  Null pointers among the parameters are flags, out-parameters are
  results.  Machine integers are words and wrap.

  \<^bold>\<open>The theories, in the order of the layers.\<close>
  \<^item> \<^theory_text>\<open>Prelude\<close>: machine types, the state monad's weakest preconditions, list lemmas.
  \<^item> \<^theory_text>\<open>Json_Parser\<close>, \<^theory_text>\<open>Utf8\<close>, \<^theory_text>\<open>Json_String\<close>, \<^theory_text>\<open>Json_Grammar\<close>: \<open>ProviderJson.cpp\<close>; the parser accepts
    exactly a grammar of flat objects, decodes the escapes of RFC 8259, and wipes what it copied
    except in one case.
  \<^item> \<^theory_text>\<open>Os\<close>, \<^theory_text>\<open>Demo_World\<close>: the interface to Windows, and concrete worlds for the witnesses.
  \<^item> \<^theory_text>\<open>Pipe_Transport\<close>: waiting for the broker and reading a message; wiping, termination, the locale
    \<open>message_source\<close> of what a reader promises.
  \<^item> \<^theory_text>\<open>Auth_Package\<close>, \<^theory_text>\<open>Logon_Packing\<close>: package lookup with its cache, the two packed logon structures
    byte by byte; the locales \<open>package_resolver\<close> and \<open>packer\<close>.
  \<^item> \<^theory_text>\<open>Provider_State\<close>: flags, rate limit, generation, event sink and refresh timer; the locale \<open>prov_op\<close>.
  \<^item> \<^theory_text>\<open>Broker_Session\<close>: the session and its closing; the invariant \<open>broker_wf\<close>.
  \<^item> \<^theory_text>\<open>Broker_Launch\<close>, \<^theory_text>\<open>Provider_Util\<close>: pipe, child environment, child process; texts.
  \<^item> \<^theory_text>\<open>Get_Serialization\<close>, \<^theory_text>\<open>Serialization_Facts\<close>: the state machine, what each phase does, what a call
    guarantees.
  \<^item> \<^theory_text>\<open>Provider_Core\<close>, \<^theory_text>\<open>Core_Facts\<close>, \<^theory_text>\<open>Credential_Fields\<close>: the methods LogonUI calls, the locale
    \<open>session_method\<close>, selection, deselection and the polling loop.
  \<^item> \<^theory_text>\<open>Com_Server\<close>: class factory, exports, registry; the locale \<open>com_method\<close>.
  \<^item> \<^theory_text>\<open>Session_Protocol\<close>: section 4 of the README as an abstract machine of four phases, and the proof
    that \<open>GetSerialization\<close> implements it.
  \<^item> \<^theory_text>\<open>System\<close>: every entry point as a labelled step relation, its invariant (locale \<open>preserved\<close>) and
    its simulation of the abstract machine (locale \<open>simulation\<close>).
  \<^item> This theory: the properties of whole runs.

  \<^bold>\<open>Loops and termination.\<close>  The loops of the parser, of the environment block and of the status text
  are total by a measure.  The reading loops need not end and are \<open>partial_function (option)\<close>; that
  they do end is proved under \<open>clock_law\<close>, with no fuel.

  \<^bold>\<open>What is not modelled.\<close>  The file \<open>CpLog.h\<close> writes to: a log line is an event with its format,
  texts and numbers.
  Interleaving inside a call: a step of \<^theory_text>\<open>System\<close> is a whole call, except for the timer's callback,
  which is taken in its parts because it calls out to LogonUI.  The broker, the project files, the
  installer script and the precompiled headers are not code of this library.
\<close>

section \<open>Properties of the whole library\<close>

text \<open>
  C1: in every state the library can reach, by calls of LogonUI, COM and the thread pool in any
  order, with Windows and the broker answering as they like: every open handle belongs to the
  session, which is whole or absent; the flags tell the truth about it; both locks are free; at
  most one refresh is armed or running; and \<open>g_LockCount\<close> counts the factories and locks.
\<close>

theorem reachable_states_are_safe:
  assumes "process_law A" and "exec (step A) (loaded w, 0) ls (t, n)"
  shows "(\<forall>h. net h (trace t) = session_handles (g_session t) h)
    \<and> session_shape (g_session t) \<and> (g_brokerSessionActive t \<noteq> 0 \<longleftrightarrow> connected (g_session t))
    \<and> holds SessionLock (trace t) = Some False \<and> holds EventsLock (trace t) = Some False
    \<and> length (timers t) + length (callbacks t) = (if g_refreshPending t = 0 then 0 else 1)
    \<and> com_wf n t"
  using reached_wf [OF assms] by (simp add: method_defs)


text \<open>
  C8: when LogonUI is handed a credential, or told to fall back to another one, nothing is left of
  the session: no pipe, no process and no thread handle is open.
\<close>

theorem finished_leaves_nothing:
  assumes "process_law A" and "exec (step A) (loaded w, 0) (ls @ [Answer g]) (t, n)"
    and "g \<noteq> CPGSR_NO_CREDENTIAL_NOT_FINISHED"
  shows "g_session t = no_session \<and> (\<forall>h. net h (trace t) = 0)"
proof -
  from reached_spec [OF assms(1,2)] obtain p where "spec_step p (Answer g) (phase_of t)"
    by (rule exec_snocE) auto
  then have "phase_of t = Down"
    using assms(3) by (auto elim!: spec_step.cases call.cases protocol.cases)
  then have "\<not> connected (g_session t)" by (simp add: phase_of_Down)
  then show ?thesis
    using reached_wf(1) [OF assms(1,2)] by (simp add: method_defs)
qed

text \<open>
  C36: while fewer than 2 to the 32 factories and locks exist, the library says it may be unloaded
  exactly when no factory is alive and no lock is held.
\<close>

theorem unload_iff_no_factory_and_lock:
  assumes "process_law A" and "exec (step A) (loaded w, 0) ls (t, n)"
    and "card (dom (factories t)) + n < 2 ^ 32"
  shows "fst (run_state DllCanUnloadNow t) = S_OK \<longleftrightarrow> factories t = Map.empty \<and> n = 0"
proof -
  have "com_wf n t" by (rule reached_wf [OF assms(1,2)])
  then have "g_LockCount t = 0 \<longleftrightarrow> card (dom (factories t)) + n = 0" and fin: "finite (dom (factories t))"
    using unat_of_nat_len [where 'a = 32, of "card (dom (factories t)) + n"] assms(3)
    by (auto simp: com_wf_def word_unat_eq_iff)
  then show ?thesis by (simp add: DllCanUnloadNow_def)
qed

text \<open>
  C39: once LogonUI has unadvised the provider and no refresh is armed or running, the provider
  holds no reference on any event sink, however often LogonUI advised it before.
\<close>

theorem unadvise_releases_sinks:
  assumes "process_law A" and "exec (step A) (loaded w, 0) ls (t, n)"
    and "run_state (provider_UnAdvise A) t = (hr, u)"
    and "g_refreshPending t = 0" and "e \<noteq> NULL_HANDLE"
  shows "sink_net e (trace u) = 0 \<and> g_cpEvents u = NULL_HANDLE"
proof -
  have wf: "broker_wf t" by (rule reached_wf [OF assms(1,2)])
  have "wp (provider_UnAdvise A) (\<lambda>_ u. g_cpEvents u = NULL_HANDLE \<and> g_refreshPending u = g_refreshPending t) t"
    unfolding provider_UnAdvise_def ClearProviderEvents_def by (intro wp_intro) auto
  note U = wp_run [OF assms(3) this]
  have "broker_wf u" using unadvise_method.method_safe [OF wf assms(3)] by simp
  then show ?thesis using U assms(4,5) by (auto simp: method_defs)
qed

section \<open>Witnesses\<close>

lemma talking_law: "process_law (talking_api msg)"
  by (simp add: talking_api_def demo_process_law)

lemma reachable_states_are_safe_witness:
  "\<exists>t. exec (step (talking_api success_line)) (loaded 1000, 0)
      [Quiet, Answer CPGSR_RETURN_CREDENTIAL_FINISHED] (t, 0)
    \<and> length (timers t) + length (callbacks t) \<le> 1"
proof -
  obtain t where run: "exec (step (talking_api success_line)) (loaded 1000, 0)
      [Quiet, Answer CPGSR_RETURN_CREDENTIAL_FINISHED] (t, 0)"
    using demo_run by blast
  from reachable_states_are_safe [OF talking_law run] run show ?thesis by (auto split: if_splits)
qed


lemma finished_leaves_nothing_witness:
  "\<exists>t. exec (step (talking_api success_line)) (loaded 1000, 0)
      ([Quiet] @ [Answer CPGSR_RETURN_CREDENTIAL_FINISHED]) (t, 0) \<and> (\<forall>h. net h (trace t) = 0)"
proof -
  obtain t where run: "exec (step (talking_api success_line)) (loaded 1000, 0)
      ([Quiet] @ [Answer CPGSR_RETURN_CREDENTIAL_FINISHED]) (t, 0)"
    using demo_run by auto
  from finished_leaves_nothing [OF talking_law run] run show ?thesis by auto
qed

lemma unload_iff_no_factory_and_lock_witness:
  "fst (run_state DllCanUnloadNow (snd (run_state (LockServer True) (loaded (1000 :: ULONGLONG))))) \<noteq> S_OK"
proof -
  let ?t = "snd (run_state (LockServer True) (loaded (1000 :: ULONGLONG)))"
  have "step (talking_api []) (loaded 1000, 0) Quiet (?t, Suc 0)"
    by (rule step.lock_server [OF prod.collapse [symmetric]])
  then have run: "exec (step (talking_api [])) (loaded 1000, 0) [Quiet] (?t, Suc 0)" by (rule exec_one)
  have "factories ?t = Map.empty" by (simp add: LockServer_def add_lock_def loaded_def)
  with unload_iff_no_factory_and_lock [OF talking_law run] show ?thesis by simp
qed

lemma unadvise_releases_sinks_witness:
  "\<exists>t u. exec (step (talking_api [])) (loaded 1000, 0) [Quiet] (t, 0) \<and> g_cpEvents t = 0x80
     \<and> run_state (provider_UnAdvise (talking_api [])) t = (S_OK, u) \<and> sink_net 0x80 (trace u) = 0"
proof -
  let ?A = "talking_api []"
  obtain t where t: "run_state (provider_Advise ?A 0x80 3) (loaded 1000) = (S_OK, t)"
      and "g_cpEvents t = 0x80" "g_refreshPending t = 0"
    by (simp add: provider_Advise_def SetProviderEvents_def emit_def when_do_def loaded_def talking_simps)
  have "step ?A (loaded 1000, 0) Quiet (t, 0)" by (rule step.advise [OF t])
  then have run: "exec (step ?A) (loaded 1000, 0) [Quiet] (t, 0)" by (rule exec_one)
  obtain u where u: "run_state (provider_UnAdvise ?A) t = (S_OK, u)"
    by (simp add: provider_UnAdvise_def split_def)
  from unadvise_releases_sinks [OF talking_law run u, of "0x80"] \<open>g_cpEvents t = 0x80\<close> \<open>g_refreshPending t = 0\<close> run u
  show ?thesis by auto
qed

end
